theory Spec2Isabelle
  imports Main "HOL-Library.AList" "HOL-Library.Multiset"
begin

section \<open>Unified Meta Schema: enumerations\<close>

text \<open>
  The closed enumerations of \<^verbatim>\<open>Schema/unified_meta_schema.py\<close>. Each is a
  \<^verbatim>\<open>str, Enum\<close> class; the member names are kept, with a suffix where two
  enumerations share a member name.
\<close>

datatype DatabaseType = RELATIONAL | DOCUMENT | GRAPH | COLUMNAR

datatype EntityKind = TABLE | DOCUMENT_KIND | EMBEDDED | VERTEX | EDGE | WIDE_COLUMN_TABLE

datatype PrimitiveType =
    STRING | TEXT | INTEGER | LONG | DOUBLE | FLOAT | DECIMAL | BOOLEAN
  | DATE | DATETIME | TIMESTAMP | UUID | BINARY | NULL | OBJECT_ID
  | INT32 | INT64 | DECIMAL128

datatype KeyType = PRIMARY | UNIQUE | FOREIGN | PARTITION | CLUSTERING

datatype Cardinality = ZERO_TO_ONE | ONE_TO_ONE | ZERO_TO_MANY | ONE_TO_MANY

text \<open>Exceptions of the source that a model function can end in.\<close>

datatype py_error = KeyError | ValueError | IllTyped

definition all_DatabaseType :: "DatabaseType list" where
  "all_DatabaseType = [RELATIONAL, DOCUMENT, GRAPH, COLUMNAR]"

definition all_PrimitiveType :: "PrimitiveType list" where
  "all_PrimitiveType =
     [STRING, TEXT, INTEGER, LONG, DOUBLE, FLOAT, DECIMAL, BOOLEAN, DATE, DATETIME,
      TIMESTAMP, UUID, BINARY, NULL, OBJECT_ID, INT32, INT64, DECIMAL128]"

section \<open>Type mappings\<close>

text \<open>
  \<^verbatim>\<open>_TYPE_MAPS\<close> is a dictionary of dictionaries; both levels are association
  lists here, in the order of the source literal.
\<close>

definition TYPE_MAPS :: "(DatabaseType \<times> (PrimitiveType \<times> string) list) list" where
  "TYPE_MAPS =
   [(RELATIONAL,
      [(STRING, ''VARCHAR(255)''), (TEXT, ''TEXT''), (INTEGER, ''INTEGER''),
       (LONG, ''BIGINT''), (DOUBLE, ''DOUBLE PRECISION''), (FLOAT, ''REAL''),
       (DECIMAL, ''DECIMAL''), (BOOLEAN, ''BOOLEAN''), (DATE, ''DATE''),
       (DATETIME, ''TIMESTAMP''), (TIMESTAMP, ''TIMESTAMP''), (UUID, ''UUID''),
       (BINARY, ''BYTEA''), (NULL, ''NULL''), (OBJECT_ID, ''VARCHAR(24)''),
       (INT32, ''INTEGER''), (INT64, ''BIGINT''), (DECIMAL128, ''DECIMAL'')]),
    (DOCUMENT,
      [(STRING, ''string''), (TEXT, ''string''), (INTEGER, ''int''),
       (LONG, ''long''), (DOUBLE, ''double''), (FLOAT, ''double''),
       (DECIMAL, ''decimal''), (BOOLEAN, ''bool''), (DATE, ''date''),
       (DATETIME, ''date''), (TIMESTAMP, ''timestamp''), (UUID, ''binData''),
       (BINARY, ''binData''), (NULL, ''null''), (OBJECT_ID, ''objectId''),
       (INT32, ''int''), (INT64, ''long''), (DECIMAL128, ''decimal'')]),
    (GRAPH,
      [(STRING, ''String''), (TEXT, ''String''), (INTEGER, ''Integer''),
       (LONG, ''Long''), (DOUBLE, ''Double''), (FLOAT, ''Float''),
       (DECIMAL, ''Double''), (BOOLEAN, ''Boolean''), (DATE, ''Date''),
       (DATETIME, ''DateTime''), (TIMESTAMP, ''DateTime''), (UUID, ''String''),
       (BINARY, ''ByteArray''), (NULL, ''null''), (OBJECT_ID, ''String''),
       (INT32, ''Integer''), (INT64, ''Long''), (DECIMAL128, ''Double'')]),
    (COLUMNAR,
      [(STRING, ''text''), (TEXT, ''text''), (INTEGER, ''int''),
       (LONG, ''bigint''), (DOUBLE, ''double''), (FLOAT, ''float''),
       (DECIMAL, ''decimal''), (BOOLEAN, ''boolean''), (DATE, ''date''),
       (DATETIME, ''timestamp''), (TIMESTAMP, ''timestamp''), (UUID, ''uuid''),
       (BINARY, ''blob''), (NULL, ''text''), (OBJECT_ID, ''text''),
       (INT32, ''int''), (INT64, ''bigint''), (DECIMAL128, ''decimal'')])]"

text \<open>Subscripting a dictionary raises \<^verbatim>\<open>KeyError\<close> on a missing key.\<close>

definition subscript :: "('k \<times> 'v) list \<Rightarrow> 'k \<Rightarrow> py_error + 'v" where
  "subscript m k = (case map_of m k of None \<Rightarrow> Inl KeyError | Some v \<Rightarrow> Inr v)"

definition get_native_type :: "PrimitiveType \<Rightarrow> DatabaseType \<Rightarrow> py_error + string" where
  "get_native_type ptype db =
     (case subscript TYPE_MAPS db of
        Inl e \<Rightarrow> Inl e
      | Inr row \<Rightarrow> subscript row ptype)"

section \<open>Data types\<close>

text \<open>
  The four \<^verbatim>\<open>DataType\<close> subclasses as one recursive datatype. The constructor
  \<open>PrimitiveDataType\<close> carries \<^verbatim>\<open>primitive_type\<close>, \<^verbatim>\<open>max_length\<close>,
  \<^verbatim>\<open>precision\<close> and \<^verbatim>\<open>scale\<close>, in the order of the dataclass fields.
\<close>

datatype DataType =
    PrimitiveDataType PrimitiveType "int option" "int option" "int option"
  | ListDataType DataType
  | SetDataType DataType
  | MapDataType DataType DataType

text \<open>Decimal spelling of an integer, as an f-string prints it.\<close>

definition digit_char :: "nat \<Rightarrow> char" where
  "digit_char d = char_of (48 + d)"

fun str_of_nat :: "nat \<Rightarrow> string" where
  "str_of_nat n =
     (if n < 10 then [digit_char n] else str_of_nat (n div 10) @ [digit_char (n mod 10)])"

definition str_of_int :: "int \<Rightarrow> string" where
  "str_of_int i = (if i < 0 then CHR ''-'' # str_of_nat (nat (- i)) else str_of_nat (nat i))"

text \<open>Truthiness of an \<^verbatim>\<open>Optional[int]\<close>: \<^verbatim>\<open>None\<close> and \<^verbatim>\<open>0\<close> are false.\<close>

fun truthy_int :: "int option \<Rightarrow> bool" where
  "truthy_int None = False"
| "truthy_int (Some i) = (i \<noteq> 0)"

text \<open>Truthiness of an \<^verbatim>\<open>Optional[str]\<close>: \<^verbatim>\<open>None\<close> and the empty string are false.\<close>

fun truthy_str :: "string option \<Rightarrow> bool" where
  "truthy_str None = False"
| "truthy_str (Some s) = (s \<noteq> [])"

fun to_native :: "DataType \<Rightarrow> DatabaseType \<Rightarrow> py_error + string" where
  "to_native (PrimitiveDataType primitive_type max_length precision scale) db =
     (case get_native_type primitive_type db of
        Inl e \<Rightarrow> Inl e
      | Inr base \<Rightarrow>
          if db = RELATIONAL \<and> primitive_type = STRING \<and> truthy_int max_length
          then Inr (''VARCHAR('' @ str_of_int (the max_length) @ '')'')
          else if db = RELATIONAL \<and> primitive_type = DECIMAL \<and> truthy_int precision
          then Inr (''DECIMAL('' @ str_of_int (the precision) @ '','' @
                    str_of_int (if truthy_int scale then the scale else 0) @ '')'')
          else Inr base)"
| "to_native (ListDataType element_type) db =
     (case to_native element_type db of
        Inl e \<Rightarrow> Inl e
      | Inr el \<Rightarrow>
          Inr (case db of
                 RELATIONAL \<Rightarrow> el @ ''[]''
               | DOCUMENT \<Rightarrow> ''array''
               | GRAPH \<Rightarrow> ''List<'' @ el @ ''>''
               | COLUMNAR \<Rightarrow> ''list<'' @ el @ ''>''))"
| "to_native (SetDataType element_type) db =
     (if db = COLUMNAR then
        (case to_native element_type db of
           Inl e \<Rightarrow> Inl e | Inr el \<Rightarrow> Inr (''set<'' @ el @ ''>''))
      else if db = RELATIONAL then
        (case to_native element_type db of
           Inl e \<Rightarrow> Inl e | Inr el \<Rightarrow> Inr (el @ ''[]''))
      else Inr ''array'')"
| "to_native (MapDataType key_type value_type) db =
     (if db = COLUMNAR then
        (case to_native key_type db of
           Inl e \<Rightarrow> Inl e
         | Inr k \<Rightarrow>
             (case to_native value_type db of
                Inl e \<Rightarrow> Inl e
              | Inr v \<Rightarrow> Inr (''map<'' @ k @ '', '' @ v @ ''>'')))
      else Inr (case db of
                  RELATIONAL \<Rightarrow> ''JSONB''
                | DOCUMENT \<Rightarrow> ''object''
                | GRAPH \<Rightarrow> ''Map''
                | COLUMNAR \<Rightarrow> ''JSONB''))"

section \<open>Schema elements\<close>

text \<open>
  The dataclasses as records. Field names are those of the source; a field shared by
  several classes is written with its record's name in front
  (\<open>Attribute.is_optional\<close>, \<open>Reference.is_optional\<close>).

  \<^verbatim>\<open>meta_id\<close> has the default factory \<^verbatim>\<open>uuid.uuid4\<close>; here the identifier is a
  field like the others, given by whoever builds the record.
\<close>

record Attribute =
  attr_name :: string
  data_type :: DataType
  is_key :: bool
  is_optional :: bool
  description :: "string option"
  meta_id :: string

record Key =
  key_type :: KeyType
  key_attributes :: "Attribute list"
  is_managed :: bool
  referenced_entity :: "string option"
  referenced_attributes :: "string list"

text \<open>
  \<^verbatim>\<open>Union['EntityType', str]\<close>: the target of a relationship is a name or an entity
  object. The only field the source ever reads through the object is
  \<^verbatim>\<open>en_name\<close>, which is what \<open>TargetEntity\<close> carries.
\<close>

datatype Target = TargetName string | TargetEntity string

fun target_entity_name :: "Target \<Rightarrow> string" where
  "target_entity_name (TargetName s) = s"
| "target_entity_name (TargetEntity n) = n"

record Reference =
  cardinality :: Cardinality
  is_optional :: bool
  description :: "string option"
  meta_id :: string
  ref_name :: string
  refs_to :: Target
  edge_attributes :: "Attribute list"

record Aggregate =
  cardinality :: Cardinality
  is_optional :: bool
  description :: "string option"
  meta_id :: string
  aggr_name :: string
  aggregates :: Target

text \<open>
  \<^verbatim>\<open>Relationship\<close> is abstract; an object of that type is a \<^verbatim>\<open>Reference\<close> or an
  \<^verbatim>\<open>Aggregate\<close>, and \<^verbatim>\<open>isinstance\<close> is the constructor test.
\<close>

datatype Relationship = IsReference Reference | IsAggregate Aggregate

fun get_target_entity_name :: "Relationship \<Rightarrow> string" where
  "get_target_entity_name (IsReference r) = target_entity_name (refs_to r)"
| "get_target_entity_name (IsAggregate a) = target_entity_name (aggregates a)"

record StructuralVariation =
  variation_id :: int
  attributes :: "Attribute list"
  relationships :: "Relationship list"
  count :: int
  first_timestamp :: "string option"
  last_timestamp :: "string option"

record EntityType =
  en_name :: string
  entity_kind :: EntityKind
  is_root :: bool
  keys :: "Key list"
  attributes :: "Attribute list"
  relationships :: "Relationship list"
  variations :: "StructuralVariation list"
  description :: "string option"
  meta_id :: string

record RelationshipType =
  rel_name :: string
  source_entity :: Target
  target_entity :: Target
  attributes :: "Attribute list"
  cardinality :: Cardinality
  description :: "string option"
  meta_id :: string

text \<open>
  The two registries of a \<^verbatim>\<open>Database\<close> are Python dictionaries, which keep
  insertion order: association lists, written through \<open>AList.update\<close> (an existing
  key keeps its place, a new key goes to the end) and read through \<open>map_of\<close>.
\<close>

record Database =
  db_name :: string
  db_type :: DatabaseType
  entity_types :: "(string \<times> EntityType) list"
  relationship_types :: "(string \<times> RelationshipType) list"
  version :: int
  description :: "string option"
  meta_id :: string

subsection \<open>Mutation primitives and accessors\<close>

text \<open>
  \<^verbatim>\<open>Key.add_attribute\<close> writes \<^verbatim>\<open>attr.is_key\<close> and then appends the attribute
  unless the list holds an equal one (dataclass equality is by value). The function
  returns the key and the attribute as they are afterwards; \<open>key_attributes\<close> holds
  the current values of the members.
\<close>

definition Key_add_attribute :: "Key \<Rightarrow> Attribute \<Rightarrow> Key \<times> Attribute" where
  "Key_add_attribute k attr =
     (let attr' = attr\<lparr>is_key := True\<rparr>
      in (if attr' \<notin> set (key_attributes k)
          then k\<lparr>key_attributes := key_attributes k @ [attr']\<rparr>
          else k,
          attr'))"

definition get_attribute_names :: "Key \<Rightarrow> string list" where
  "get_attribute_names k = map attr_name (key_attributes k)"

definition add_key :: "EntityType \<Rightarrow> Key \<Rightarrow> EntityType" where
  "add_key e key = e\<lparr>keys := keys e @ [key]\<rparr>"

definition get_primary_key :: "EntityType \<Rightarrow> Key option" where
  "get_primary_key e = find (\<lambda>k. key_type k = PRIMARY) (keys e)"


definition add_attribute :: "EntityType \<Rightarrow> Attribute \<Rightarrow> EntityType" where
  "add_attribute e attr = e\<lparr>EntityType.attributes := EntityType.attributes e @ [attr]\<rparr>"

definition get_attribute :: "EntityType \<Rightarrow> string \<Rightarrow> Attribute option" where
  "get_attribute e name = find (\<lambda>a. attr_name a = name) (EntityType.attributes e)"

definition attribute_names :: "EntityType \<Rightarrow> string list" where
  "attribute_names e = map attr_name (EntityType.attributes e)"

definition add_relationship :: "EntityType \<Rightarrow> Relationship \<Rightarrow> EntityType" where
  "add_relationship e rel = e\<lparr>EntityType.relationships := EntityType.relationships e @ [rel]\<rparr>"

definition add_variation :: "EntityType \<Rightarrow> StructuralVariation \<Rightarrow> EntityType" where
  "add_variation e v = e\<lparr>variations := variations e @ [v]\<rparr>"

definition add_entity_type :: "Database \<Rightarrow> EntityType \<Rightarrow> Database" where
  "add_entity_type d e = d\<lparr>entity_types := AList.update (en_name e) e (entity_types d)\<rparr>"

definition get_entity_type :: "Database \<Rightarrow> string \<Rightarrow> EntityType option" where
  "get_entity_type d name = map_of (entity_types d) name"

definition add_relationship_type :: "Database \<Rightarrow> RelationshipType \<Rightarrow> Database" where
  "add_relationship_type d r =
     d\<lparr>relationship_types := AList.update (rel_name r) r (relationship_types d)\<rparr>"

text \<open>
  The registry invariant of the data model: the keys of \<open>entity_types\<close> are pairwise
  different (as in any dictionary) and each entity is filed under its own name.
\<close>

definition entity_names_unique :: "Database \<Rightarrow> bool" where
  "entity_names_unique d \<longleftrightarrow>
     distinct (map fst (entity_types d)) \<and>
     list_all (\<lambda>(n, e). n = en_name e) (entity_types d)"

section \<open>Serialization\<close>

text \<open>
  \<^verbatim>\<open>to_dict\<close> and \<^verbatim>\<open>from_dict\<close> exchange JSON-compatible trees. A Python
  dictionary keeps insertion order, so a JSON object is an association list; equal
  lists are equal dictionaries with the same key order, which is what a byte-identical
  dump needs. Floating-point numbers never occur in a serialized schema and are left out.
\<close>

datatype json =
    JNull | JBool bool | JInt int | JStr string
  | JList "json list"
  | JDict "(string \<times> json) list"

text \<open>
  Sequencing of computations that may raise: the first error ends the computation.
  \<open>for_each\<close> is a \<^verbatim>\<open>for\<close> loop over a list whose body updates a state or raises.
\<close>

fun sum_bind :: "'e + 'a \<Rightarrow> ('a \<Rightarrow> 'e + 'b) \<Rightarrow> 'e + 'b" where
  "sum_bind (Inl e) f = Inl e"
| "sum_bind (Inr x) f = f x"

fun for_each :: "('x \<Rightarrow> 's \<Rightarrow> py_error + 's) \<Rightarrow> 'x list \<Rightarrow> 's \<Rightarrow> py_error + 's" where
  "for_each body [] s = Inr s"
| "for_each body (x # xs) s = sum_bind (body x s) (for_each body xs)"

subsection \<open>Enumeration values\<close>

text \<open>The \<^verbatim>\<open>.value\<close> of each enumeration member, and the lookup \<^verbatim>\<open>Enum(value)\<close>.\<close>

fun DatabaseType_value :: "DatabaseType \<Rightarrow> string" where
  "DatabaseType_value RELATIONAL = ''relational''"
| "DatabaseType_value DOCUMENT = ''document''"
| "DatabaseType_value GRAPH = ''graph''"
| "DatabaseType_value COLUMNAR = ''columnar''"

fun EntityKind_value :: "EntityKind \<Rightarrow> string" where
  "EntityKind_value TABLE = ''table''"
| "EntityKind_value DOCUMENT_KIND = ''document''"
| "EntityKind_value EMBEDDED = ''embedded''"
| "EntityKind_value VERTEX = ''vertex''"
| "EntityKind_value EDGE = ''edge''"
| "EntityKind_value WIDE_COLUMN_TABLE = ''wide_column_table''"

fun PrimitiveType_value :: "PrimitiveType \<Rightarrow> string" where
  "PrimitiveType_value STRING = ''string''"
| "PrimitiveType_value TEXT = ''text''"
| "PrimitiveType_value INTEGER = ''integer''"
| "PrimitiveType_value LONG = ''long''"
| "PrimitiveType_value DOUBLE = ''double''"
| "PrimitiveType_value FLOAT = ''float''"
| "PrimitiveType_value DECIMAL = ''decimal''"
| "PrimitiveType_value BOOLEAN = ''boolean''"
| "PrimitiveType_value DATE = ''date''"
| "PrimitiveType_value DATETIME = ''datetime''"
| "PrimitiveType_value TIMESTAMP = ''timestamp''"
| "PrimitiveType_value UUID = ''uuid''"
| "PrimitiveType_value BINARY = ''binary''"
| "PrimitiveType_value NULL = ''null''"
| "PrimitiveType_value OBJECT_ID = ''objectId''"
| "PrimitiveType_value INT32 = ''int32''"
| "PrimitiveType_value INT64 = ''int64''"
| "PrimitiveType_value DECIMAL128 = ''decimal128''"

fun KeyType_value :: "KeyType \<Rightarrow> string" where
  "KeyType_value PRIMARY = ''PRIMARY''"
| "KeyType_value UNIQUE = ''UNIQUE''"
| "KeyType_value FOREIGN = ''FOREIGN''"
| "KeyType_value PARTITION = ''PARTITION''"
| "KeyType_value CLUSTERING = ''CLUSTERING''"

fun Cardinality_value :: "Cardinality \<Rightarrow> string" where
  "Cardinality_value ZERO_TO_ONE = ''?''"
| "Cardinality_value ONE_TO_ONE = ''&''"
| "Cardinality_value ZERO_TO_MANY = ''*''"
| "Cardinality_value ONE_TO_MANY = ''+''"

definition all_EntityKind :: "EntityKind list" where
  "all_EntityKind = [TABLE, DOCUMENT_KIND, EMBEDDED, VERTEX, EDGE, WIDE_COLUMN_TABLE]"

definition all_KeyType :: "KeyType list" where
  "all_KeyType = [PRIMARY, UNIQUE, FOREIGN, PARTITION, CLUSTERING]"

text \<open>
  \<^verbatim>\<open>Enum(value)\<close> finds the member with that value; \<open>None\<close> stands for the
  \<^verbatim>\<open>ValueError\<close> it raises otherwise (for any value that is not a member's string).
\<close>

definition enum_of_value :: "('a \<Rightarrow> string) \<Rightarrow> 'a list \<Rightarrow> json \<Rightarrow> 'a option" where
  "enum_of_value val members v =
     (case v of JStr s \<Rightarrow> find (\<lambda>m. val m = s) members | _ \<Rightarrow> None)"

text \<open>
  \<^verbatim>\<open>Cardinality.from_symbol\<close> is a dictionary \<^verbatim>\<open>get\<close> with default
  \<^verbatim>\<open>ONE_TO_ONE\<close>. A list or a dictionary is not hashable and makes the lookup raise;
  any other value that is not one of the four symbols yields the default.
\<close>

definition from_symbol :: "json \<Rightarrow> py_error + Cardinality" where
  "from_symbol s =
     (case s of
        JStr symbol \<Rightarrow>
          Inr (case map_of [(''?'', ZERO_TO_ONE), (''&'', ONE_TO_ONE), (''*'', ZERO_TO_MANY),
                            (''+'', ONE_TO_MANY)] symbol of
                 None \<Rightarrow> ONE_TO_ONE | Some c \<Rightarrow> c)
      | JList xs \<Rightarrow> Inl IllTyped
      | JDict kvs \<Rightarrow> Inl IllTyped
      | _ \<Rightarrow> Inr ONE_TO_ONE)"

definition is_multiple :: "Cardinality \<Rightarrow> bool" where
  "is_multiple c \<longleftrightarrow> c = ZERO_TO_MANY \<or> c = ONE_TO_MANY"

subsection \<open>to_dict\<close>

text \<open>
  An entry that the source adds only when a value is truthy (\<^verbatim>\<open>if v: d[k] = v\<close>).
  The keys added this way are never in the dictionary literal they are added to, so
  the new entry goes to the end.
\<close>

definition opt_int_item :: "string \<Rightarrow> int option \<Rightarrow> (string \<times> json) list" where
  "opt_int_item k v = (if truthy_int v then [(k, JInt (the v))] else [])"

definition opt_str_item :: "string \<Rightarrow> string option \<Rightarrow> (string \<times> json) list" where
  "opt_str_item k v = (if truthy_str v then [(k, JStr (the v))] else [])"

fun DataType_to_dict :: "DataType \<Rightarrow> json" where
  "DataType_to_dict (PrimitiveDataType primitive_type max_length precision scale) =
     JDict ([(''kind'', JStr ''primitive''), (''type'', JStr (PrimitiveType_value primitive_type))]
            @ opt_int_item ''max_length'' max_length
            @ opt_int_item ''precision'' precision
            @ opt_int_item ''scale'' scale)"
| "DataType_to_dict (ListDataType element_type) =
     JDict [(''kind'', JStr ''list''), (''element_type'', DataType_to_dict element_type)]"
| "DataType_to_dict (SetDataType element_type) =
     JDict [(''kind'', JStr ''set''), (''element_type'', DataType_to_dict element_type)]"
| "DataType_to_dict (MapDataType key_t value_t) =
     JDict [(''kind'', JStr ''map''), (''key_type'', DataType_to_dict key_t),
            (''value_type'', DataType_to_dict value_t)]"

definition Attribute_to_dict :: "Attribute \<Rightarrow> json" where
  "Attribute_to_dict a =
     JDict ([(''kind'', JStr ''attribute''), (''meta_id'', JStr (Attribute.meta_id a)),
             (''attr_name'', JStr (attr_name a)),
             (''data_type'', DataType_to_dict (data_type a)),
             (''is_key'', JBool (is_key a)),
             (''is_optional'', JBool (Attribute.is_optional a))]
            @ opt_str_item ''description'' (Attribute.description a))"

definition Key_to_dict :: "Key \<Rightarrow> json" where
  "Key_to_dict k =
     JDict ([(''key_type'', JStr (KeyType_value (key_type k))),
             (''attributes'', JList (map JStr (get_attribute_names k))),
             (''is_managed'', JBool (is_managed k))]
            @ (if truthy_str (referenced_entity k)
               then [(''referenced_entity'', JStr (the (referenced_entity k))),
                     (''referenced_attributes'', JList (map JStr (referenced_attributes k)))]
               else []))"

definition Reference_to_dict :: "Reference \<Rightarrow> json" where
  "Reference_to_dict r =
     JDict ([(''kind'', JStr ''reference''), (''meta_id'', JStr (Reference.meta_id r)),
             (''ref_name'', JStr (ref_name r)),
             (''refs_to'', JStr (target_entity_name (refs_to r))),
             (''cardinality'', JStr (Cardinality_value (Reference.cardinality r))),
             (''is_optional'', JBool (Reference.is_optional r))]
            @ (if edge_attributes r \<noteq> []
               then [(''edge_attributes'', JList (map Attribute_to_dict (edge_attributes r)))]
               else [])
            @ opt_str_item ''description'' (Reference.description r))"

definition Aggregate_to_dict :: "Aggregate \<Rightarrow> json" where
  "Aggregate_to_dict a =
     JDict ([(''kind'', JStr ''aggregate''), (''meta_id'', JStr (Aggregate.meta_id a)),
             (''aggr_name'', JStr (aggr_name a)),
             (''aggregates'', JStr (target_entity_name (aggregates a))),
             (''cardinality'', JStr (Cardinality_value (Aggregate.cardinality a))),
             (''is_optional'', JBool (Aggregate.is_optional a)),
             (''is_array'', JBool (is_multiple (Aggregate.cardinality a)))]
            @ opt_str_item ''description'' (Aggregate.description a))"

fun Relationship_to_dict :: "Relationship \<Rightarrow> json" where
  "Relationship_to_dict (IsReference r) = Reference_to_dict r"
| "Relationship_to_dict (IsAggregate a) = Aggregate_to_dict a"

definition StructuralVariation_to_dict :: "StructuralVariation \<Rightarrow> json" where
  "StructuralVariation_to_dict v =
     JDict ([(''variation_id'', JInt (variation_id v)),
             (''attributes'', JList (map Attribute_to_dict (StructuralVariation.attributes v))),
             (''relationships'',
                JList (map Relationship_to_dict (StructuralVariation.relationships v))),
             (''count'', JInt (StructuralVariation.count v))]
            @ opt_str_item ''first_timestamp'' (first_timestamp v)
            @ opt_str_item ''last_timestamp'' (last_timestamp v))"

definition EntityType_to_dict :: "EntityType \<Rightarrow> json" where
  "EntityType_to_dict e =
     JDict ([(''meta_id'', JStr (EntityType.meta_id e)), (''en_name'', JStr (en_name e)),
             (''entity_kind'', JStr (EntityKind_value (entity_kind e))),
             (''is_root'', JBool (is_root e)),
             (''keys'', JList (map Key_to_dict (keys e))),
             (''attributes'', JList (map Attribute_to_dict (EntityType.attributes e))),
             (''relationships'', JList (map Relationship_to_dict (EntityType.relationships e)))]
            @ (if variations e \<noteq> []
               then [(''variations'', JList (map StructuralVariation_to_dict (variations e)))]
               else [])
            @ opt_str_item ''description'' (EntityType.description e))"

definition RelationshipType_to_dict :: "RelationshipType \<Rightarrow> json" where
  "RelationshipType_to_dict r =
     JDict ([(''meta_id'', JStr (RelationshipType.meta_id r)), (''rel_name'', JStr (rel_name r)),
             (''source_entity'', JStr (target_entity_name (source_entity r))),
             (''target_entity'', JStr (target_entity_name (target_entity r))),
             (''attributes'', JList (map Attribute_to_dict (RelationshipType.attributes r))),
             (''cardinality'', JStr (Cardinality_value (RelationshipType.cardinality r)))]
            @ opt_str_item ''description'' (RelationshipType.description r))"

definition Database_to_dict :: "Database \<Rightarrow> json" where
  "Database_to_dict d =
     JDict ([(''meta_id'', JStr (Database.meta_id d)), (''db_name'', JStr (db_name d)),
             (''db_type'', JStr (DatabaseType_value (db_type d))),
             (''version'', JInt (version d)),
             (''entity_types'',
                JDict (map (\<lambda>(n, e). (n, EntityType_to_dict e)) (entity_types d)))]
            @ (if relationship_types d \<noteq> []
               then [(''relationship_types'',
                      JDict (map (\<lambda>(n, r). (n, RelationshipType_to_dict r))
                               (relationship_types d)))]
               else [])
            @ opt_str_item ''description'' (Database.description d))"

subsection \<open>from_dict\<close>

text \<open>
  \<^verbatim>\<open>data.get(key, default)\<close> and its typed readings. The dataclass fields are typed
  here, while Python stores whatever value the dictionary holds. A value whose JSON type
  is not the annotated type of the field it would land in is outside the typed model;
  the reading functions answer \<open>IllTyped\<close> for it (Python would raise
  \<^verbatim>\<open>TypeError\<close> or \<^verbatim>\<open>AttributeError\<close> on some of these inputs and silently store
  an ill-typed field on the others). JSON \<^verbatim>\<open>null\<close> reads as \<^verbatim>\<open>None\<close> in an optional
  field.
\<close>

definition dict_get :: "(string \<times> json) list \<Rightarrow> string \<Rightarrow> json \<Rightarrow> json" where
  "dict_get data k dflt = (case map_of data k of None \<Rightarrow> dflt | Some v \<Rightarrow> v)"

definition get_str :: "(string \<times> json) list \<Rightarrow> string \<Rightarrow> string \<Rightarrow> py_error + string" where
  "get_str data k dflt =
     (case map_of data k of
        None \<Rightarrow> Inr dflt | Some (JStr s) \<Rightarrow> Inr s | Some _ \<Rightarrow> Inl IllTyped)"

definition get_bool :: "(string \<times> json) list \<Rightarrow> string \<Rightarrow> bool \<Rightarrow> py_error + bool" where
  "get_bool data k dflt =
     (case map_of data k of
        None \<Rightarrow> Inr dflt | Some (JBool b) \<Rightarrow> Inr b | Some _ \<Rightarrow> Inl IllTyped)"

definition get_int :: "(string \<times> json) list \<Rightarrow> string \<Rightarrow> int \<Rightarrow> py_error + int" where
  "get_int data k dflt =
     (case map_of data k of
        None \<Rightarrow> Inr dflt | Some (JInt i) \<Rightarrow> Inr i | Some _ \<Rightarrow> Inl IllTyped)"

definition get_opt_str :: "(string \<times> json) list \<Rightarrow> string \<Rightarrow> py_error + string option" where
  "get_opt_str data k =
     (case map_of data k of
        None \<Rightarrow> Inr None | Some JNull \<Rightarrow> Inr None | Some (JStr s) \<Rightarrow> Inr (Some s)
      | Some _ \<Rightarrow> Inl IllTyped)"

definition get_opt_int :: "(string \<times> json) list \<Rightarrow> string \<Rightarrow> py_error + int option" where
  "get_opt_int data k =
     (case map_of data k of
        None \<Rightarrow> Inr None | Some JNull \<Rightarrow> Inr None | Some (JInt i) \<Rightarrow> Inr (Some i)
      | Some _ \<Rightarrow> Inl IllTyped)"

definition get_list :: "(string \<times> json) list \<Rightarrow> string \<Rightarrow> py_error + json list" where
  "get_list data k =
     (case map_of data k of
        None \<Rightarrow> Inr [] | Some (JList xs) \<Rightarrow> Inr xs | Some _ \<Rightarrow> Inl IllTyped)"

definition get_values :: "(string \<times> json) list \<Rightarrow> string \<Rightarrow> py_error + json list" where
  "get_values data k =
     (case map_of data k of
        None \<Rightarrow> Inr [] | Some (JDict kvs) \<Rightarrow> Inr (map snd kvs) | Some _ \<Rightarrow> Inl IllTyped)"

fun str_items :: "json list \<Rightarrow> py_error + string list" where
  "str_items [] = Inr []"
| "str_items (JStr s # xs) = sum_bind (str_items xs) (\<lambda>ss. Inr (s # ss))"
| "str_items (x # xs) = Inl IllTyped"

text \<open>
  \<^verbatim>\<open>if "meta_id" in data: x.meta_id = data["meta_id"]\<close>; otherwise the object keeps the
  identifier its default factory drew from \<^verbatim>\<open>uuid.uuid4\<close>. That random draw is the
  parameter \<open>fresh\<close>, asked for the node the object is built from.
\<close>

definition get_meta_id ::
  "(json \<Rightarrow> string) \<Rightarrow> (string \<times> json) list \<Rightarrow> py_error + string" where
  "get_meta_id fresh data =
     (case map_of data ''meta_id'' of
        None \<Rightarrow> Inr (fresh (JDict data)) | Some (JStr s) \<Rightarrow> Inr s | Some _ \<Rightarrow> Inl IllTyped)"

text \<open>
  \<^verbatim>\<open>Database._create_dtype\<close>. The recursion follows the nested dictionaries; a missing
  \<^verbatim>\<open>element_type\<close>, \<^verbatim>\<open>key_type\<close> or \<^verbatim>\<open>value_type\<close> reads as the empty
  dictionary, as in the source. A \<^verbatim>\<open>kind\<close> that is no string equals none of the four
  names, and an unknown \<^verbatim>\<open>type\<close> falls back to \<^verbatim>\<open>STRING\<close> (the bare
  \<^verbatim>\<open>except\<close>).
\<close>

function create_dtype :: "json \<Rightarrow> py_error + DataType option" where
  "create_dtype (JDict data) =
     (case dict_get data ''kind'' (JStr ''primitive'') of
        JStr kind \<Rightarrow>
          if kind = ''primitive'' then
            sum_bind (get_opt_int data ''max_length'') (\<lambda>max_length.
            sum_bind (get_opt_int data ''precision'') (\<lambda>precision.
            sum_bind (get_opt_int data ''scale'') (\<lambda>scale.
              Inr (Some (PrimitiveDataType
                (case enum_of_value PrimitiveType_value all_PrimitiveType
                        (dict_get data ''type'' (JStr ''string'')) of
                   None \<Rightarrow> STRING | Some pt \<Rightarrow> pt)
                max_length precision scale)))))
          else if kind = ''list'' then
            sum_bind (create_dtype (dict_get data ''element_type'' (JDict [])))
              (\<lambda>el. Inr (map_option ListDataType el))
          else if kind = ''set'' then
            sum_bind (create_dtype (dict_get data ''element_type'' (JDict [])))
              (\<lambda>el. Inr (map_option SetDataType el))
          else if kind = ''map'' then
            sum_bind (create_dtype (dict_get data ''key_type'' (JDict []))) (\<lambda>kt.
            sum_bind (create_dtype (dict_get data ''value_type'' (JDict []))) (\<lambda>vt.
              Inr (case (kt, vt) of
                     (Some k, Some v) \<Rightarrow> Some (MapDataType k v)
                   | _ \<Rightarrow> None)))
          else Inr None
      | _ \<Rightarrow> Inr None)"
| "create_dtype JNull = Inl IllTyped"
| "create_dtype (JBool b) = Inl IllTyped"
| "create_dtype (JInt i) = Inl IllTyped"
| "create_dtype (JStr s) = Inl IllTyped"
| "create_dtype (JList xs) = Inl IllTyped"
  by pat_completeness auto
termination
proof (relation "measure size")
  have lookup: "size v < size (JDict data)" if "map_of data k = Some v" for data k and v :: json
  proof -
    from that have "(k, v) \<in> set data" by (rule map_of_SomeD)
    then show ?thesis by (induction data) auto
  qed
  have sub: "size (dict_get data k (JDict [])) < size (JDict data)"
    if "dict_get data ''kind'' (JStr ''primitive'') = JStr kind" "kind \<noteq> ''primitive''"
    for data k kind
  proof (cases "map_of data k")
    case None
    from that have "data \<noteq> []" by (auto simp: dict_get_def)
    then have "size (JDict []) < size (JDict data)" by (cases data) auto
    with None show ?thesis by (simp add: dict_get_def)
  next
    case (Some v)
    with lookup [OF Some] show ?thesis by (simp add: dict_get_def)
  qed
  show "wf (measure size)" by simp
  show "(dict_get data ''element_type'' (JDict []), JDict data) \<in> measure size"
    if "dict_get data ''kind'' (JStr ''primitive'') = JStr kind" "kind \<noteq> ''primitive''"
    for data kind
    using sub [OF that] by simp
  show "(dict_get data ''element_type'' (JDict []), JDict data) \<in> measure size"
    if "dict_get data ''kind'' (JStr ''primitive'') = JStr kind" "kind \<noteq> ''primitive''"
    for data kind
    using sub [OF that] by simp
  show "(dict_get data ''key_type'' (JDict []), JDict data) \<in> measure size"
    if "dict_get data ''kind'' (JStr ''primitive'') = JStr kind" "kind \<noteq> ''primitive''"
    for data kind
    using sub [OF that] by simp
  show "(dict_get data ''value_type'' (JDict []), JDict data) \<in> measure size"
    if "dict_get data ''kind'' (JStr ''primitive'') = JStr kind" "kind \<noteq> ''primitive''"
    for data kind
    using sub [OF that] by simp
qed

text \<open>\<^verbatim>\<open>Database._create_attr\<close>, and the loops that collect the attributes it returns.\<close>

definition create_attr :: "(json \<Rightarrow> string) \<Rightarrow> json \<Rightarrow> py_error + Attribute option" where
  "create_attr fresh node =
     (case node of
        JDict data \<Rightarrow>
          if map_of data ''kind'' \<noteq> Some (JStr ''attribute'') then Inr None
          else
            sum_bind (create_dtype (dict_get data ''data_type'' (JDict []))) (\<lambda>dt.
            sum_bind (get_str data ''attr_name'' []) (\<lambda>name.
            sum_bind (get_bool data ''is_key'' False) (\<lambda>key.
            sum_bind (get_bool data ''is_optional'' True) (\<lambda>optional.
            sum_bind (get_opt_str data ''description'') (\<lambda>descr.
            sum_bind (get_meta_id fresh data) (\<lambda>mid.
              Inr (Some
                \<lparr>attr_name = name,
                 data_type = (case dt of
                                None \<Rightarrow> PrimitiveDataType STRING None None None
                              | Some t \<Rightarrow> t),
                 is_key = key, is_optional = optional, description = descr,
                 meta_id = mid\<rparr>)))))))
      | _ \<Rightarrow> Inl IllTyped)"

definition create_attrs :: "(json \<Rightarrow> string) \<Rightarrow> json list \<Rightarrow> py_error + Attribute list" where
  "create_attrs fresh nodes =
     for_each (\<lambda>a attrs. sum_bind (create_attr fresh a)
                 (\<lambda>attr. Inr (case attr of None \<Rightarrow> attrs | Some x \<Rightarrow> attrs @ [x])))
       nodes []"

text \<open>
  \<^verbatim>\<open>Database._create_key\<close>. \<^verbatim>\<open>entity.get_attribute(an)\<close> returns the entity's own
  attribute object, so the flag that \<^verbatim>\<open>Key.add_attribute\<close> sets shows in
  \<^verbatim>\<open>entity.attributes\<close> too: \<open>mark_key\<close> writes it to the first attribute of that
  name, and the function returns the entity along with the key. The key's members are
  all such first attributes, already flagged, so comparing them by value agrees with
  comparing the objects. A name that is no string, or names no attribute, is skipped.
\<close>

fun mark_key :: "string \<Rightarrow> Attribute list \<Rightarrow> Attribute list" where
  "mark_key name [] = []"
| "mark_key name (a # attrs) =
     (if attr_name a = name then a\<lparr>is_key := True\<rparr> # attrs else a # mark_key name attrs)"

definition create_key_member :: "json \<Rightarrow> Key \<times> EntityType \<Rightarrow> py_error + Key \<times> EntityType" where
  "create_key_member an st =
     (case st of (k, entity) \<Rightarrow>
        (case an of
           JStr name \<Rightarrow>
             (case get_attribute entity name of
                None \<Rightarrow> Inr (k, entity)
              | Some a \<Rightarrow>
                  Inr (fst (Key_add_attribute k a),
                       entity\<lparr>EntityType.attributes :=
                                 mark_key name (EntityType.attributes entity)\<rparr>))
         | _ \<Rightarrow> Inr (k, entity)))"

definition create_key :: "json \<Rightarrow> EntityType \<Rightarrow> py_error + Key option \<times> EntityType" where
  "create_key node entity =
     (case node of
        JDict data \<Rightarrow>
          sum_bind (get_bool data ''is_managed'' True) (\<lambda>managed.
          sum_bind (get_opt_str data ''referenced_entity'') (\<lambda>ref_entity.
          sum_bind (sum_bind (get_list data ''referenced_attributes'') str_items) (\<lambda>ref_attrs.
          sum_bind (get_list data ''attributes'') (\<lambda>names.
          sum_bind (for_each create_key_member names
                      (\<lparr>key_type =
                          (case enum_of_value KeyType_value all_KeyType
                                  (dict_get data ''key_type'' (JStr ''PRIMARY'')) of
                             None \<Rightarrow> PRIMARY | Some kt \<Rightarrow> kt),
                        key_attributes = [], is_managed = managed,
                        referenced_entity = ref_entity,
                        referenced_attributes = ref_attrs\<rparr>, entity))
            (\<lambda>(k, entity'). Inr (if key_attributes k \<noteq> [] then Some k else None, entity'))))))
      | _ \<Rightarrow> Inl IllTyped)"

text \<open>
  \<^verbatim>\<open>Database._create_rel\<close>. The cardinality is read before the kind is looked at.
\<close>

definition create_rel :: "(json \<Rightarrow> string) \<Rightarrow> json \<Rightarrow> py_error + Relationship option" where
  "create_rel fresh node =
     (case node of
        JDict data \<Rightarrow>
          sum_bind (from_symbol (dict_get data ''cardinality'' (JStr ''&''))) (\<lambda>card.
            if map_of data ''kind'' = Some (JStr ''reference'') then
              sum_bind (get_str data ''ref_name'' []) (\<lambda>name.
              sum_bind (get_str data ''refs_to'' []) (\<lambda>target.
              sum_bind (get_bool data ''is_optional'' True) (\<lambda>optional.
              sum_bind (get_opt_str data ''description'') (\<lambda>descr.
              sum_bind (get_meta_id fresh data) (\<lambda>mid.
              sum_bind (sum_bind (get_list data ''edge_attributes'') (create_attrs fresh))
                (\<lambda>edge_attrs.
                Inr (Some (IsReference
                  \<lparr>Reference.cardinality = card, is_optional = optional,
                   description = descr, meta_id = mid, ref_name = name,
                   refs_to = TargetName target, edge_attributes = edge_attrs\<rparr>))))))))
            else if map_of data ''kind'' = Some (JStr ''aggregate'')
                    \<or> map_of data ''kind'' = Some (JStr ''embedded'') then
              sum_bind (case map_of data ''aggr_name'' of
                          None \<Rightarrow> get_str data ''em_name'' []
                        | Some (JStr s) \<Rightarrow> Inr s
                        | Some _ \<Rightarrow> Inl IllTyped) (\<lambda>name.
              sum_bind (case map_of data ''aggregates'' of
                          None \<Rightarrow> get_str data ''embeds'' []
                        | Some (JStr s) \<Rightarrow> Inr s
                        | Some _ \<Rightarrow> Inl IllTyped) (\<lambda>target.
              sum_bind (get_bool data ''is_optional'' True) (\<lambda>optional.
              sum_bind (get_opt_str data ''description'') (\<lambda>descr.
              sum_bind (get_meta_id fresh data) (\<lambda>mid.
                Inr (Some (IsAggregate
                  \<lparr>Aggregate.cardinality = card, is_optional = optional,
                   description = descr, meta_id = mid, aggr_name = name,
                   aggregates = TargetName target\<rparr>)))))))
            else Inr None)
      | _ \<Rightarrow> Inl IllTyped)"

text \<open>
  \<^verbatim>\<open>StructuralVariation.add_attribute\<close> and \<^verbatim>\<open>add_relationship\<close> append unless an
  equal element is there; \<^verbatim>\<open>Database._create_var\<close> builds a variation through them.
\<close>

definition StructuralVariation_add_attribute ::
  "StructuralVariation \<Rightarrow> Attribute \<Rightarrow> StructuralVariation" where
  "StructuralVariation_add_attribute v attr =
     (if attr \<notin> set (StructuralVariation.attributes v)
      then v\<lparr>StructuralVariation.attributes := StructuralVariation.attributes v @ [attr]\<rparr>
      else v)"

definition StructuralVariation_add_relationship ::
  "StructuralVariation \<Rightarrow> Relationship \<Rightarrow> StructuralVariation" where
  "StructuralVariation_add_relationship v rel =
     (if rel \<notin> set (StructuralVariation.relationships v)
      then v\<lparr>StructuralVariation.relationships := StructuralVariation.relationships v @ [rel]\<rparr>
      else v)"

definition create_var :: "(json \<Rightarrow> string) \<Rightarrow> json \<Rightarrow> py_error + StructuralVariation option" where
  "create_var fresh node =
     (case node of
        JDict data \<Rightarrow>
          sum_bind (get_int data ''variation_id'' 0) (\<lambda>vid.
          sum_bind (get_int data ''count'' 0) (\<lambda>cnt.
          sum_bind (get_opt_str data ''first_timestamp'') (\<lambda>first.
          sum_bind (get_opt_str data ''last_timestamp'') (\<lambda>last.
          sum_bind (get_list data ''attributes'') (\<lambda>attr_nodes.
          sum_bind (for_each (\<lambda>a v. sum_bind (create_attr fresh a)
                       (\<lambda>attr. Inr (case attr of
                                      None \<Rightarrow> v
                                    | Some x \<Rightarrow> StructuralVariation_add_attribute v x)))
                     attr_nodes
                     \<lparr>variation_id = vid, attributes = [], relationships = [], count = cnt,
                      first_timestamp = first, last_timestamp = last\<rparr>) (\<lambda>v1.
          sum_bind (get_list data ''relationships'') (\<lambda>rel_nodes.
          sum_bind (for_each (\<lambda>r v. sum_bind (create_rel fresh r)
                       (\<lambda>rel. Inr (case rel of
                                     None \<Rightarrow> v
                                   | Some x \<Rightarrow> StructuralVariation_add_relationship v x)))
                     rel_nodes v1) (\<lambda>v2. Inr (Some v2)))))))))
      | _ \<Rightarrow> Inl IllTyped)"

text \<open>
  \<^verbatim>\<open>Database._create_rel_type\<close>, \<^verbatim>\<open>Database._create_entity\<close> and
  \<^verbatim>\<open>Database.from_dict\<close>. An unknown \<^verbatim>\<open>entity_kind\<close> falls back to \<^verbatim>\<open>TABLE\<close>
  (bare \<^verbatim>\<open>except\<close>); an unknown \<^verbatim>\<open>db_type\<close> raises \<^verbatim>\<open>ValueError\<close>.
\<close>

definition create_rel_type :: "(json \<Rightarrow> string) \<Rightarrow> json \<Rightarrow> py_error + RelationshipType option" where
  "create_rel_type fresh node =
     (case node of
        JDict data \<Rightarrow>
          sum_bind (get_str data ''rel_name'' []) (\<lambda>name.
          sum_bind (get_str data ''source_entity'' []) (\<lambda>source.
          sum_bind (get_str data ''target_entity'' []) (\<lambda>target.
          sum_bind (from_symbol (dict_get data ''cardinality'' (JStr ''*''))) (\<lambda>card.
          sum_bind (get_opt_str data ''description'') (\<lambda>descr.
          sum_bind (get_meta_id fresh data) (\<lambda>mid.
          sum_bind (sum_bind (get_list data ''attributes'') (create_attrs fresh)) (\<lambda>attrs.
            Inr (Some
              \<lparr>rel_name = name, source_entity = TargetName source,
               target_entity = TargetName target, attributes = attrs, cardinality = card,
               description = descr, meta_id = mid\<rparr>))))))))
      | _ \<Rightarrow> Inl IllTyped)"

definition create_entity :: "(json \<Rightarrow> string) \<Rightarrow> json \<Rightarrow> py_error + EntityType option" where
  "create_entity fresh node =
     (case node of
        JDict data \<Rightarrow>
          sum_bind (get_str data ''en_name'' []) (\<lambda>name.
          sum_bind (get_bool data ''is_root'' True) (\<lambda>root.
          sum_bind (get_opt_str data ''description'') (\<lambda>descr.
          sum_bind (get_meta_id fresh data) (\<lambda>mid.
          sum_bind (sum_bind (get_list data ''attributes'') (create_attrs fresh)) (\<lambda>attrs.
          sum_bind (get_list data ''keys'') (\<lambda>key_nodes.
          sum_bind (for_each (\<lambda>k e. sum_bind (create_key k e)
                       (\<lambda>(key, e'). Inr (case key of None \<Rightarrow> e' | Some x \<Rightarrow> add_key e' x)))
                     key_nodes
                     \<lparr>en_name = name,
                      entity_kind =
                        (case enum_of_value EntityKind_value all_EntityKind
                                (dict_get data ''entity_kind'' (JStr ''table'')) of
                           None \<Rightarrow> TABLE | Some kind \<Rightarrow> kind),
                      is_root = root, keys = [], attributes = attrs, relationships = [],
                      variations = [], description = descr, meta_id = mid\<rparr>) (\<lambda>e1.
          sum_bind (get_list data ''relationships'') (\<lambda>rel_nodes.
          sum_bind (for_each (\<lambda>r e. sum_bind (create_rel fresh r)
                       (\<lambda>rel. Inr (case rel of None \<Rightarrow> e | Some x \<Rightarrow> add_relationship e x)))
                     rel_nodes e1) (\<lambda>e2.
          sum_bind (get_list data ''variations'') (\<lambda>var_nodes.
          sum_bind (for_each (\<lambda>v e. sum_bind (create_var fresh v)
                       (\<lambda>var. Inr (case var of None \<Rightarrow> e | Some x \<Rightarrow> add_variation e x)))
                     var_nodes e2) (\<lambda>e3. Inr (Some e3))))))))))))
      | _ \<Rightarrow> Inl IllTyped)"

definition from_dict :: "(json \<Rightarrow> string) \<Rightarrow> json \<Rightarrow> py_error + Database" where
  "from_dict fresh node =
     (case node of
        JDict data \<Rightarrow>
          sum_bind (get_str data ''db_name'' ''unknown'') (\<lambda>name.
          sum_bind (case enum_of_value DatabaseType_value all_DatabaseType
                           (dict_get data ''db_type'' (JStr ''relational'')) of
                      None \<Rightarrow> Inl ValueError | Some t \<Rightarrow> Inr t) (\<lambda>dbt.
          sum_bind (get_int data ''version'' 1) (\<lambda>ver.
          sum_bind (get_opt_str data ''description'') (\<lambda>descr.
          sum_bind (get_meta_id fresh data) (\<lambda>mid.
          sum_bind (get_values data ''entity_types'') (\<lambda>e_nodes.
          sum_bind (for_each (\<lambda>e_data db. sum_bind (create_entity fresh e_data)
                       (\<lambda>e. Inr (case e of None \<Rightarrow> db | Some x \<Rightarrow> add_entity_type db x)))
                     e_nodes
                     \<lparr>db_name = name, db_type = dbt, entity_types = [],
                      relationship_types = [], version = ver, description = descr,
                      meta_id = mid\<rparr>) (\<lambda>db1.
          sum_bind (get_values data ''relationship_types'') (\<lambda>r_nodes.
            for_each (\<lambda>r_data db. sum_bind (create_rel_type fresh r_data)
                       (\<lambda>r. Inr (case r of
                                   None \<Rightarrow> db
                                 | Some x \<Rightarrow> add_relationship_type db x)))
                     r_nodes db1))))))))
      | _ \<Rightarrow> Inl IllTyped)"

text \<open>The cardinality of a relationship of either kind.\<close>

fun Relationship_cardinality :: "Relationship \<Rightarrow> Cardinality" where
  "Relationship_cardinality (IsReference r) = Reference.cardinality r"
| "Relationship_cardinality (IsAggregate a) = Aggregate.cardinality a"

subsection \<open>Vocabulary of the round-trip theorem\<close>

text \<open>
  What reloading makes of each object: a falsy optional value (\<^verbatim>\<open>0\<close>, the empty
  string) is not serialized and comes back as \<^verbatim>\<open>None\<close>, a target given as an entity
  object comes back as its name, and the members of a key come back as the entity's
  attributes of those names.
\<close>

definition norm_int :: "int option \<Rightarrow> int option" where
  "norm_int v = (if truthy_int v then v else None)"

definition norm_str :: "string option \<Rightarrow> string option" where
  "norm_str v = (if truthy_str v then v else None)"

fun norm_dtype :: "DataType \<Rightarrow> DataType" where
  "norm_dtype (PrimitiveDataType p ml pr sc) =
     PrimitiveDataType p (norm_int ml) (norm_int pr) (norm_int sc)"
| "norm_dtype (ListDataType t) = ListDataType (norm_dtype t)"
| "norm_dtype (SetDataType t) = SetDataType (norm_dtype t)"
| "norm_dtype (MapDataType k v) = MapDataType (norm_dtype k) (norm_dtype v)"

definition norm_attr :: "Attribute \<Rightarrow> Attribute" where
  "norm_attr a = a\<lparr>data_type := norm_dtype (data_type a),
                   Attribute.description := norm_str (Attribute.description a)\<rparr>"

definition norm_ref :: "Reference \<Rightarrow> Reference" where
  "norm_ref r = r\<lparr>Reference.description := norm_str (Reference.description r),
                  refs_to := TargetName (target_entity_name (refs_to r)),
                  edge_attributes := map norm_attr (edge_attributes r)\<rparr>"

definition norm_agg :: "Aggregate \<Rightarrow> Aggregate" where
  "norm_agg a = a\<lparr>Aggregate.description := norm_str (Aggregate.description a),
                  aggregates := TargetName (target_entity_name (aggregates a))\<rparr>"

fun norm_rel :: "Relationship \<Rightarrow> Relationship" where
  "norm_rel (IsReference r) = IsReference (norm_ref r)"
| "norm_rel (IsAggregate a) = IsAggregate (norm_agg a)"

definition norm_var :: "StructuralVariation \<Rightarrow> StructuralVariation" where
  "norm_var v = v\<lparr>StructuralVariation.attributes := map norm_attr (StructuralVariation.attributes v),
                  StructuralVariation.relationships :=
                    map norm_rel (StructuralVariation.relationships v),
                  first_timestamp := norm_str (first_timestamp v),
                  last_timestamp := norm_str (last_timestamp v)\<rparr>"

definition norm_key :: "Attribute list \<Rightarrow> Key \<Rightarrow> Key" where
  "norm_key attrs k =
     \<lparr>key_type = key_type k,
      key_attributes = map (\<lambda>n. the (find (\<lambda>a. attr_name a = n) attrs)) (get_attribute_names k),
      is_managed = is_managed k,
      referenced_entity = norm_str (referenced_entity k),
      referenced_attributes =
        (if truthy_str (referenced_entity k) then referenced_attributes k else [])\<rparr>"

definition norm_entity :: "EntityType \<Rightarrow> EntityType" where
  "norm_entity e =
     \<lparr>en_name = en_name e, entity_kind = entity_kind e, is_root = is_root e,
      keys = map (norm_key (map norm_attr (EntityType.attributes e))) (keys e),
      attributes = map norm_attr (EntityType.attributes e),
      relationships = map norm_rel (EntityType.relationships e),
      variations = map norm_var (variations e),
      description = norm_str (EntityType.description e),
      meta_id = EntityType.meta_id e\<rparr>"

definition norm_rel_type :: "RelationshipType \<Rightarrow> RelationshipType" where
  "norm_rel_type r =
     r\<lparr>source_entity := TargetName (target_entity_name (source_entity r)),
       target_entity := TargetName (target_entity_name (target_entity r)),
       RelationshipType.attributes := map norm_attr (RelationshipType.attributes r),
       RelationshipType.description := norm_str (RelationshipType.description r)\<rparr>"

definition norm_database :: "Database \<Rightarrow> Database" where
  "norm_database d =
     d\<lparr>entity_types := map (\<lambda>(n, e). (n, norm_entity e)) (entity_types d),
       relationship_types := map (\<lambda>(n, r). (n, norm_rel_type r)) (relationship_types d),
       Database.description := norm_str (Database.description d)\<rparr>"

text \<open>
  The conditions under which a database reloads to the same serialized form:
  \<^item> in a structural variation, no two attributes and no two relationships serialize to
    the same dictionary (reloading goes through the de-duplicating \<^verbatim>\<open>add_\<close> methods);
  \<^item> every key has at least one member, its members' names are pairwise different, and
    each names an attribute of the entity whose \<^verbatim>\<open>is_key\<close> flag is set;
  \<^item> both registries file every object under its own name.
\<close>

definition wf_var :: "StructuralVariation \<Rightarrow> bool" where
  "wf_var v \<longleftrightarrow>
     distinct (map Attribute_to_dict (StructuralVariation.attributes v)) \<and>
     distinct (map Relationship_to_dict (StructuralVariation.relationships v))"

definition wf_key :: "Attribute list \<Rightarrow> Key \<Rightarrow> bool" where
  "wf_key attrs k \<longleftrightarrow>
     key_attributes k \<noteq> [] \<and> distinct (get_attribute_names k) \<and>
     list_all (\<lambda>n. case find (\<lambda>a. attr_name a = n) attrs of
                      None \<Rightarrow> False | Some a \<Rightarrow> is_key a)
       (get_attribute_names k)"

definition wf_entity :: "EntityType \<Rightarrow> bool" where
  "wf_entity e \<longleftrightarrow>
     list_all (wf_key (EntityType.attributes e)) (keys e) \<and> list_all wf_var (variations e)"

definition relationship_names_unique :: "Database \<Rightarrow> bool" where
  "relationship_names_unique d \<longleftrightarrow>
     distinct (map fst (relationship_types d)) \<and>
     list_all (\<lambda>(n, r). n = rel_name r) (relationship_types d)"

definition wf_database :: "Database \<Rightarrow> bool" where
  "wf_database d \<longleftrightarrow>
     entity_names_unique d \<and> relationship_names_unique d \<and>
     list_all (\<lambda>(n, e). wf_entity e) (entity_types d)"

section \<open>Dependency ordering of entities (PostgreSQL adapter)\<close>

text \<open>
  \<^verbatim>\<open>PostgreSQLAdapter._sort_entities_by_dependency\<close> of
  \<^verbatim>\<open>Schema/adapters/postgresql_adapter.py\<close>.

  The dependency dictionary maps each entity name to a Python \<^verbatim>\<open>set\<close> of target
  names. The order in which Python iterates a set of strings is not fixed by the
  language; it is the parameter \<open>set_order\<close>, which turns the targets in the order
  they were added into the order in which the set yields them.
\<close>

fun is_reference :: "Relationship \<Rightarrow> bool" where
  "is_reference (IsReference r) = True"
| "is_reference (IsAggregate a) = False"

text \<open>
  The targets added to \<^verbatim>\<open>deps\<close> for one entity: the target name of every
  \<^verbatim>\<open>Reference\<close> among its relationships, unless it is the entity's own name.
\<close>

definition entity_deps :: "EntityType \<Rightarrow> string list" where
  "entity_deps entity =
     map get_target_entity_name
       (filter (\<lambda>rel. is_reference rel \<and> get_target_entity_name rel \<noteq> en_name entity)
          (EntityType.relationships entity))"

definition build_dependencies ::
  "(string list \<Rightarrow> string list) \<Rightarrow> EntityType list \<Rightarrow> (string \<times> string list) list" where
  "build_dependencies set_order entities =
     fold (\<lambda>entity dependencies.
             AList.update (en_name entity) (set_order (entity_deps entity)) dependencies)
          entities []"

text \<open>\<^verbatim>\<open>dependencies.get(name, [])\<close>.\<close>

definition dependencies_get :: "(string \<times> string list) list \<Rightarrow> string \<Rightarrow> string list" where
  "dependencies_get dependencies name =
     (case map_of dependencies name of None \<Rightarrow> [] | Some deps \<Rightarrow> deps)"

text \<open>
  The nested function \<^verbatim>\<open>visit\<close> with its two captured variables, \<^verbatim>\<open>visited\<close>
  and \<^verbatim>\<open>sorted_names\<close>, as explicit state. \<open>visit_deps\<close> is its inner
  \<^verbatim>\<open>for dep in ...\<close> loop. The first argument bounds the nesting depth of the calls
  of \<^verbatim>\<open>visit\<close>: with depth \<open>0\<close> nothing is returned. That a result is returned
  is therefore a theorem about the depth, proved below.
\<close>

fun visit ::
    "nat \<Rightarrow> (string \<times> string list) list \<Rightarrow> string \<Rightarrow> string set \<times> string list
       \<Rightarrow> (string set \<times> string list) option"
  and visit_deps ::
    "nat \<Rightarrow> (string \<times> string list) list \<Rightarrow> string list \<Rightarrow> string set \<times> string list
       \<Rightarrow> (string set \<times> string list) option"
where
  "visit 0 dependencies name st = None"
| "visit (Suc depth) dependencies name (visited, sorted_names) =
     (if name \<in> visited then Some (visited, sorted_names)
      else
        (case visit_deps depth dependencies (dependencies_get dependencies name)
                (insert name visited, sorted_names) of
           None \<Rightarrow> None
         | Some (visited', sorted_names') \<Rightarrow> Some (visited', sorted_names' @ [name])))"
| "visit_deps depth dependencies [] st = Some st"
| "visit_deps depth dependencies (dep # deps) st =
     (if dep \<in> fst ` set dependencies then
        (case visit depth dependencies dep st of
           None \<Rightarrow> None
         | Some st' \<Rightarrow> visit_deps depth dependencies deps st')
      else visit_deps depth dependencies deps st)"

text \<open>The loop \<^verbatim>\<open>for name in dependencies: visit(name)\<close>.\<close>

fun visit_each ::
    "nat \<Rightarrow> (string \<times> string list) list \<Rightarrow> string list \<Rightarrow> string set \<times> string list
       \<Rightarrow> (string set \<times> string list) option" where
  "visit_each depth dependencies [] st = Some st"
| "visit_each depth dependencies (name # names) st =
     (case visit depth dependencies name st of
        None \<Rightarrow> None
      | Some st' \<Rightarrow> visit_each depth dependencies names st')"

definition sort_entities_by_dependency ::
  "(string list \<Rightarrow> string list) \<Rightarrow> nat \<Rightarrow> Database \<Rightarrow> EntityType list option" where
  "sort_entities_by_dependency set_order depth database =
     (let entities = map snd (entity_types database);
          dependencies = build_dependencies set_order entities
      in case visit_each depth dependencies (map fst dependencies) ({}, []) of
           None \<Rightarrow> None
         | Some (visited, sorted_names) \<Rightarrow>
             Some (List.map_filter (get_entity_type database) sorted_names))"

subsection \<open>Vocabulary of the ordering theorems\<close>




definition extends ::
  "string set \<Rightarrow> string set \<times> string list \<Rightarrow> string set \<times> string list \<Rightarrow> bool" where
  "extends N st st' \<longleftrightarrow>
     (\<exists>T. snd st' = snd st @ T \<and> set T = fst st' - fst st \<and> distinct T) \<and>
     fst st \<subseteq> fst st' \<and> fst st' \<subseteq> fst st \<union> N"


section \<open>Reading DDL (PostgreSQL adapter)\<close>

text \<open>
  \<^verbatim>\<open>PostgreSQLAdapter.parse\<close> of \<^verbatim>\<open>Schema/adapters/postgresql_adapter.py\<close> and the
  methods it calls.

  A text is a list of characters. The character classes are those of ASCII, which is
  where Python's \<^verbatim>\<open>str\<close> methods and the \<^verbatim>\<open>re\<close> module agree with the definitions
  below: \<open>is_space\<close> is \<^verbatim>\<open>str.isspace\<close> and the class \<^verbatim>\<open>\s\<close>, \<open>is_word\<close> is the
  class \<^verbatim>\<open>\w\<close>, \<open>upper\<close> and \<open>lower\<close> are \<^verbatim>\<open>str.upper\<close> and \<^verbatim>\<open>str.lower\<close>.
\<close>

subsection \<open>Text\<close>

definition is_ascii :: "char \<Rightarrow> bool" where
  "is_ascii c \<longleftrightarrow> (of_char c :: nat) < 128"

definition is_space :: "char \<Rightarrow> bool" where
  "is_space c \<longleftrightarrow>
     (let n = (of_char c :: nat) in n = 32 \<or> (9 \<le> n \<and> n \<le> 13) \<or> (28 \<le> n \<and> n \<le> 31))"

definition is_digit :: "char \<Rightarrow> bool" where
  "is_digit c \<longleftrightarrow> (let n = (of_char c :: nat) in 48 \<le> n \<and> n \<le> 57)"

definition is_upper :: "char \<Rightarrow> bool" where
  "is_upper c \<longleftrightarrow> (let n = (of_char c :: nat) in 65 \<le> n \<and> n \<le> 90)"

definition is_lower :: "char \<Rightarrow> bool" where
  "is_lower c \<longleftrightarrow> (let n = (of_char c :: nat) in 97 \<le> n \<and> n \<le> 122)"

definition is_word :: "char \<Rightarrow> bool" where
  "is_word c \<longleftrightarrow> is_digit c \<or> is_upper c \<or> is_lower c \<or> c = CHR ''_''"

definition upper_char :: "char \<Rightarrow> char" where
  "upper_char c = (if is_lower c then char_of ((of_char c :: nat) - 32) else c)"

definition lower_char :: "char \<Rightarrow> char" where
  "lower_char c = (if is_upper c then char_of ((of_char c :: nat) + 32) else c)"

definition upper :: "string \<Rightarrow> string" where
  "upper s = map upper_char s"

definition lower :: "string \<Rightarrow> string" where
  "lower s = map lower_char s"

text \<open>\<^verbatim>\<open>s.strip()\<close>: white space is removed at both ends.\<close>

definition strip :: "string \<Rightarrow> string" where
  "strip s = rev (dropWhile is_space (rev (dropWhile is_space s)))"

text \<open>
  \<^verbatim>\<open>s.split()\<close> cuts at every run of white space and returns no empty piece;
  \<^verbatim>\<open>s.split(',')\<close> cuts at every comma and keeps empty pieces; \<^verbatim>\<open>sep.join(xs)\<close>.
\<close>

definition str_split :: "string \<Rightarrow> string list" where
  "str_split s =
     (let (result, current) =
        fold (\<lambda>c (result, current).
                if is_space c
                then (if current = [] then (result, []) else (result @ [current], []))
                else (result, current @ [c]))
          s ([], [])
      in if current = [] then result else result @ [current])"

definition split_on :: "char \<Rightarrow> string \<Rightarrow> string list" where
  "split_on sep s =
     (let (result, current) =
        fold (\<lambda>c (result, current).
                if c = sep then (result @ [current], []) else (result, current @ [c]))
          s ([], [])
      in result @ [current])"

fun join :: "string \<Rightarrow> string list \<Rightarrow> string" where
  "join sep [] = []"
| "join sep [x] = x"
| "join sep (x # y # ys) = x @ sep @ join sep (y # ys)"

text \<open>\<^verbatim>\<open>s.startswith(kw)\<close> and the substring test \<^verbatim>\<open>sub in s\<close>.\<close>

definition startswith :: "string \<Rightarrow> string \<Rightarrow> bool" where
  "startswith s kw \<longleftrightarrow> take (length kw) s = kw"

fun str_in :: "string \<Rightarrow> string \<Rightarrow> bool" where
  "str_in sub [] = (sub = [])"
| "str_in sub (c # cs) = (startswith (c # cs) sub \<or> str_in sub cs)"

text \<open>
  \<^verbatim>\<open>int(s)\<close> on a text: white space around the number is ignored, one sign may come
  first, and single underscores may stand between digits. Any other text raises
  \<^verbatim>\<open>ValueError\<close>.
\<close>

definition digit_value :: "char \<Rightarrow> int" where
  "digit_value c = int (of_char c) - 48"

definition py_int :: "string \<Rightarrow> py_error + int" where
  "py_int s =
     (let t = strip s;
          negative = startswith t ''-'';
          body = (if startswith t ''-'' \<or> startswith t ''+'' then drop 1 t else t)
      in if body \<noteq> [] \<and> list_all (\<lambda>c. is_digit c \<or> c = CHR ''_'') body \<and>
            is_digit (hd body) \<and> is_digit (last body) \<and> \<not> str_in ''__'' body
         then let n = fold (\<lambda>c n. 10 * n + digit_value c) (filter is_digit body) 0
              in Inr (if negative then - n else n)
         else Inl ValueError)"

subsection \<open>Pieces of the regular expressions\<close>

text \<open>
  The patterns of the adapter are sequences of literals, \<^verbatim>\<open>\s+\<close>, \<^verbatim>\<open>\s*\<close>, \<^verbatim>\<open>\w+\<close>
  and one lazy \<^verbatim>\<open>.*?\<close> before a literal. In each of them a greedy repetition is
  followed by something that cannot start with a character of the repeated class, so
  the longest run is the only one that can lead to a match, and a matcher that takes
  the longest run and never goes back finds exactly the matches of \<^verbatim>\<open>re\<close>. Each
  matcher returns the rest of the text behind what it has consumed.

  \<open>match_literal\<close> compares without regard to case (\<^verbatim>\<open>re.IGNORECASE\<close>);
  \<open>find_first sub s\<close> splits \<open>s\<close> around the first occurrence of \<open>sub\<close>, which is what
  \<^verbatim>\<open>.*?\<close> followed by the literal \<open>sub\<close> matches under \<^verbatim>\<open>re.DOTALL\<close>.
\<close>

definition match_literal :: "string \<Rightarrow> string \<Rightarrow> string option" where
  "match_literal lit s =
     (if upper (take (length lit) s) = upper lit then Some (drop (length lit) s) else None)"

definition match_spaces :: "string \<Rightarrow> string option" where
  "match_spaces s = (if takeWhile is_space s = [] then None else Some (dropWhile is_space s))"

definition match_word :: "string \<Rightarrow> (string \<times> string) option" where
  "match_word s =
     (if takeWhile is_word s = [] then None
      else Some (takeWhile is_word s, dropWhile is_word s))"

fun find_first :: "string \<Rightarrow> string \<Rightarrow> (string \<times> string) option" where
  "find_first sub [] = (if sub = [] then Some ([], []) else None)"
| "find_first sub (c # cs) =
     (if startswith (c # cs) sub then Some ([], drop (length sub) (c # cs))
      else map_option (\<lambda>(before, after). (c # before, after)) (find_first sub cs))"

subsection \<open>Comments and statements\<close>

text \<open>
  \<^verbatim>\<open>_remove_comments\<close>. The first substitution, \<^verbatim>\<open>re.sub(r'--.*$', '', ddl,
  flags=re.MULTILINE)\<close>, deletes from two hyphens to the end of the line, the line
  feed excluded. The second, \<^verbatim>\<open>re.sub(r'/\*.*?\*/', '', ddl, flags=re.DOTALL)\<close>,
  deletes from an opening mark to the first closing mark behind it; an opening mark
  that is never closed stays.
\<close>

function remove_line_comments :: "string \<Rightarrow> string" where
  "remove_line_comments [] = []"
| "remove_line_comments (c # cs) =
     (if startswith (c # cs) ''--''
      then remove_line_comments (dropWhile (\<lambda>x. x \<noteq> CHR 0x0A) cs)
      else c # remove_line_comments cs)"
  by pat_completeness auto
termination
  by (relation "measure length") (auto simp: less_Suc_eq_le length_dropWhile_le)

function remove_block_comments :: "string \<Rightarrow> string" where
  "remove_block_comments [] = []"
| "remove_block_comments (c # cs) =
     (case (if startswith (c # cs) ''/*'' then find_first ''*/'' (drop 1 cs) else None) of
        Some (inside, rest) \<Rightarrow> remove_block_comments rest
      | None \<Rightarrow> c # remove_block_comments cs)"
  by pat_completeness auto
termination
proof (relation "measure length")
  have shorter: "length after \<le> length s"
    if "find_first sub s = Some (before, after)" for sub s before after
    using that by (induction s arbitrary: before) (auto split: if_splits)
  fix c cs x2 inside rest
  assume "(if startswith (c # cs) ''/*'' then find_first ''*/'' (drop 1 cs) else None) = Some x2"
    and "(inside, rest) = x2"
  then have "find_first ''*/'' (drop 1 cs) = Some (inside, rest)"
    by (simp split: if_splits)
  from shorter [OF this] show "(rest, c # cs) \<in> measure length" by simp
qed simp_all

definition remove_comments :: "string \<Rightarrow> string" where
  "remove_comments ddl = remove_block_comments (remove_line_comments ddl)"

text \<open>
  \<^verbatim>\<open>_extract_create_tables\<close>: \<^verbatim>\<open>re.findall\<close> with the pattern
  \<^verbatim>\<open>CREATE\s+TABLE\s+(\w+)\s*\((.*?)\);\<close>, without regard to case. The text is
  scanned from the left; where the pattern matches, the pair of table name and table
  body is returned and the scan goes on behind the match, elsewhere it moves on by
  one character.
\<close>

definition match_create_table :: "string \<Rightarrow> ((string \<times> string) \<times> string) option" where
  "match_create_table s =
     Option.bind (match_literal ''CREATE'' s) (\<lambda>s1.
     Option.bind (match_spaces s1) (\<lambda>s2.
     Option.bind (match_literal ''TABLE'' s2) (\<lambda>s3.
     Option.bind (match_spaces s3) (\<lambda>s4.
     Option.bind (match_word s4) (\<lambda>(table_name, s5).
     Option.bind (match_literal ''('' (dropWhile is_space s5)) (\<lambda>s6.
     Option.bind (find_first '');'' s6) (\<lambda>(table_body, rest).
     Some ((table_name, table_body), rest))))))))"

function extract_create_tables :: "string \<Rightarrow> (string \<times> string) list" where
  "extract_create_tables s =
     (case match_create_table s of
        Some (m, rest) \<Rightarrow> m # extract_create_tables rest
      | None \<Rightarrow> (case s of [] \<Rightarrow> [] | c # cs \<Rightarrow> extract_create_tables cs))"
  by pat_completeness auto
termination
proof (relation "measure length")
  have shorter: "length after \<le> length s"
    if "find_first sub s = Some (before, after)" for sub s before after
    using that by (induction s arbitrary: before) (auto split: if_splits)
  fix s x2 m rest
  assume m: "match_create_table s = Some x2" and x: "(m, rest) = x2"
  from m x obtain s1 s2 s3 s4 table_name s5 s6 table_body where
    1: "match_literal ''CREATE'' s = Some s1" and 2: "match_spaces s1 = Some s2" and
    3: "match_literal ''TABLE'' s2 = Some s3" and 4: "match_spaces s3 = Some s4" and
    5: "match_word s4 = Some (table_name, s5)" and
    6: "match_literal ''('' (dropWhile is_space s5) = Some s6" and
    7: "find_first '');'' s6 = Some (table_body, rest)"
    unfolding match_create_table_def
    by (auto simp: bind_eq_Some_conv)
  have lit: "length b < length a" if "match_literal (x # xs) a = Some b" for x xs a b
  proof -
    from that have b: "b = drop (length (x # xs)) a"
      and u: "upper (take (length (x # xs)) a) = upper (x # xs)"
      by (auto simp: match_literal_def split: if_splits)
    from u have "length (upper (take (length (x # xs)) a)) = length (upper (x # xs))" by simp
    then have "min (length a) (Suc (length xs)) = Suc (length xs)" by (simp add: upper_def)
    with b show ?thesis by simp
  qed
  have sp: "length b \<le> length a" if "match_spaces a = Some b" for a b
    using that by (auto simp: match_spaces_def length_dropWhile_le split: if_splits)
  have wd: "length b \<le> length a" if "match_word a = Some (w, b)" for a w b
    using that by (auto simp: match_word_def length_dropWhile_le split: if_splits)
  have dw: "length (dropWhile is_space s5) \<le> length s5" by (rule length_dropWhile_le)
  from lit [OF 1] sp [OF 2] lit [OF 3] sp [OF 4] wd [OF 5] dw lit [OF 6] shorter [OF 7]
  show "(rest, s) \<in> measure length" by simp
qed simp_all

subsection \<open>Columns\<close>

text \<open>
  \<^verbatim>\<open>_split_columns\<close>: the body of a table is cut at the commas outside parentheses.
  \<open>split_step\<close> is the body of the loop over the characters, on the variables
  \<^verbatim>\<open>result\<close>, \<^verbatim>\<open>current\<close> and \<^verbatim>\<open>depth\<close>.
\<close>

definition split_step :: "char \<Rightarrow> string list \<times> string \<times> int \<Rightarrow> string list \<times> string \<times> int"
  where
  "split_step c = (\<lambda>(result, current, depth).
     if c = CHR ''('' then (result, current @ [c], depth + 1)
     else if c = CHR '')'' then (result, current @ [c], depth - 1)
     else if c = CHR '','' \<and> depth = 0 then (result @ [strip current], [], depth)
     else (result, current @ [c], depth))"

definition split_columns :: "string \<Rightarrow> string list" where
  "split_columns body =
     (let (result, current, depth) = fold split_step body ([], [], 0)
      in if strip current \<noteq> [] then result @ [strip current] else result)"

text \<open>
  The pattern of a column definition,
  \<^verbatim>\<open>^(\w+)\s+(\w+(?:\s+PRECISION)?)\s*(?:\(([^)]+)\))?\s*(.*)?$\<close>, is matched against a
  text in which every run of white space has become one blank, so it holds no line
  feed and \<^verbatim>\<open>.*\<close> takes all that is left. The result is the four groups: column
  name, type name, the parameters of the type when there are any, and the rest.
\<close>

definition match_column :: "string \<Rightarrow> (string \<times> string \<times> string option \<times> string) option"
  where
  "match_column s =
     Option.bind (match_word s) (\<lambda>(g1, s1).
     Option.bind (match_spaces s1) (\<lambda>s2.
     Option.bind (match_word s2) (\<lambda>(w, s3).
       let (g2, s4) =
             (case Option.bind (match_spaces s3) (match_literal ''PRECISION'') of
                Some r \<Rightarrow> (take (length s2 - length r) s2, r)
              | None \<Rightarrow> (w, s3));
           s5 = dropWhile is_space s4;
           inner = takeWhile (\<lambda>c. c \<noteq> CHR '')'') (drop 1 s5);
           (g3, s6) =
             (if startswith s5 ''('' \<and> inner \<noteq> [] \<and>
                 startswith (drop (1 + length inner) s5) '')''
              then (Some inner, drop (2 + length inner) s5)
              else (None, s5))
       in Some (g1, g2, g3, dropWhile is_space s6))))"

text \<open>
  \<^verbatim>\<open>re.search(r'REFERENCES\s+(\w+)\s*\((\w+)\)', constraints, re.IGNORECASE)\<close>:
  the first place of the text where the pattern matches gives the two groups, the
  table and the column referred to.
\<close>

definition match_references :: "string \<Rightarrow> (string \<times> string) option" where
  "match_references s =
     Option.bind (match_literal ''REFERENCES'' s) (\<lambda>s1.
     Option.bind (match_spaces s1) (\<lambda>s2.
     Option.bind (match_word s2) (\<lambda>(g1, s3).
     Option.bind (match_literal ''('' (dropWhile is_space s3)) (\<lambda>s4.
     Option.bind (match_word s4) (\<lambda>(g2, s5).
     Option.bind (match_literal '')'' s5) (\<lambda>s6.
     Some (g1, g2)))))))"

fun search_references :: "string \<Rightarrow> (string \<times> string) option" where
  "search_references [] = match_references []"
| "search_references (c # cs) =
     (case match_references (c # cs) of
        Some m \<Rightarrow> Some m
      | None \<Rightarrow> search_references cs)"

text \<open>
  \<^verbatim>\<open>_parse_data_type\<close>. The table \<^verbatim>\<open>TypeMappings.POSTGRESQL_TO_PRIMITIVE\<close> that the
  adapter reads as \<^verbatim>\<open>TYPE_MAP\<close> is not among the sources: it is the parameter
  \<open>TYPE_MAP\<close>. A parameter text that is no integer makes \<^verbatim>\<open>int\<close> raise.
\<close>

definition parse_data_type ::
  "(string \<Rightarrow> PrimitiveType option) \<Rightarrow> string \<Rightarrow> string option \<Rightarrow> py_error + DataType" where
  "parse_data_type TYPE_MAP type_name params =
     (let primitive = (case TYPE_MAP type_name of Some p \<Rightarrow> p | None \<Rightarrow> STRING)
      in if truthy_str params
         then let parts = map strip (split_on CHR '','' (the params))
              in if primitive = STRING \<or> primitive = TEXT
                 then sum_bind (py_int (hd parts)) (\<lambda>max_length.
                      Inr (PrimitiveDataType primitive (Some max_length) None None))
                 else if primitive = DECIMAL
                 then sum_bind (py_int (hd parts)) (\<lambda>precision.
                      sum_bind (if 1 < length parts then py_int (parts ! 1) else Inr 0) (\<lambda>scale.
                      Inr (PrimitiveDataType primitive None (Some precision) (Some scale))))
                 else Inr (PrimitiveDataType primitive None None None)
         else Inr (PrimitiveDataType primitive None None None))"

text \<open>
  \<^verbatim>\<open>_parse_column\<close> returns the attribute and, when the rest of the definition holds a
  clause \<^verbatim>\<open>REFERENCES table(column)\<close>, the pair of the column name and the lower-cased
  name of that table; both are \<^verbatim>\<open>None\<close> when the pattern does not match. The
  \<^verbatim>\<open>meta_id\<close> that the constructor of the attribute draws is the argument \<open>uid\<close>.
\<close>

definition parse_column ::
  "(string \<Rightarrow> PrimitiveType option) \<Rightarrow> string \<Rightarrow> string \<Rightarrow>
   py_error + (Attribute option \<times> (string \<times> string) option)" where
  "parse_column TYPE_MAP uid col_def =
     (case match_column (strip (join '' '' (str_split col_def))) of
        None \<Rightarrow> Inr (None, None)
      | Some (g1, g2, g3, g4) \<Rightarrow>
          let col_name = lower g1; col_type = upper g2; type_params = g3; constraints = g4
          in sum_bind (parse_data_type TYPE_MAP col_type type_params) (\<lambda>data_type.
             let is_key = (str_in ''PRIMARY KEY'' (upper constraints) \<or>
                           col_type = ''SERIAL'' \<or> col_type = ''BIGSERIAL'');
                 is_optional = (\<not> str_in ''NOT NULL'' (upper constraints) \<and> \<not> is_key);
                 attr = \<lparr>attr_name = col_name, data_type = data_type, is_key = is_key,
                         is_optional = is_optional, description = None, meta_id = uid\<rparr>;
                 ref_info = (case search_references constraints of
                               Some (g1, g2) \<Rightarrow> Some (col_name, lower g1)
                             | None \<Rightarrow> None)
             in Inr (Some attr, ref_info)))"

subsection \<open>Tables and the two passes\<close>

text \<open>
  The state of the adapter: the database under construction, the references recorded
  for the second pass as triples of source entity, column and target entity, and the
  number of identifiers drawn so far. \<^verbatim>\<open>uuid.uuid4\<close> is the parameter \<open>uuid4\<close>, a
  sequence of identifiers; each object built takes the next one.
\<close>

record Adapter =
  database :: Database
  pending_references :: "(string \<times> string \<times> string) list"
  uuid_calls :: nat

text \<open>
  Modelled from the spec: the adapter builds the primary key of a table as a
  \<^verbatim>\<open>UniqueConstraint\<close> with one \<^verbatim>\<open>UniqueProperty\<close> and adds it with
  \<^verbatim>\<open>add_constraint\<close>, classes and a method of a revision of the schema module that is
  not among the sources. In the data model of the spec and of the schema module at
  hand, this is a \<^verbatim>\<open>Key\<close> of type PRIMARY, managed by the database, with the
  attribute as its member, added with \<^verbatim>\<open>add_key\<close>. In the same way the name that the
  adapter gives the entity as \<^verbatim>\<open>object_name=[table_name.lower()]\<close>, and reads back as
  \<^verbatim>\<open>entity.name\<close>, is the field \<^verbatim>\<open>en_name\<close>.
\<close>

definition primary_key_constraint :: "Attribute \<Rightarrow> Key" where
  "primary_key_constraint attr =
     \<lparr>key_type = PRIMARY, key_attributes = [attr], is_managed = True,
      referenced_entity = None, referenced_attributes = []\<rparr>"

text \<open>
  The test by which \<^verbatim>\<open>_parse_table\<close> passes over a piece of the table body: its
  upper-cased text starts with one of five keywords.
\<close>

definition is_table_constraint :: "string \<Rightarrow> bool" where
  "is_table_constraint col_def \<longleftrightarrow>
     list_ex (startswith (upper col_def))
       [''PRIMARY KEY'', ''FOREIGN KEY'', ''UNIQUE'', ''CHECK'', ''CONSTRAINT'']"

text \<open>
  The body of the loop of \<^verbatim>\<open>_parse_table\<close> over the pieces of the table body, on the
  entity under construction and the adapter.
\<close>

definition column_step ::
  "(string \<Rightarrow> PrimitiveType option) \<Rightarrow> (nat \<Rightarrow> string) \<Rightarrow> string \<Rightarrow>
   EntityType \<times> Adapter \<Rightarrow> py_error + EntityType \<times> Adapter" where
  "column_step TYPE_MAP uuid4 raw = (\<lambda>(entity, self).
     let col_def = strip raw
     in if col_def = [] then Inr (entity, self)
        else if is_table_constraint col_def then Inr (entity, self)
        else sum_bind (parse_column TYPE_MAP (uuid4 (uuid_calls self)) col_def)
          (\<lambda>(attr_opt, ref_info).
             case attr_opt of
               None \<Rightarrow> Inr (entity, self)
             | Some attr \<Rightarrow>
                 let entity1 = add_attribute entity attr;
                     entity2 = (if str_in ''PRIMARY KEY'' (upper col_def)
                                then add_key entity1 (primary_key_constraint attr)
                                else entity1);
                     pending = (case ref_info of
                                  None \<Rightarrow> pending_references self
                                | Some (fk_column, target) \<Rightarrow>
                                    pending_references self @
                                      [(en_name entity, fk_column, target)])
                 in Inr (entity2, self\<lparr>pending_references := pending,
                                         uuid_calls := uuid_calls self + 1\<rparr>)))"

text \<open>
  \<^verbatim>\<open>_parse_table\<close>: a new entity named by the lower-cased table name, the loop over
  the pieces, and a primary key on the first key attribute when the loop has added
  none.
\<close>

definition parse_table ::
  "(string \<Rightarrow> PrimitiveType option) \<Rightarrow> (nat \<Rightarrow> string) \<Rightarrow> string \<Rightarrow> string \<Rightarrow>
   Adapter \<Rightarrow> py_error + EntityType \<times> Adapter" where
  "parse_table TYPE_MAP uuid4 table_name table_body self =
     (let entity = \<lparr>en_name = lower table_name, entity_kind = TABLE, is_root = True,
                    keys = [], attributes = [], relationships = [], variations = [],
                    description = None, meta_id = uuid4 (uuid_calls self)\<rparr>;
          columns = split_columns table_body
      in sum_bind (for_each (column_step TYPE_MAP uuid4) columns
                     (entity, self\<lparr>uuid_calls := uuid_calls self + 1\<rparr>))
           (\<lambda>(entity, self).
              Inr (case get_primary_key entity of
                     Some k \<Rightarrow> entity
                   | None \<Rightarrow>
                       (case find is_key (EntityType.attributes entity) of
                          Some attr \<Rightarrow> add_key entity (primary_key_constraint attr)
                        | None \<Rightarrow> entity),
                   self)))"

text \<open>
  The body of the loop of \<^verbatim>\<open>_resolve_references\<close>. The entity found under
  \<^verbatim>\<open>entity_name\<close> is changed in place: the registry holds the entity with the new
  relationship under the same name, at the same position.
\<close>

definition resolve_reference ::
  "(nat \<Rightarrow> string) \<Rightarrow> string \<times> string \<times> string \<Rightarrow> Adapter \<Rightarrow> Adapter" where
  "resolve_reference uuid4 = (\<lambda>(entity_name, ref_name, target_name) self.
     case (get_entity_type (database self) entity_name,
           get_entity_type (database self) target_name) of
       (Some entity, Some target) \<Rightarrow>
         let is_optional = (case get_attribute entity ref_name of
                              Some attr \<Rightarrow> Attribute.is_optional attr
                            | None \<Rightarrow> True);
             reference = \<lparr>Reference.cardinality = ONE_TO_ONE, is_optional = is_optional,
                          description = None, meta_id = uuid4 (uuid_calls self),
                          ref_name = ref_name, refs_to = TargetName target_name,
                          edge_attributes = []\<rparr>
         in self\<lparr>database := (database self)
                    \<lparr>entity_types :=
                       AList.update entity_name (add_relationship entity (IsReference reference))
                         (entity_types (database self))\<rparr>,
                  uuid_calls := uuid_calls self + 1\<rparr>
     | _ \<Rightarrow> self)"

definition resolve_references :: "(nat \<Rightarrow> string) \<Rightarrow> Adapter \<Rightarrow> Adapter" where
  "resolve_references uuid4 self = fold (resolve_reference uuid4) (pending_references self) self"

text \<open>
  \<^verbatim>\<open>parse\<close>. \<open>table_step\<close> is the body of its loop over the tables, \<open>parse_tables\<close>
  is the method up to the end of that loop (the first pass), and \<open>parse\<close> resolves the
  recorded references and returns the database.
\<close>

definition table_step ::
  "(string \<Rightarrow> PrimitiveType option) \<Rightarrow> (nat \<Rightarrow> string) \<Rightarrow> string \<times> string \<Rightarrow>
   Adapter \<Rightarrow> py_error + Adapter" where
  "table_step TYPE_MAP uuid4 = (\<lambda>(table_name, table_body) self.
     sum_bind (parse_table TYPE_MAP uuid4 table_name table_body self) (\<lambda>(entity, self).
     Inr (self\<lparr>database := add_entity_type (database self) entity\<rparr>)))"

definition parse_tables ::
  "(string \<Rightarrow> PrimitiveType option) \<Rightarrow> (nat \<Rightarrow> string) \<Rightarrow> string \<Rightarrow> string \<Rightarrow>
   py_error + Adapter" where
  "parse_tables TYPE_MAP uuid4 ddl_content name =
     (let self = \<lparr>database = \<lparr>db_name = name, db_type = RELATIONAL, entity_types = [],
                               relationship_types = [], version = 1, description = None,
                               meta_id = uuid4 0\<rparr>,
                  pending_references = [], uuid_calls = 1\<rparr>;
          ddl = remove_comments ddl_content;
          tables = extract_create_tables ddl
      in for_each (table_step TYPE_MAP uuid4) tables self)"

definition parse ::
  "(string \<Rightarrow> PrimitiveType option) \<Rightarrow> (nat \<Rightarrow> string) \<Rightarrow> string \<Rightarrow> string \<Rightarrow>
   py_error + Database" where
  "parse TYPE_MAP uuid4 ddl_content name =
     sum_bind (parse_tables TYPE_MAP uuid4 ddl_content name) (\<lambda>self.
     Inr (database (resolve_references uuid4 self)))"

section \<open>Sample objects\<close>

definition sample_attr :: "string \<Rightarrow> bool \<Rightarrow> bool \<Rightarrow> Attribute" where
  "sample_attr name key opt =
     \<lparr>attr_name = name, data_type = PrimitiveDataType INTEGER None None None,
      is_key = key, is_optional = opt, description = None, meta_id = ''a-'' @ name\<rparr>"

definition sample_key :: "KeyType \<Rightarrow> Attribute list \<Rightarrow> Key" where
  "sample_key kt attrs =
     \<lparr>key_type = kt, key_attributes = attrs, is_managed = True,
      referenced_entity = None, referenced_attributes = []\<rparr>"

definition sample_entity :: "string \<Rightarrow> Attribute list \<Rightarrow> Relationship list \<Rightarrow> EntityType" where
  "sample_entity name attrs rels =
     \<lparr>en_name = name, entity_kind = TABLE, is_root = True, keys = [],
      EntityType.attributes = attrs, EntityType.relationships = rels, variations = [],
      description = None, meta_id = ''e-'' @ name\<rparr>"

definition sample_db :: "(string \<times> EntityType) list \<Rightarrow> Database" where
  "sample_db ets =
     \<lparr>db_name = ''sample'', db_type = RELATIONAL, entity_types = ets,
      relationship_types = [], version = 1, description = None, meta_id = ''d-1''\<rparr>"

definition sample_person :: EntityType where
  "sample_person =
     sample_entity ''person'' [sample_attr ''id'' True False, sample_attr ''email'' False True] []"

definition pk_id :: Key where
  "pk_id = sample_key PRIMARY [sample_attr ''id'' True False]"



definition mkref :: "string \<Rightarrow> string \<Rightarrow> Relationship" where
  "mkref n t = IsReference \<lparr>Reference.cardinality = ONE_TO_ONE, is_optional = True,
     description = None, meta_id = ''r-'' @ n, ref_name = n, refs_to = TargetName t,
     edge_attributes = []\<rparr>"


definition db_mutual :: Database where
  "db_mutual =
     sample_db
       [(''a'', sample_entity ''a'' [] [mkref ''b_id'' ''b'']),
        (''b'', sample_entity ''b'' [] [mkref ''a_id'' ''a''])]"

definition no_uuid :: "json \<Rightarrow> string" where
  "no_uuid node = ''00000000-0000-4000-8000-000000000000''"

definition pk_empty :: Key where
  "pk_empty = sample_key PRIMARY []"

definition db_empty_key :: Database where
  "db_empty_key = sample_db [(''person'', add_key sample_person pk_empty)]"

definition db_keyed :: Database where
  "db_keyed =
     sample_db
       [(''person'', add_key sample_person pk_id),
        (''address'', sample_entity ''address'' [sample_attr ''person_id'' False False]
                        [mkref ''person_id'' ''person''])]"

definition sample_type_map :: "string \<Rightarrow> PrimitiveType option" where
  "sample_type_map =
     map_of [(''INTEGER'', INTEGER), (''SERIAL'', INTEGER), (''VARCHAR'', STRING)]"

definition sample_uuid4 :: "nat \<Rightarrow> string" where
  "sample_uuid4 n = ''uuid-'' @ str_of_nat n"

definition ddl_forward :: string where
  "ddl_forward =
     ''CREATE TABLE address (id SERIAL PRIMARY KEY, '' @
     ''person_id INTEGER NOT NULL REFERENCES person(id)); '' @
     ''CREATE TABLE person (id SERIAL PRIMARY KEY, name VARCHAR(100));''"

definition ddl_no_column_list :: string where
  "ddl_no_column_list =
     ''CREATE TABLE address (person_id INTEGER REFERENCES person); '' @
     ''CREATE TABLE person (id SERIAL PRIMARY KEY);''"

section \<open>Theorems\<close>

subsection \<open>Type system\<close>

lemma subscript_row_total:
  "\<exists>row. subscript TYPE_MAPS db = Inr row \<and> (\<forall>p. \<exists>s. subscript row p = Inr s)"
proof (cases db)
  case RELATIONAL
  have "\<exists>s. subscript (the (map_of TYPE_MAPS RELATIONAL)) p = Inr s" for p
    by (cases p) (simp_all add: subscript_def TYPE_MAPS_def)
  then show ?thesis using RELATIONAL by (simp add: subscript_def TYPE_MAPS_def)
next
  case DOCUMENT
  have "\<exists>s. subscript (the (map_of TYPE_MAPS DOCUMENT)) p = Inr s" for p
    by (cases p) (simp_all add: subscript_def TYPE_MAPS_def)
  then show ?thesis using DOCUMENT by (simp add: subscript_def TYPE_MAPS_def)
next
  case GRAPH
  have "\<exists>s. subscript (the (map_of TYPE_MAPS GRAPH)) p = Inr s" for p
    by (cases p) (simp_all add: subscript_def TYPE_MAPS_def)
  then show ?thesis using GRAPH by (simp add: subscript_def TYPE_MAPS_def)
next
  case COLUMNAR
  have "\<exists>s. subscript (the (map_of TYPE_MAPS COLUMNAR)) p = Inr s" for p
    by (cases p) (simp_all add: subscript_def TYPE_MAPS_def)
  then show ?thesis using COLUMNAR by (simp add: subscript_def TYPE_MAPS_def)
qed

lemma get_native_type_total: "\<exists>s. get_native_type p db = Inr s"
proof -
  obtain row where r: "subscript TYPE_MAPS db = Inr row" "\<And>q. \<exists>s. subscript row q = Inr s"
    using subscript_row_total [of db] by blast
  from r(2) [of p] obtain s where "subscript row p = Inr s" ..
  with r(1) show ?thesis by (simp add: get_native_type_def)
qed

lemma to_native_total: "\<exists>s. to_native t db = Inr s"
proof (induction t)
  case (PrimitiveDataType p ml pr sc)
  obtain s where "get_native_type p db = Inr s" using get_native_type_total by blast
  then show ?case by simp
next
  case (ListDataType t)
  then obtain s where "to_native t db = Inr s" by blast
  then show ?case by simp
next
  case (SetDataType t)
  then obtain s where "to_native t db = Inr s" by blast
  then show ?case by auto
next
  case (MapDataType t1 t2)
  then obtain s1 s2 where "to_native t1 db = Inr s1" "to_native t2 db = Inr s2" by blast
  then show ?case by auto
qed

text \<open>
  C7. The primitive-to-native mapping never fails: the table has an entry for each of
  the 18 primitive kinds under each of the 4 paradigms, so both subscripts of
  \<^verbatim>\<open>_TYPE_MAPS[db][ptype]\<close> succeed and \<^verbatim>\<open>_get_native_type\<close> returns a string; so
  does \<^verbatim>\<open>PrimitiveDataType.to_native\<close>, whatever the length, precision and scale.
  No combination is unmapped, so no default is ever needed.
\<close>

theorem native_type_mapping_total:
  "length all_PrimitiveType = 18 \<and> length all_DatabaseType = 4 \<and>
   (\<exists>s. get_native_type p db = Inr s) \<and>
   (\<exists>s. to_native (PrimitiveDataType p max_length precision scale) db = Inr s)"
  using get_native_type_total [of p db]
    to_native_total [of "PrimitiveDataType p max_length precision scale" db]
  by (simp add: all_PrimitiveType_def all_DatabaseType_def)

subsection \<open>Keys of an entity\<close>


lemma find_append_hit: "\<exists>x\<in>set xs. P x \<Longrightarrow> find P (xs @ ys) = find P xs"
  by (induction xs) auto




subsection \<open>Attributes of an entity\<close>

text \<open>
  C2 (as stated, refuted). \<^verbatim>\<open>EntityType.add_attribute\<close> raises nothing: adding an
  attribute named \<^verbatim>\<open>id\<close> to an entity that has one completes, and the name is then
  held twice.
\<close>

theorem add_attribute_duplicate_counterexample:
  "\<not> distinct (attribute_names (add_attribute sample_person (sample_attr ''id'' False True)))"
  by (simp add: attribute_names_def add_attribute_def sample_person_def sample_entity_def
      sample_attr_def)

text \<open>
  C2 (amended). \<^verbatim>\<open>add_attribute\<close> always completes and appends the attribute, whatever
  its name. The attribute names of the entity stay pairwise different exactly when they
  were so before and the new name was not among them; when the name was already there,
  the duplicate persists and \<^verbatim>\<open>get_attribute\<close> goes on returning the older attribute.
\<close>

theorem add_attribute_appends:
  "EntityType.attributes (add_attribute e a) = EntityType.attributes e @ [a]
   \<and> (distinct (attribute_names (add_attribute e a)) \<longleftrightarrow>
        distinct (attribute_names e) \<and> attr_name a \<notin> set (attribute_names e))
   \<and> (attr_name a \<in> set (attribute_names e) \<longrightarrow>
        get_attribute (add_attribute e a) (attr_name a) = get_attribute e (attr_name a))"
proof -
  have "get_attribute (add_attribute e a) (attr_name a) = get_attribute e (attr_name a)"
    if "attr_name a \<in> set (attribute_names e)"
  proof -
    from that obtain x where "x \<in> set (EntityType.attributes e)" "attr_name x = attr_name a"
      by (auto simp: attribute_names_def)
    then have "find (\<lambda>b. attr_name b = attr_name a) (EntityType.attributes e @ [a]) =
               find (\<lambda>b. attr_name b = attr_name a) (EntityType.attributes e)"
      by (intro find_append_hit) blast
    then show ?thesis by (simp add: get_attribute_def add_attribute_def)
  qed
  then show ?thesis
    by (auto simp: add_attribute_def attribute_names_def)
qed

theorem add_attribute_appends_witness:
  "get_attribute (add_attribute sample_person (sample_attr ''id'' False True)) ''id''
     = Some (sample_attr ''id'' True False)
   \<and> distinct (attribute_names (add_attribute sample_person (sample_attr ''age'' False True)))"
proof -
  have n: "attribute_names sample_person = [''id'', ''email'']"
    by (simp add: attribute_names_def sample_person_def sample_entity_def sample_attr_def)
  have g: "get_attribute sample_person ''id'' = Some (sample_attr ''id'' True False)"
    by (simp add: get_attribute_def sample_person_def sample_entity_def sample_attr_def)
  have nm: "attr_name (sample_attr x k o') = x" for x k o'
    by (simp add: sample_attr_def)
  show ?thesis
    using add_attribute_appends [of sample_person "sample_attr ''id'' False True"]
      add_attribute_appends [of sample_person "sample_attr ''age'' False True"] n g nm
    by simp
qed

text \<open>
  C8 (as stated, refuted). \<^verbatim>\<open>Key.add_attribute\<close> sets \<^verbatim>\<open>is_key\<close> and does not touch
  \<^verbatim>\<open>is_optional\<close>: an optional attribute made a key member is a key attribute that is
  optional.
\<close>

theorem key_add_attribute_optional_counterexample:
  "is_key (snd (Key_add_attribute (sample_key PRIMARY []) (sample_attr ''email'' False True)))
   \<and> Attribute.is_optional
       (snd (Key_add_attribute (sample_key PRIMARY []) (sample_attr ''email'' False True)))"
  by (simp add: Key_add_attribute_def sample_attr_def sample_key_def Let_def)

text \<open>
  C8 (amended). \<^verbatim>\<open>Key.add_attribute\<close> sets \<^verbatim>\<open>is_key\<close> to true, leaves every other
  field of the attribute (\<^verbatim>\<open>is_optional\<close> among them) as it was, and makes the
  attribute a member of the key. So after it the attribute satisfies "a key attribute is
  not optional" exactly when it was not optional before.
\<close>

theorem key_add_attribute_sets_is_key:
  "snd (Key_add_attribute k a) = a\<lparr>is_key := True\<rparr>
   \<and> is_key (snd (Key_add_attribute k a))
   \<and> Attribute.is_optional (snd (Key_add_attribute k a)) = Attribute.is_optional a
   \<and> snd (Key_add_attribute k a) \<in> set (key_attributes (fst (Key_add_attribute k a)))
   \<and> ((is_key (snd (Key_add_attribute k a))
         \<longrightarrow> \<not> Attribute.is_optional (snd (Key_add_attribute k a)))
        \<longleftrightarrow> \<not> Attribute.is_optional a)"
  by (simp add: Key_add_attribute_def Let_def)

theorem key_add_attribute_sets_is_key_witness:
  "is_key (snd (Key_add_attribute (sample_key PRIMARY []) (sample_attr ''id'' False False)))
   \<and> \<not> Attribute.is_optional
         (snd (Key_add_attribute (sample_key PRIMARY []) (sample_attr ''id'' False False)))"
  using key_add_attribute_sets_is_key
          [of "sample_key PRIMARY []" "sample_attr ''id'' False False"]
  by (simp add: sample_attr_def)

subsection \<open>The entity registry\<close>

lemma entity_names_unique_add:
  assumes "entity_names_unique d"
  shows "entity_names_unique (add_entity_type d e)"
proof -
  have "list_all (\<lambda>(n, x). n = en_name x) (AList.update (en_name e) e al)"
    if "list_all (\<lambda>(n, x). n = en_name x) al" for al
    using that by (induction al) auto
  with assms show ?thesis
    by (simp add: entity_names_unique_def add_entity_type_def distinct_update)
qed

text \<open>
  C10. \<^verbatim>\<open>Database.add_entity_type\<close> has no failing branch. It files the entity under
  its name, replacing whatever was filed there; every other name resolves as before;
  nothing else of the database changes; the registry invariant (pairwise different
  keys, every entity under its own name) is kept; and \<^verbatim>\<open>get_entity_type\<close> of the
  entity's name then returns the entity.
\<close>

theorem add_entity_type_binds:
  "get_entity_type (add_entity_type d e) (en_name e) = Some e
   \<and> (\<forall>n. n \<noteq> en_name e \<longrightarrow>
          get_entity_type (add_entity_type d e) n = get_entity_type d n)
   \<and> (entity_names_unique d \<longrightarrow> entity_names_unique (add_entity_type d e))
   \<and> add_entity_type d e = d\<lparr>entity_types := entity_types (add_entity_type d e)\<rparr>"
  using entity_names_unique_add [of d e]
  by (simp add: get_entity_type_def add_entity_type_def update_conv')

theorem add_entity_type_binds_witness:
  "get_entity_type
     (add_entity_type
        (sample_db [(''person'', sample_person), (''city'', sample_entity ''city'' [] [])])
        (sample_entity ''person'' [] []))
     ''person'' = Some (sample_entity ''person'' [] [])
   \<and> get_entity_type
     (add_entity_type
        (sample_db [(''person'', sample_person), (''city'', sample_entity ''city'' [] [])])
        (sample_entity ''person'' [] []))
     ''city'' = Some (sample_entity ''city'' [] [])
   \<and> entity_names_unique
     (add_entity_type
        (sample_db [(''person'', sample_person), (''city'', sample_entity ''city'' [] [])])
        (sample_entity ''person'' [] []))"
proof -
  let ?d = "sample_db [(''person'', sample_person), (''city'', sample_entity ''city'' [] [])]"
  let ?e = "sample_entity ''person'' [] []"
  have n: "en_name ?e = ''person''" by (simp add: sample_entity_def)
  have u: "entity_names_unique ?d"
    by (simp add: entity_names_unique_def sample_db_def sample_person_def sample_entity_def)
  have c: "get_entity_type ?d ''city'' = Some (sample_entity ''city'' [] [])"
    by (simp add: get_entity_type_def sample_db_def)
  have ne: "''city'' \<noteq> en_name ?e" by (simp add: n)
  from add_entity_type_binds [of ?d ?e] have
    1: "get_entity_type (add_entity_type ?d ?e) (en_name ?e) = Some ?e" and
    2: "\<forall>n. n \<noteq> en_name ?e \<longrightarrow>
          get_entity_type (add_entity_type ?d ?e) n = get_entity_type ?d n" and
    3: "entity_names_unique ?d \<longrightarrow> entity_names_unique (add_entity_type ?d ?e)"
    by blast+
  from 1 n have "get_entity_type (add_entity_type ?d ?e) ''person'' = Some ?e" by simp
  moreover from 2 ne c
  have "get_entity_type (add_entity_type ?d ?e) ''city'' = Some (sample_entity ''city'' [] [])"
    by metis
  moreover from 3 u have "entity_names_unique (add_entity_type ?d ?e)" by blast
  ultimately show ?thesis by blast
qed

subsection \<open>Dependency ordering\<close>

lemma extends_refl: "extends N st st"
  by (simp add: extends_def)

lemma extends_trans:
  assumes "extends N st1 st2" and "extends N st2 st3"
  shows "extends N st1 st3"
proof -
  from assms(1) obtain T1 where t1: "snd st2 = snd st1 @ T1" "set T1 = fst st2 - fst st1"
    "distinct T1" and m1: "fst st1 \<subseteq> fst st2" "fst st2 \<subseteq> fst st1 \<union> N"
    by (auto simp: extends_def)
  from assms(2) obtain T2 where t2: "snd st3 = snd st2 @ T2" "set T2 = fst st3 - fst st2"
    "distinct T2" and m2: "fst st2 \<subseteq> fst st3" "fst st3 \<subseteq> fst st2 \<union> N"
    by (auto simp: extends_def)
  have "snd st3 = snd st1 @ (T1 @ T2)" using t1 t2 by simp
  moreover have "set (T1 @ T2) = fst st3 - fst st1" using t1 t2 m1 m2 by auto
  moreover have "distinct (T1 @ T2)" using t1 t2 by auto
  ultimately show ?thesis using m1 m2 unfolding extends_def by blast
qed

lemma extends_card:
  assumes "extends N st st'" and "finite N"
  shows "card (N - fst st') \<le> card (N - fst st)"
proof -
  from assms(1) have "fst st \<subseteq> fst st'" by (simp add: extends_def)
  then have "N - fst st' \<subseteq> N - fst st" by blast
  then show ?thesis using assms(2) by (simp add: card_mono)
qed

lemma visit_deps_returns:
  assumes P: "\<And>name st. name \<in> fst ` set D \<Longrightarrow> card (fst ` set D - fst st) < depth \<Longrightarrow>
               \<exists>st'. visit depth D name st = Some st' \<and> extends (fst ` set D) st st' \<and> name \<in> fst st'"
  shows "card (fst ` set D - fst st) < depth \<Longrightarrow>
         \<exists>st'. visit_deps depth D ds st = Some st' \<and> extends (fst ` set D) st st' \<and>
               (\<forall>d\<in>set ds. d \<in> fst ` set D \<longrightarrow> d \<in> fst st')"
proof (induction ds arbitrary: st)
  case Nil
  then show ?case by (simp add: extends_refl)
next
  case (Cons d ds)
  show ?case
  proof (cases "d \<in> fst ` set D")
    case True
    from P [OF True Cons.prems] obtain st1 where
      v: "visit depth D d st = Some st1" and e1: "extends (fst ` set D) st st1" and
      d1: "d \<in> fst st1" by blast
    have "card (fst ` set D - fst st1) < depth"
      using extends_card [OF e1] Cons.prems by simp
    from Cons.IH [OF this] obtain st2 where
      v2: "visit_deps depth D ds st1 = Some st2" and e2: "extends (fst ` set D) st1 st2" and
      d2: "\<forall>x\<in>set ds. x \<in> fst ` set D \<longrightarrow> x \<in> fst st2" by blast
    have "d \<in> fst st2" using d1 e2 by (auto simp: extends_def)
    with v v2 d2 extends_trans [OF e1 e2] True show ?thesis by simp
  next
    case False
    from Cons.IH [OF Cons.prems] obtain st2 where
      "visit_deps depth D ds st = Some st2" "extends (fst ` set D) st st2"
      "\<forall>x\<in>set ds. x \<in> fst ` set D \<longrightarrow> x \<in> fst st2" by blast
    with False show ?thesis by simp
  qed
qed

lemma visit_returns:
  "name \<in> fst ` set D \<Longrightarrow> card (fst ` set D - fst st) < depth \<Longrightarrow>
   \<exists>st'. visit depth D name st = Some st' \<and> extends (fst ` set D) st st' \<and> name \<in> fst st'"
proof (induction depth arbitrary: name st)
  case 0
  then show ?case by simp
next
  case (Suc depth)
  obtain V S where st: "st = (V, S)" by (cases st)
  show ?case
  proof (cases "name \<in> V")
    case True
    then show ?thesis using st by (simp add: extends_refl)
  next
    case False
    let ?N = "fst ` set D"
    have mem: "name \<in> ?N - V" using False Suc.prems(1) by simp
    have fin: "finite (?N - V)" by simp
    have "card ((?N - V) - {name}) < card (?N - V)"
      using fin mem by (rule card_Diff1_less)
    moreover have "?N - insert name V = (?N - V) - {name}" by blast
    ultimately have "card (?N - insert name V) < card (?N - V)"
      by simp
    then have c: "card (?N - fst (insert name V, S)) < depth"
      using Suc.prems(2) st by simp
    from visit_deps_returns [where D = D and depth = depth, OF _ c] Suc.IH
    obtain st1 where v: "visit_deps depth D (dependencies_get D name) (insert name V, S) = Some st1"
      and e: "extends ?N (insert name V, S) st1" by blast
    obtain V1 S1 where st1: "st1 = (V1, S1)" by (cases st1)
    from e st1 obtain T where t: "S1 = S @ T" "set T = V1 - insert name V" "distinct T"
      and m: "insert name V \<subseteq> V1" "V1 \<subseteq> insert name V \<union> ?N"
      by (auto simp: extends_def)
    have "extends ?N (V, S) (V1, S1 @ [name])"
      unfolding extends_def using t m False Suc.prems(1)
      by (intro conjI exI [of _ "T @ [name]"]) auto
    then show ?thesis using v st st1 False m by simp
  qed
qed

lemma visit_each_returns:
  "set names \<subseteq> fst ` set D \<Longrightarrow> card (fst ` set D - fst st) < depth \<Longrightarrow>
   \<exists>st'. visit_each depth D names st = Some st' \<and> extends (fst ` set D) st st' \<and>
         set names \<subseteq> fst st'"
proof (induction names arbitrary: st)
  case Nil
  then show ?case by (simp add: extends_refl)
next
  case (Cons n names)
  from Cons.prems have "n \<in> fst ` set D" by simp
  from visit_returns [OF this Cons.prems(2)] obtain st1 where
    v: "visit depth D n st = Some st1" and e1: "extends (fst ` set D) st st1" and
    d1: "n \<in> fst st1" by blast
  have "card (fst ` set D - fst st1) < depth"
    using extends_card [OF e1] Cons.prems by simp
  with Cons.IH [of st1] Cons.prems(1) obtain st2 where
    v2: "visit_each depth D names st1 = Some st2" and e2: "extends (fst ` set D) st1 st2" and
    d2: "set names \<subseteq> fst st2" by auto
  have "n \<in> fst st2" using d1 e2 by (auto simp: extends_def)
  with v v2 d2 extends_trans [OF e1 e2] show ?case by simp
qed






lemma update_fresh: "k \<notin> fst ` set al \<Longrightarrow> AList.update k v al = al @ [(k, v)]"
  by (induction al) auto

lemma build_dependencies_distinct:
  assumes "distinct (map en_name es)"
  shows "build_dependencies so es = map (\<lambda>e. (en_name e, so (entity_deps e))) es"
proof -
  have "fold (\<lambda>entity dependencies.
             AList.update (en_name entity) (so (entity_deps entity)) dependencies) es acc
        = acc @ map (\<lambda>e. (en_name e, so (entity_deps e))) es"
    if "distinct (map en_name es)" "en_name ` set es \<inter> fst ` set acc = {}" for acc
    using that
  proof (induction es arbitrary: acc)
    case Nil
    then show ?case by simp
  next
    case (Cons e es)
    have f: "en_name e \<notin> fst ` set acc" using Cons.prems(2) by auto
    have "en_name ` set es \<inter> fst ` set (acc @ [(en_name e, so (entity_deps e))]) = {}"
      using Cons.prems by auto
    with Cons.IH [of "acc @ [(en_name e, so (entity_deps e))]"] Cons.prems(1)
    show ?case by (simp add: update_fresh [OF f])
  qed
  from this [of "[]"] assms show ?thesis by (simp add: build_dependencies_def)
qed

lemma keyed_names:
  "list_all (\<lambda>(n, e). n = en_name e) al \<Longrightarrow> map en_name (map snd al) = map fst al"
  by (induction al) auto

lemma names_unique_facts:
  assumes "entity_names_unique d"
  shows "map en_name (map snd (entity_types d)) = map fst (entity_types d)"
    and "distinct (map en_name (map snd (entity_types d)))"
proof -
  from assms have l: "list_all (\<lambda>(n, e). n = en_name e) (entity_types d)"
    and dd: "distinct (map fst (entity_types d))"
    by (simp_all add: entity_names_unique_def)
  from l show 1: "map en_name (map snd (entity_types d)) = map fst (entity_types d)"
    by (rule keyed_names)
  show "distinct (map en_name (map snd (entity_types d)))"
    unfolding 1 by (rule dd)
qed

lemma sorted_names_result:
  assumes u: "entity_names_unique d" and f: "length (entity_types d) < depth"
  shows "\<exists>V S. visit_each depth (build_dependencies so (map snd (entity_types d)))
                 (map fst (build_dependencies so (map snd (entity_types d)))) ({}, [])
               = Some (V, S) \<and>
               distinct S \<and> set S = fst ` set (entity_types d)"
proof -
  let ?D = "build_dependencies so (map snd (entity_types d))"
  have D: "?D = map (\<lambda>e. (en_name e, so (entity_deps e))) (map snd (entity_types d))"
    using names_unique_facts(2) [OF u] by (rule build_dependencies_distinct)
  have names: "map fst ?D = map fst (entity_types d)"
    using names_unique_facts(1) [OF u] by (simp add: D comp_def)
  then have N: "fst ` set ?D = fst ` set (entity_types d)"
    by (metis set_map)
  have "card (fst ` set ?D) \<le> length (entity_types d)"
    unfolding N by (metis card_length length_map set_map)
  with f have c: "card (fst ` set ?D - fst ({}::string set, []::string list)) < depth" by simp
  have s: "set (map fst ?D) \<subseteq> fst ` set ?D" by simp
  from visit_each_returns [OF s c] obtain st' where
    v: "visit_each depth ?D (map fst ?D) ({}, []) = Some st'" and
    e: "extends (fst ` set ?D) ({}, []) st'" and
    a: "set (map fst ?D) \<subseteq> fst st'" by blast
  obtain V S where st': "st' = (V, S)" by (cases st')
  from e st' have "distinct S" "set S = V" "V \<subseteq> fst ` set ?D"
    by (auto simp: extends_def)
  moreover from a st' have "fst ` set ?D \<subseteq> V" by simp
  ultimately have "distinct S" "set S = fst ` set (entity_types d)" using N by auto
  with v st' show ?thesis by blast
qed

lemma distinct_of_map: "distinct (map f xs) \<Longrightarrow> distinct xs"
  by (induction xs) auto

lemma map_filter_all_some:
  "\<forall>x\<in>set xs. f x \<noteq> None \<Longrightarrow> List.map_filter f xs = map (the \<circ> f) xs"
  by (induction xs) (auto simp: List.map_filter_simps)


lemma lookup_values:
  assumes "distinct (map fst al)"
  shows "map (the \<circ> map_of al \<circ> fst) al = map snd al"
proof -
  have "(the \<circ> map_of al \<circ> fst) p = snd p" if "p \<in> set al" for p
  proof -
    from that have "(fst p, snd p) \<in> set al" by simp
    with assms have "map_of al (fst p) = Some (snd p)" by (rule map_of_is_SomeI)
    then show ?thesis by simp
  qed
  then show ?thesis by (intro map_cong [OF refl])
qed

lemma sort_entities_permutes:
  assumes u: "entity_names_unique d" and f: "length (entity_types d) < depth"
  shows "\<exists>order. sort_entities_by_dependency so depth d = Some order \<and> distinct order \<and>
           mset order = mset (map snd (entity_types d))"
proof -
  let ?ets = "entity_types d"
  let ?g = "the \<circ> map_of ?ets"
  from sorted_names_result [OF u f, of so] obtain V S where
    v: "visit_each depth (build_dependencies so (map snd ?ets))
          (map fst (build_dependencies so (map snd ?ets))) ({}, []) = Some (V, S)" and
    dS: "distinct S" and sS: "set S = fst ` set ?ets" by blast
  from u have dd: "distinct (map fst ?ets)" by (simp add: entity_names_unique_def)
  have some: "\<forall>x\<in>set S. get_entity_type d x \<noteq> None"
    using sS by (auto simp: get_entity_type_def map_of_eq_None_iff)
  have gm: "get_entity_type d = map_of ?ets"
    by (rule ext) (simp add: get_entity_type_def)
  have res: "sort_entities_by_dependency so depth d = Some (map ?g S)"
    using v map_filter_all_some [OF some]
    by (simp add: sort_entities_by_dependency_def Let_def gm)
  have "set S = set (map fst ?ets)" using sS by simp
  with set_eq_iff_mset_eq_distinct [OF dS dd] have "mset S = mset (map fst ?ets)"
    by blast
  then have "mset (map ?g S) = mset (map ?g (map fst ?ets))"
    unfolding mset_map by simp
  also have "map ?g (map fst ?ets) = map snd ?ets"
    using lookup_values [OF dd] by (simp add: comp_def)
  finally have m: "mset (map ?g S) = mset (map snd ?ets)" .
  have "distinct (map snd ?ets)"
  proof -
    have "distinct (map en_name (map snd ?ets))" by (rule names_unique_facts(2) [OF u])
    then show ?thesis by (rule distinct_of_map)
  qed
  with mset_eq_imp_distinct_iff [OF m] have "distinct (map ?g S)" by simp
  with res m show ?thesis by blast
qed

lemma build_dependencies_names:
  "fst ` set (build_dependencies so es) = en_name ` set es"
proof -
  have "fst ` set (fold (\<lambda>entity dependencies.
             AList.update (en_name entity) (so (entity_deps entity)) dependencies) es acc)
        = fst ` set acc \<union> en_name ` set es" for acc
    by (induction es arbitrary: acc) (auto simp: dom_update)
  from this [of "[]"] show ?thesis by (simp add: build_dependencies_def)
qed

lemma sort_entities_returns:
  assumes f: "length (entity_types d) < depth"
  shows "\<exists>order. sort_entities_by_dependency so depth d = Some order"
proof -
  let ?D = "build_dependencies so (map snd (entity_types d))"
  have "card (fst ` set ?D) \<le> card (set (map snd (entity_types d)))"
    unfolding build_dependencies_names by (rule card_image_le) simp
  also have "\<dots> \<le> length (map snd (entity_types d))" by (rule card_length)
  finally have "card (fst ` set ?D) \<le> length (entity_types d)" by simp
  with f have c: "card (fst ` set ?D - fst ({}::string set, []::string list)) < depth" by simp
  have s: "set (map fst ?D) \<subseteq> fst ` set ?D" by simp
  from visit_each_returns [OF s c] obtain st' where
    v: "visit_each depth ?D (map fst ?D) ({}, []) = Some st'" by blast
  obtain V S where "st' = (V, S)" by (cases st')
  with v show ?thesis by (simp add: sort_entities_by_dependency_def Let_def)
qed

text \<open>
  C6. The dependency resolver returns on every database, cyclic reference graphs
  included: as soon as the nesting depth allowed to \<^verbatim>\<open>visit\<close> exceeds the number of
  entities, \<^verbatim>\<open>_sort_entities_by_dependency\<close> returns an order, whatever the iteration
  order of the sets; and for a database whose registry files every entity under its own
  name, that order holds every entity of the database exactly once.
\<close>

theorem sort_entities_terminates:
  assumes f: "length (entity_types d) < depth"
  shows "\<exists>order. sort_entities_by_dependency so depth d = Some order \<and>
           (entity_names_unique d \<longrightarrow>
              distinct order \<and> mset order = mset (map snd (entity_types d)))"
proof (cases "entity_names_unique d")
  case True
  from sort_entities_permutes [OF True f, of so] True show ?thesis by blast
next
  case False
  with sort_entities_returns [OF f, of so] show ?thesis by blast
qed

theorem sort_entities_terminates_witness:
  "length (entity_types db_mutual) < 3 \<and> entity_names_unique db_mutual \<and>
   (\<exists>order. sort_entities_by_dependency remdups 3 db_mutual = Some order \<and> distinct order \<and>
      mset order = mset (map snd (entity_types db_mutual)))"
proof -
  have u: "entity_names_unique db_mutual"
    by (simp add: entity_names_unique_def db_mutual_def sample_db_def sample_entity_def)
  have f: "length (entity_types db_mutual) < 3"
    by (simp add: db_mutual_def sample_db_def)
  from sort_entities_terminates [OF f, of remdups] u f show ?thesis by blast
qed

lemma sort_mutual_references:
  "sort_entities_by_dependency remdups 3 db_mutual =
   Some [sample_entity ''b'' [] [mkref ''a_id'' ''a''],
         sample_entity ''a'' [] [mkref ''b_id'' ''b'']]"
  by (simp add: sort_entities_by_dependency_def db_mutual_def sample_db_def sample_entity_def
      mkref_def build_dependencies_def entity_deps_def dependencies_get_def numeral_3_eq_3
      List.map_filter_def get_entity_type_def)



subsection \<open>Serialization round trip\<close>

lemma enum_PrimitiveType:
  "enum_of_value PrimitiveType_value all_PrimitiveType (JStr (PrimitiveType_value p)) = Some p"
  by (cases p) (simp_all add: enum_of_value_def all_PrimitiveType_def)

lemma enum_KeyType:
  "enum_of_value KeyType_value all_KeyType (JStr (KeyType_value k)) = Some k"
  by (cases k) (simp_all add: enum_of_value_def all_KeyType_def)

lemma enum_EntityKind:
  "enum_of_value EntityKind_value all_EntityKind (JStr (EntityKind_value k)) = Some k"
  by (cases k) (simp_all add: enum_of_value_def all_EntityKind_def)

lemma enum_DatabaseType:
  "enum_of_value DatabaseType_value all_DatabaseType (JStr (DatabaseType_value k)) = Some k"
  by (cases k) (simp_all add: enum_of_value_def all_DatabaseType_def)

lemma from_symbol_value: "from_symbol (JStr (Cardinality_value c)) = Inr c"
  by (cases c) (simp_all add: from_symbol_def)

lemma opt_int_item_norm: "opt_int_item k (norm_int v) = opt_int_item k v"
  by (simp add: opt_int_item_def norm_int_def)

lemma opt_str_item_norm: "opt_str_item k (norm_str v) = opt_str_item k v"
  by (simp add: opt_str_item_def norm_str_def)

lemma map_of_opt_int_item:
  "map_of (opt_int_item k v) k' = (if k' = k then map_option JInt (norm_int v) else None)"
  by (cases v) (auto simp: opt_int_item_def norm_int_def)

lemma map_of_opt_str_item:
  "map_of (opt_str_item k v) k' = (if k' = k then map_option JStr (norm_str v) else None)"
  by (cases v) (auto simp: opt_str_item_def norm_str_def)

lemma map_of_app:
  "map_of (xs @ ys) k = (case map_of xs k of None \<Rightarrow> map_of ys k | Some v \<Rightarrow> Some v)"
  by (simp add: map_add_def)

lemma get_opt_int_eq:
  "map_of data k = map_option JInt v \<Longrightarrow> get_opt_int data k = Inr v"
  by (cases v) (simp_all add: get_opt_int_def)

lemma get_opt_str_eq:
  "map_of data k = map_option JStr v \<Longrightarrow> get_opt_str data k = Inr v"
  by (cases v) (simp_all add: get_opt_str_def)

lemma get_str_eq: "map_of data k = Some (JStr s) \<Longrightarrow> get_str data k dflt = Inr s"
  by (simp add: get_str_def)

lemma get_bool_eq: "map_of data k = Some (JBool b) \<Longrightarrow> get_bool data k dflt = Inr b"
  by (simp add: get_bool_def)

lemma get_int_eq: "map_of data k = Some (JInt i) \<Longrightarrow> get_int data k dflt = Inr i"
  by (simp add: get_int_def)

lemma get_list_eq: "map_of data k = Some (JList xs) \<Longrightarrow> get_list data k = Inr xs"
  by (simp add: get_list_def)

lemma get_list_absent: "map_of data k = None \<Longrightarrow> get_list data k = Inr []"
  by (simp add: get_list_def)

lemma get_meta_id_eq: "map_of data ''meta_id'' = Some (JStr s) \<Longrightarrow> get_meta_id fresh data = Inr s"
  by (simp add: get_meta_id_def)

lemma dict_get_eq: "map_of data k = Some v \<Longrightarrow> dict_get data k dflt = v"
  by (simp add: dict_get_def)

lemma create_dtype_to_dict: "create_dtype (DataType_to_dict t) = Inr (Some (norm_dtype t))"
proof (induction t)
  case (PrimitiveDataType p ml pr sc)
  let ?data = "[(''kind'', JStr ''primitive''), (''type'', JStr (PrimitiveType_value p))]
            @ opt_int_item ''max_length'' ml
            @ opt_int_item ''precision'' pr
            @ opt_int_item ''scale'' sc"
  have k: "dict_get ?data ''kind'' (JStr ''primitive'') = JStr ''primitive''"
    by (simp add: dict_get_def)
  have t: "dict_get ?data ''type'' (JStr ''string'') = JStr (PrimitiveType_value p)"
    by (simp add: dict_get_def)
  have 1: "get_opt_int ?data ''max_length'' = Inr (norm_int ml)"
    by (rule get_opt_int_eq) (simp add: map_of_app map_of_opt_int_item del: map_of_append split: option.splits)
  have 2: "get_opt_int ?data ''precision'' = Inr (norm_int pr)"
    by (rule get_opt_int_eq) (simp add: map_of_app map_of_opt_int_item del: map_of_append split: option.splits)
  have 3: "get_opt_int ?data ''scale'' = Inr (norm_int sc)"
    by (rule get_opt_int_eq) (simp add: map_of_app map_of_opt_int_item del: map_of_append split: option.splits)
  show ?case
    by (simp only: DataType_to_dict.simps create_dtype.simps k t 1 2 3 enum_PrimitiveType
        norm_dtype.simps) simp
next
  case (ListDataType t)
  then show ?case by (simp add: dict_get_def)
next
  case (SetDataType t)
  then show ?case by (simp add: dict_get_def)
next
  case (MapDataType t1 t2)
  then show ?case by (simp add: dict_get_def)
qed

lemma dtype_to_dict_norm: "DataType_to_dict (norm_dtype t) = DataType_to_dict t"
  by (induction t) (simp_all add: opt_int_item_norm)

lemma create_attr_to_dict:
  "create_attr fresh (Attribute_to_dict a) = Inr (Some (norm_attr a))"
proof -
  let ?data = "[(''kind'', JStr ''attribute''), (''meta_id'', JStr (Attribute.meta_id a)),
             (''attr_name'', JStr (attr_name a)),
             (''data_type'', DataType_to_dict (data_type a)),
             (''is_key'', JBool (is_key a)),
             (''is_optional'', JBool (Attribute.is_optional a))]
            @ opt_str_item ''description'' (Attribute.description a)"
  have k: "map_of ?data ''kind'' = Some (JStr ''attribute'')" by simp
  have dt: "dict_get ?data ''data_type'' (JDict []) = DataType_to_dict (data_type a)"
    by (simp add: dict_get_def)
  have n: "get_str ?data ''attr_name'' [] = Inr (attr_name a)"
    by (rule get_str_eq) simp
  have ik: "get_bool ?data ''is_key'' False = Inr (is_key a)"
    by (rule get_bool_eq) simp
  have io: "get_bool ?data ''is_optional'' True = Inr (Attribute.is_optional a)"
    by (rule get_bool_eq) simp
  have d: "get_opt_str ?data ''description'' = Inr (norm_str (Attribute.description a))"
    by (rule get_opt_str_eq) (simp add: map_of_app map_of_opt_str_item del: map_of_append split: option.splits)
  have m: "get_meta_id fresh ?data = Inr (Attribute.meta_id a)"
    by (rule get_meta_id_eq) simp
  show ?thesis
    unfolding Attribute_to_dict_def create_attr_def
    by (simp only: json.case k dt n ik io d m create_dtype_to_dict sum_bind.simps if_False
        not_True_eq_False simp_thms option.case norm_attr_def) simp
qed

lemma attr_to_dict_norm: "Attribute_to_dict (norm_attr a) = Attribute_to_dict a"
  by (simp add: Attribute_to_dict_def norm_attr_def dtype_to_dict_norm opt_str_item_norm)

lemma for_each_map:
  assumes "\<And>x s. x \<in> set xs \<Longrightarrow> body (g x) s = Inr (step x s)"
  shows "for_each body (map g xs) s = Inr (fold step xs s)"
  using assms by (induction xs arbitrary: s) simp_all

lemma create_attrs_to_dict:
  "create_attrs fresh (map Attribute_to_dict as) = Inr (map norm_attr as)"
proof -
  have "for_each (\<lambda>a attrs. sum_bind (create_attr fresh a)
                 (\<lambda>attr. Inr (case attr of None \<Rightarrow> attrs | Some x \<Rightarrow> attrs @ [x])))
          (map Attribute_to_dict as) acc
        = Inr (fold (\<lambda>a acc. acc @ [norm_attr a]) as acc)" for acc
    by (rule for_each_map) (simp add: create_attr_to_dict)
  moreover have "fold (\<lambda>a acc. acc @ [norm_attr a]) as acc = acc @ map norm_attr as" for acc
    by (induction as arbitrary: acc) simp_all
  ultimately show ?thesis by (simp add: create_attrs_def)
qed

lemma get_list_opt:
  "map_of data k = (if xs \<noteq> [] then Some (JList xs) else None) \<Longrightarrow> get_list data k = Inr xs"
  by (cases "xs = []") (simp_all add: get_list_def)

lemma create_ref_to_dict:
  "create_rel fresh (Reference_to_dict r) = Inr (Some (IsReference (norm_ref r)))"
proof -
  let ?data = "[(''kind'', JStr ''reference''), (''meta_id'', JStr (Reference.meta_id r)),
             (''ref_name'', JStr (ref_name r)),
             (''refs_to'', JStr (target_entity_name (refs_to r))),
             (''cardinality'', JStr (Cardinality_value (Reference.cardinality r))),
             (''is_optional'', JBool (Reference.is_optional r))]
            @ (if edge_attributes r \<noteq> []
               then [(''edge_attributes'', JList (map Attribute_to_dict (edge_attributes r)))]
               else [])
            @ opt_str_item ''description'' (Reference.description r)"
  have c: "dict_get ?data ''cardinality'' (JStr ''&'') =
           JStr (Cardinality_value (Reference.cardinality r))"
    by (simp add: dict_get_def)
  have k: "map_of ?data ''kind'' = Some (JStr ''reference'')" by simp
  have n: "get_str ?data ''ref_name'' [] = Inr (ref_name r)" by (rule get_str_eq) simp
  have t: "get_str ?data ''refs_to'' [] = Inr (target_entity_name (refs_to r))"
    by (rule get_str_eq) simp
  have o: "get_bool ?data ''is_optional'' True = Inr (Reference.is_optional r)"
    by (rule get_bool_eq) simp
  have d: "get_opt_str ?data ''description'' = Inr (norm_str (Reference.description r))"
    by (rule get_opt_str_eq)
      (simp add: map_of_app map_of_opt_str_item del: map_of_append split: option.splits)
  have m: "get_meta_id fresh ?data = Inr (Reference.meta_id r)" by (rule get_meta_id_eq) simp
  have e: "get_list ?data ''edge_attributes'' = Inr (map Attribute_to_dict (edge_attributes r))"
    by (rule get_list_opt)
      (simp add: map_of_app map_of_opt_str_item del: map_of_append split: option.splits)
  show ?thesis
    unfolding Reference_to_dict_def create_rel_def
    by (simp only: json.case c k n t o d m e from_symbol_value sum_bind.simps if_True
        create_attrs_to_dict norm_ref_def) simp
qed

lemma create_agg_to_dict:
  "create_rel fresh (Aggregate_to_dict a) = Inr (Some (IsAggregate (norm_agg a)))"
proof -
  let ?data = "[(''kind'', JStr ''aggregate''), (''meta_id'', JStr (Aggregate.meta_id a)),
             (''aggr_name'', JStr (aggr_name a)),
             (''aggregates'', JStr (target_entity_name (aggregates a))),
             (''cardinality'', JStr (Cardinality_value (Aggregate.cardinality a))),
             (''is_optional'', JBool (Aggregate.is_optional a)),
             (''is_array'', JBool (is_multiple (Aggregate.cardinality a)))]
            @ opt_str_item ''description'' (Aggregate.description a)"
  have c: "dict_get ?data ''cardinality'' (JStr ''&'') =
           JStr (Cardinality_value (Aggregate.cardinality a))"
    by (simp add: dict_get_def)
  have k: "map_of ?data ''kind'' = Some (JStr ''aggregate'')" by simp
  have k1: "(Some (JStr ''aggregate'') = Some (JStr ''reference'')) = False" by simp
  have k2: "(Some (JStr ''aggregate'') = Some (JStr ''aggregate'')) = True" by simp
  have n: "map_of ?data ''aggr_name'' = Some (JStr (aggr_name a))" by simp
  have t: "map_of ?data ''aggregates'' = Some (JStr (target_entity_name (aggregates a)))"
    by simp
  have o: "get_bool ?data ''is_optional'' True = Inr (Aggregate.is_optional a)"
    by (rule get_bool_eq) simp
  have d: "get_opt_str ?data ''description'' = Inr (norm_str (Aggregate.description a))"
    by (rule get_opt_str_eq)
      (simp add: map_of_app map_of_opt_str_item del: map_of_append split: option.splits)
  have m: "get_meta_id fresh ?data = Inr (Aggregate.meta_id a)" by (rule get_meta_id_eq) simp
  show ?thesis
    unfolding Aggregate_to_dict_def create_rel_def
    by (simp only: json.case c k k1 k2 n t o d m from_symbol_value sum_bind.simps if_True
        if_False simp_thms option.case norm_agg_def) simp
qed

lemma create_rel_to_dict:
  "create_rel fresh (Relationship_to_dict r) = Inr (Some (norm_rel r))"
  by (cases r) (simp_all add: create_ref_to_dict create_agg_to_dict)

lemma map_attr_to_dict_norm: "map Attribute_to_dict (map norm_attr as) = map Attribute_to_dict as"
  by (simp add: attr_to_dict_norm)

lemma rel_to_dict_norm: "Relationship_to_dict (norm_rel r) = Relationship_to_dict r"
  by (cases r)
    (simp_all add: Reference_to_dict_def Aggregate_to_dict_def norm_ref_def norm_agg_def
      opt_str_item_norm attr_to_dict_norm)

lemma norm_attr_eq_iff: "norm_attr a = norm_attr b \<longleftrightarrow> Attribute_to_dict a = Attribute_to_dict b"
proof
  assume "norm_attr a = norm_attr b"
  then have "Attribute_to_dict (norm_attr a) = Attribute_to_dict (norm_attr b)" by simp
  then show "Attribute_to_dict a = Attribute_to_dict b" by (simp add: attr_to_dict_norm)
next
  assume "Attribute_to_dict a = Attribute_to_dict b"
  then have "create_attr undefined (Attribute_to_dict a) = create_attr undefined (Attribute_to_dict b)"
    by simp
  then show "norm_attr a = norm_attr b" by (simp add: create_attr_to_dict)
qed

lemma norm_rel_eq_iff: "norm_rel a = norm_rel b \<longleftrightarrow> Relationship_to_dict a = Relationship_to_dict b"
proof
  assume "norm_rel a = norm_rel b"
  then have "Relationship_to_dict (norm_rel a) = Relationship_to_dict (norm_rel b)" by simp
  then show "Relationship_to_dict a = Relationship_to_dict b" by (simp add: rel_to_dict_norm)
next
  assume "Relationship_to_dict a = Relationship_to_dict b"
  then have "create_rel undefined (Relationship_to_dict a) = create_rel undefined (Relationship_to_dict b)"
    by simp
  then show "norm_rel a = norm_rel b" by (simp add: create_rel_to_dict)
qed

lemma distinct_map_transfer:
  assumes "distinct (map f xs)" and "\<And>x y. g x = g y \<Longrightarrow> f x = f y"
  shows "distinct (map g xs)"
  using assms(1)
proof (induction xs)
  case Nil
  show ?case by simp
next
  case (Cons x xs)
  from Cons.prems have fx: "f x \<notin> f ` set xs" and d: "distinct (map f xs)" by simp_all
  have "g x \<notin> g ` set xs"
  proof
    assume "g x \<in> g ` set xs"
    then obtain y where y: "y \<in> set xs" "g x = g y" by blast
    from assms(2) [OF y(2)] y(1) fx show False by blast
  qed
  moreover from Cons.IH [OF d] have "distinct (map g xs)" .
  ultimately show ?case by simp
qed

lemma var_add_attrs_acc:
  assumes "distinct ys" and "set ys \<inter> set (StructuralVariation.attributes w) = {}"
  shows "fold (\<lambda>a v. StructuralVariation_add_attribute v a) ys w
         = w\<lparr>StructuralVariation.attributes := StructuralVariation.attributes w @ ys\<rparr>"
  using assms
proof (induction ys arbitrary: w)
  case Nil
  show ?case by simp
next
  case (Cons y ys)
  let ?w1 = "w\<lparr>StructuralVariation.attributes := StructuralVariation.attributes w @ [y]\<rparr>"
  from Cons.prems have y: "y \<notin> set (StructuralVariation.attributes w)" "y \<notin> set ys"
    and d: "distinct ys" and dj: "set ys \<inter> set (StructuralVariation.attributes w) = {}"
    by auto
  from y(1) have s: "StructuralVariation_add_attribute w y = ?w1"
    by (simp add: StructuralVariation_add_attribute_def)
  have "set ys \<inter> set (StructuralVariation.attributes ?w1) = {}" using dj y(2) by simp
  from Cons.IH [OF d this] s show ?case by simp
qed

lemma var_add_rels_acc:
  assumes "distinct ys" and "set ys \<inter> set (StructuralVariation.relationships w) = {}"
  shows "fold (\<lambda>a v. StructuralVariation_add_relationship v a) ys w
         = w\<lparr>StructuralVariation.relationships := StructuralVariation.relationships w @ ys\<rparr>"
  using assms
proof (induction ys arbitrary: w)
  case Nil
  show ?case by simp
next
  case (Cons y ys)
  let ?w1 = "w\<lparr>StructuralVariation.relationships := StructuralVariation.relationships w @ [y]\<rparr>"
  from Cons.prems have y: "y \<notin> set (StructuralVariation.relationships w)" "y \<notin> set ys"
    and d: "distinct ys" and dj: "set ys \<inter> set (StructuralVariation.relationships w) = {}"
    by auto
  from y(1) have s: "StructuralVariation_add_relationship w y = ?w1"
    by (simp add: StructuralVariation_add_relationship_def)
  have "set ys \<inter> set (StructuralVariation.relationships ?w1) = {}" using dj y(2) by simp
  from Cons.IH [OF d this] s show ?case by simp
qed

lemma var_add_attrs:
  assumes "distinct (map norm_attr as)"
    and "StructuralVariation.attributes v = []"
  shows "fold (\<lambda>a v. StructuralVariation_add_attribute v (norm_attr a)) as v
         = v\<lparr>StructuralVariation.attributes := map norm_attr as\<rparr>"
proof -
  have "fold (\<lambda>a v. StructuralVariation_add_attribute v (norm_attr a)) as w
        = fold (\<lambda>a v. StructuralVariation_add_attribute v a) (map norm_attr as) w" for w
    by (induction as arbitrary: w) simp_all
  with var_add_attrs_acc [OF assms(1), of v] assms(2) show ?thesis by simp
qed

lemma var_add_rels:
  assumes "distinct (map norm_rel rs)"
    and "StructuralVariation.relationships v = []"
  shows "fold (\<lambda>r v. StructuralVariation_add_relationship v (norm_rel r)) rs v
         = v\<lparr>StructuralVariation.relationships := map norm_rel rs\<rparr>"
proof -
  have "fold (\<lambda>r v. StructuralVariation_add_relationship v (norm_rel r)) rs w
        = fold (\<lambda>a v. StructuralVariation_add_relationship v a) (map norm_rel rs) w" for w
    by (induction rs arbitrary: w) simp_all
  with var_add_rels_acc [OF assms(1), of v] assms(2) show ?thesis by simp
qed

lemma create_var_to_dict:
  assumes "wf_var v"
  shows "create_var fresh (StructuralVariation_to_dict v) = Inr (Some (norm_var v))"
proof -
  let ?as = "StructuralVariation.attributes v" and ?rs = "StructuralVariation.relationships v"
  let ?data = "[(''variation_id'', JInt (variation_id v)),
             (''attributes'', JList (map Attribute_to_dict ?as)),
             (''relationships'', JList (map Relationship_to_dict ?rs)),
             (''count'', JInt (StructuralVariation.count v))]
            @ opt_str_item ''first_timestamp'' (first_timestamp v)
            @ opt_str_item ''last_timestamp'' (last_timestamp v)"
  from assms have da: "distinct (map norm_attr ?as)" and dr: "distinct (map norm_rel ?rs)"
    by (auto simp: wf_var_def norm_attr_eq_iff norm_rel_eq_iff
        intro: distinct_map_transfer [where f = Attribute_to_dict]
               distinct_map_transfer [where f = Relationship_to_dict])
  have i: "get_int ?data ''variation_id'' 0 = Inr (variation_id v)" by (rule get_int_eq) simp
  have c: "get_int ?data ''count'' 0 = Inr (StructuralVariation.count v)"
    by (rule get_int_eq) simp
  have f: "get_opt_str ?data ''first_timestamp'' = Inr (norm_str (first_timestamp v))"
    by (rule get_opt_str_eq)
      (simp add: map_of_app map_of_opt_str_item del: map_of_append split: option.splits)
  have l: "get_opt_str ?data ''last_timestamp'' = Inr (norm_str (last_timestamp v))"
    by (rule get_opt_str_eq)
      (simp add: map_of_app map_of_opt_str_item del: map_of_append split: option.splits)
  have a: "get_list ?data ''attributes'' = Inr (map Attribute_to_dict ?as)"
    by (rule get_list_eq) simp
  have r: "get_list ?data ''relationships'' = Inr (map Relationship_to_dict ?rs)"
    by (rule get_list_eq) simp
  let ?v0 = "\<lparr>variation_id = variation_id v, attributes = [], relationships = [],
              count = StructuralVariation.count v,
              first_timestamp = norm_str (first_timestamp v),
              last_timestamp = norm_str (last_timestamp v)\<rparr>"
  have la: "for_each (\<lambda>a v. sum_bind (create_attr fresh a)
                       (\<lambda>attr. Inr (case attr of
                                      None \<Rightarrow> v
                                    | Some x \<Rightarrow> StructuralVariation_add_attribute v x)))
              (map Attribute_to_dict ?as) ?v0
            = Inr (?v0\<lparr>StructuralVariation.attributes := map norm_attr ?as\<rparr>)"
  proof -
    have "for_each (\<lambda>a v. sum_bind (create_attr fresh a)
                       (\<lambda>attr. Inr (case attr of
                                      None \<Rightarrow> v
                                    | Some x \<Rightarrow> StructuralVariation_add_attribute v x)))
              (map Attribute_to_dict ?as) ?v0
          = Inr (fold (\<lambda>a v. StructuralVariation_add_attribute v (norm_attr a)) ?as ?v0)"
      by (rule for_each_map) (simp add: create_attr_to_dict)
    with var_add_attrs [OF da, of ?v0] show ?thesis by simp
  qed
  let ?v1 = "?v0\<lparr>StructuralVariation.attributes := map norm_attr ?as\<rparr>"
  have lr: "for_each (\<lambda>r v. sum_bind (create_rel fresh r)
                       (\<lambda>rel. Inr (case rel of
                                     None \<Rightarrow> v
                                   | Some x \<Rightarrow> StructuralVariation_add_relationship v x)))
              (map Relationship_to_dict ?rs) ?v1
            = Inr (?v1\<lparr>StructuralVariation.relationships := map norm_rel ?rs\<rparr>)"
  proof -
    have "for_each (\<lambda>r v. sum_bind (create_rel fresh r)
                       (\<lambda>rel. Inr (case rel of
                                     None \<Rightarrow> v
                                   | Some x \<Rightarrow> StructuralVariation_add_relationship v x)))
              (map Relationship_to_dict ?rs) ?v1
          = Inr (fold (\<lambda>r v. StructuralVariation_add_relationship v (norm_rel r)) ?rs ?v1)"
      by (rule for_each_map) (simp add: create_rel_to_dict)
    with var_add_rels [OF dr, of ?v1] show ?thesis by simp
  qed
  have fin: "?v1\<lparr>StructuralVariation.relationships := map norm_rel ?rs\<rparr> = norm_var v"
    by (simp add: norm_var_def)
  show ?thesis
    unfolding StructuralVariation_to_dict_def create_var_def
    by (simp only: json.case i c f l a r la lr sum_bind.simps fin)
qed

lemma var_to_dict_norm: "StructuralVariation_to_dict (norm_var v) = StructuralVariation_to_dict v"
  by (simp add: StructuralVariation_to_dict_def norm_var_def opt_str_item_norm
      attr_to_dict_norm rel_to_dict_norm)

lemma find_attr_name: "find (\<lambda>a. attr_name a = n) attrs = Some a \<Longrightarrow> attr_name a = n"
  by (induction attrs) (auto split: if_splits)

lemma mark_key_id:
  "find (\<lambda>a. attr_name a = n) attrs = Some a \<Longrightarrow> is_key a \<Longrightarrow> mark_key n attrs = attrs"
  by (induction attrs) (auto split: if_splits)

lemma str_items_map: "str_items (map JStr xs) = Inr xs"
  by (induction xs) simp_all

lemma key_members:
  assumes "distinct names"
    and "list_all (\<lambda>n. case find (\<lambda>a. attr_name a = n) (EntityType.attributes e) of
                      None \<Rightarrow> False | Some a \<Rightarrow> is_key a) names"
    and "attr_name ` set (key_attributes k) \<inter> set names = {}"
  shows "for_each create_key_member (map JStr names) (k, e) =
         Inr (k\<lparr>key_attributes := key_attributes k @
                   map (\<lambda>n. the (find (\<lambda>a. attr_name a = n) (EntityType.attributes e))) names\<rparr>,
              e)"
  using assms
proof (induction names arbitrary: k)
  case Nil
  show ?case by simp
next
  case (Cons n names)
  from Cons.prems(2) obtain a where
    a: "find (\<lambda>a. attr_name a = n) (EntityType.attributes e) = Some a" and ik: "is_key a"
    by (auto split: option.splits)
  have an: "attr_name a = n" using a by (rule find_attr_name)
  have ida: "a\<lparr>is_key := True\<rparr> = a" using ik by simp
  have nin: "a \<notin> set (key_attributes k)"
  proof
    assume "a \<in> set (key_attributes k)"
    then have "n \<in> attr_name ` set (key_attributes k)" using an by force
    with Cons.prems(3) show False by auto
  qed
  let ?k1 = "k\<lparr>key_attributes := key_attributes k @ [a]\<rparr>"
  have ka: "Key_add_attribute k a = (?k1, a)"
    using nin by (simp add: Key_add_attribute_def ida)
  have mk: "mark_key n (EntityType.attributes e) = EntityType.attributes e"
    using a ik by (rule mark_key_id)
  have step: "create_key_member (JStr n) (k, e) = Inr (?k1, e)"
    by (simp add: create_key_member_def get_attribute_def a ka mk)
  have d: "distinct names" and n: "n \<notin> set names" using Cons.prems(1) by simp_all
  have l: "list_all (\<lambda>n. case find (\<lambda>a. attr_name a = n) (EntityType.attributes e) of
                      None \<Rightarrow> False | Some a \<Rightarrow> is_key a) names"
    using Cons.prems(2) by simp
  have dj: "attr_name ` set (key_attributes ?k1) \<inter> set names = {}"
    using Cons.prems(3) an n by auto
  from Cons.IH [OF d l dj] step a show ?case by simp
qed

lemma create_key_to_dict:
  assumes "wf_key (EntityType.attributes e) k"
  shows "create_key (Key_to_dict k) e = Inr (Some (norm_key (EntityType.attributes e) k), e)"
proof -
  let ?ra = "if truthy_str (referenced_entity k) then referenced_attributes k else []"
  let ?data = "[(''key_type'', JStr (KeyType_value (key_type k))),
             (''attributes'', JList (map JStr (get_attribute_names k))),
             (''is_managed'', JBool (is_managed k))]
            @ (if truthy_str (referenced_entity k)
               then [(''referenced_entity'', JStr (the (referenced_entity k))),
                     (''referenced_attributes'', JList (map JStr (referenced_attributes k)))]
               else [])"
  from assms have ne: "get_attribute_names k \<noteq> []" and d: "distinct (get_attribute_names k)"
    and l: "list_all (\<lambda>n. case find (\<lambda>a. attr_name a = n) (EntityType.attributes e) of
                      None \<Rightarrow> False | Some a \<Rightarrow> is_key a) (get_attribute_names k)"
    by (simp_all add: wf_key_def get_attribute_names_def)
  have m: "get_bool ?data ''is_managed'' True = Inr (is_managed k)" by (rule get_bool_eq) simp
  have re: "get_opt_str ?data ''referenced_entity'' = Inr (norm_str (referenced_entity k))"
    by (rule get_opt_str_eq) (cases "referenced_entity k"; simp add: norm_str_def)
  have ra: "get_list ?data ''referenced_attributes'' = Inr (map JStr ?ra)"
    by (simp add: get_list_def)
  have nm: "get_list ?data ''attributes'' = Inr (map JStr (get_attribute_names k))"
    by (rule get_list_eq) simp
  have kt: "dict_get ?data ''key_type'' (JStr ''PRIMARY'') = JStr (KeyType_value (key_type k))"
    by (simp add: dict_get_def)
  let ?k0 = "\<lparr>key_type = key_type k, key_attributes = [], is_managed = is_managed k,
              referenced_entity = norm_str (referenced_entity k),
              referenced_attributes = ?ra\<rparr>"
  have loop: "for_each create_key_member (map JStr (get_attribute_names k)) (?k0, e) =
              Inr (norm_key (EntityType.attributes e) k, e)"
    using key_members [OF d l, of ?k0] by (simp add: norm_key_def)
  have nonempty: "key_attributes (norm_key (EntityType.attributes e) k) \<noteq> []"
    using ne by (simp add: norm_key_def)
  show ?thesis
    unfolding Key_to_dict_def create_key_def
    by (simp only: json.case m re ra nm kt sum_bind.simps str_items_map enum_KeyType
        option.case loop prod.case nonempty if_True simp_thms)
qed

lemma key_to_dict_norm:
  assumes "wf_key attrs k"
  shows "Key_to_dict (norm_key attrs k) = Key_to_dict k"
proof -
  from assms have l: "list_all (\<lambda>n. case find (\<lambda>a. attr_name a = n) attrs of
                      None \<Rightarrow> False | Some a \<Rightarrow> is_key a) (get_attribute_names k)"
    by (simp add: wf_key_def)
  have "map attr_name (map (\<lambda>n. the (find (\<lambda>a. attr_name a = n) attrs)) names) = names"
    if "list_all (\<lambda>n. case find (\<lambda>a. attr_name a = n) attrs of
                      None \<Rightarrow> False | Some a \<Rightarrow> is_key a) names" for names
    using that
  proof (induction names)
    case Nil
    show ?case by simp
  next
    case (Cons n names)
    from Cons.prems obtain a where a: "find (\<lambda>a. attr_name a = n) attrs = Some a"
      by (auto split: option.splits)
    from find_attr_name [OF a] a Cons show ?case by simp
  qed
  from this [OF l] have names: "get_attribute_names (norm_key attrs k) = get_attribute_names k"
    by (simp add: get_attribute_names_def norm_key_def)
  show ?thesis
    unfolding Key_to_dict_def names
    by (cases "referenced_entity k") (simp_all add: norm_key_def norm_str_def)
qed

lemma find_map_norm:
  "find (\<lambda>a. attr_name a = n) (map norm_attr as) =
   map_option norm_attr (find (\<lambda>a. attr_name a = n) as)"
  by (induction as) (simp_all add: norm_attr_def)

lemma wf_key_norm:
  assumes "wf_key as k"
  shows "wf_key (map norm_attr as) k"
proof -
  have "(case find (\<lambda>a. attr_name a = n) (map norm_attr as) of
            None \<Rightarrow> False | Some a \<Rightarrow> is_key a)
        = (case find (\<lambda>a. attr_name a = n) as of None \<Rightarrow> False | Some a \<Rightarrow> is_key a)" for n
    by (cases "find (\<lambda>a. attr_name a = n) as") (simp_all add: find_map_norm norm_attr_def)
  with assms show ?thesis by (simp add: wf_key_def)
qed

lemma for_each_map_inv:
  assumes "I s"
    and "\<And>x s. x \<in> set xs \<Longrightarrow> I s \<Longrightarrow> body (g x) s = Inr (step x s) \<and> I (step x s)"
  shows "for_each body (map g xs) s = Inr (fold step xs s) \<and> I (fold step xs s)"
  using assms
proof (induction xs arbitrary: s)
  case Nil
  then show ?case by simp
next
  case (Cons x xs)
  from Cons.prems(2) [of x s] Cons.prems(1)
  have b: "body (g x) s = Inr (step x s)" and i: "I (step x s)" by simp_all
  have "\<And>y s. y \<in> set xs \<Longrightarrow> I s \<Longrightarrow> body (g y) s = Inr (step y s) \<and> I (step y s)"
    using Cons.prems(2) by simp
  from Cons.IH [OF i this] b show ?case by simp
qed

lemma fold_append_map: "fold (\<lambda>x acc. acc @ [f x]) xs acc = acc @ map f xs"
  by (induction xs arbitrary: acc) simp_all

lemma fold_add_key: "fold (\<lambda>k s. add_key s (f k)) ks s = s\<lparr>keys := keys s @ map f ks\<rparr>"
  by (induction ks arbitrary: s) (simp_all add: add_key_def)

lemma fold_add_relationship:
  "fold (\<lambda>r s. add_relationship s (f r)) rs s =
   s\<lparr>EntityType.relationships := EntityType.relationships s @ map f rs\<rparr>"
  by (induction rs arbitrary: s) (simp_all add: add_relationship_def)

lemma fold_add_variation:
  "fold (\<lambda>v s. add_variation s (f v)) vs s = s\<lparr>variations := variations s @ map f vs\<rparr>"
  by (induction vs arbitrary: s) (simp_all add: add_variation_def)

lemma create_entity_to_dict:
  assumes "wf_entity e"
  shows "create_entity fresh (EntityType_to_dict e) = Inr (Some (norm_entity e))"
proof -
  let ?as = "EntityType.attributes e" and ?ks = "keys e" and ?rs = "EntityType.relationships e"
    and ?vs = "variations e"
  let ?data = "[(''meta_id'', JStr (EntityType.meta_id e)), (''en_name'', JStr (en_name e)),
             (''entity_kind'', JStr (EntityKind_value (entity_kind e))),
             (''is_root'', JBool (is_root e)),
             (''keys'', JList (map Key_to_dict ?ks)),
             (''attributes'', JList (map Attribute_to_dict ?as)),
             (''relationships'', JList (map Relationship_to_dict ?rs))]
            @ (if ?vs \<noteq> []
               then [(''variations'', JList (map StructuralVariation_to_dict ?vs))]
               else [])
            @ opt_str_item ''description'' (EntityType.description e)"
  from assms have wk: "\<And>k. k \<in> set ?ks \<Longrightarrow> wf_key ?as k"
    and wv: "\<And>v. v \<in> set ?vs \<Longrightarrow> wf_var v"
    by (simp_all add: wf_entity_def list_all_iff)
  have n: "get_str ?data ''en_name'' [] = Inr (en_name e)" by (rule get_str_eq) simp
  have r: "get_bool ?data ''is_root'' True = Inr (is_root e)" by (rule get_bool_eq) simp
  have d: "get_opt_str ?data ''description'' = Inr (norm_str (EntityType.description e))"
    by (rule get_opt_str_eq)
      (simp add: map_of_app map_of_opt_str_item del: map_of_append split: option.splits)
  have m: "get_meta_id fresh ?data = Inr (EntityType.meta_id e)" by (rule get_meta_id_eq) simp
  have a: "get_list ?data ''attributes'' = Inr (map Attribute_to_dict ?as)"
    by (rule get_list_eq) simp
  have kl: "get_list ?data ''keys'' = Inr (map Key_to_dict ?ks)" by (rule get_list_eq) simp
  have rl: "get_list ?data ''relationships'' = Inr (map Relationship_to_dict ?rs)"
    by (rule get_list_eq) simp
  have vl: "get_list ?data ''variations'' = Inr (map StructuralVariation_to_dict ?vs)"
    by (rule get_list_opt)
      (simp add: map_of_app map_of_opt_str_item del: map_of_append split: option.splits)
  have ek: "dict_get ?data ''entity_kind'' (JStr ''table'') = JStr (EntityKind_value (entity_kind e))"
    by (simp add: dict_get_def)
  let ?e0 = "\<lparr>en_name = en_name e, entity_kind = entity_kind e, is_root = is_root e,
              keys = [], attributes = map norm_attr ?as, relationships = [],
              variations = [], description = norm_str (EntityType.description e),
              meta_id = EntityType.meta_id e\<rparr>"
  let ?e1 = "?e0\<lparr>keys := map (norm_key (map norm_attr ?as)) ?ks\<rparr>"
  let ?e2 = "?e1\<lparr>EntityType.relationships := map norm_rel ?rs\<rparr>"
  let ?e3 = "?e2\<lparr>variations := map norm_var ?vs\<rparr>"
  have l1: "for_each (\<lambda>k e. sum_bind (create_key k e)
                       (\<lambda>(key, e'). Inr (case key of None \<Rightarrow> e' | Some x \<Rightarrow> add_key e' x)))
              (map Key_to_dict ?ks) ?e0 = Inr ?e1"
  proof -
    have "for_each (\<lambda>k e. sum_bind (create_key k e)
                       (\<lambda>(key, e'). Inr (case key of None \<Rightarrow> e' | Some x \<Rightarrow> add_key e' x)))
              (map Key_to_dict ?ks) ?e0
          = Inr (fold (\<lambda>k s. add_key s (norm_key (map norm_attr ?as) k)) ?ks ?e0)
          \<and> EntityType.attributes
               (fold (\<lambda>k s. add_key s (norm_key (map norm_attr ?as) k)) ?ks ?e0)
             = map norm_attr ?as"
    proof (rule for_each_map_inv [where I = "\<lambda>s. EntityType.attributes s = map norm_attr ?as"])
      show "EntityType.attributes ?e0 = map norm_attr ?as" by simp
    next
      fix x and s :: EntityType
      assume x: "x \<in> set ?ks" and s: "EntityType.attributes s = map norm_attr ?as"
      from wk [OF x] have "wf_key (EntityType.attributes s) x"
        unfolding s by (rule wf_key_norm)
      from create_key_to_dict [OF this] s
      show "sum_bind (create_key (Key_to_dict x) s)
              (\<lambda>(key, e'). Inr (case key of None \<Rightarrow> e' | Some x \<Rightarrow> add_key e' x))
            = Inr (add_key s (norm_key (map norm_attr ?as) x))
            \<and> EntityType.attributes (add_key s (norm_key (map norm_attr ?as) x))
              = map norm_attr ?as"
        by (simp add: add_key_def)
    qed
    then show ?thesis by (simp add: fold_add_key)
  qed
  have l2: "for_each (\<lambda>r e. sum_bind (create_rel fresh r)
                       (\<lambda>rel. Inr (case rel of None \<Rightarrow> e | Some x \<Rightarrow> add_relationship e x)))
              (map Relationship_to_dict ?rs) ?e1 = Inr ?e2"
  proof -
    have "for_each (\<lambda>r e. sum_bind (create_rel fresh r)
                       (\<lambda>rel. Inr (case rel of None \<Rightarrow> e | Some x \<Rightarrow> add_relationship e x)))
              (map Relationship_to_dict ?rs) ?e1
          = Inr (fold (\<lambda>r s. add_relationship s (norm_rel r)) ?rs ?e1)"
      by (rule for_each_map) (simp add: create_rel_to_dict)
    then show ?thesis by (simp add: fold_add_relationship)
  qed
  have l3: "for_each (\<lambda>v e. sum_bind (create_var fresh v)
                       (\<lambda>var. Inr (case var of None \<Rightarrow> e | Some x \<Rightarrow> add_variation e x)))
              (map StructuralVariation_to_dict ?vs) ?e2 = Inr ?e3"
  proof -
    have "for_each (\<lambda>v e. sum_bind (create_var fresh v)
                       (\<lambda>var. Inr (case var of None \<Rightarrow> e | Some x \<Rightarrow> add_variation e x)))
              (map StructuralVariation_to_dict ?vs) ?e2
          = Inr (fold (\<lambda>v s. add_variation s (norm_var v)) ?vs ?e2)"
      by (rule for_each_map) (simp add: create_var_to_dict [OF wv])
    then show ?thesis by (simp add: fold_add_variation)
  qed
  have fin: "?e3 = norm_entity e" by (simp add: norm_entity_def)
  show ?thesis
    unfolding EntityType_to_dict_def create_entity_def
    by (simp only: json.case n r d m a kl rl vl ek sum_bind.simps create_attrs_to_dict
        enum_EntityKind option.case l1 l2 l3 fin)
qed

lemma entity_to_dict_norm:
  assumes "wf_entity e"
  shows "EntityType_to_dict (norm_entity e) = EntityType_to_dict e"
proof -
  from assms have wk: "\<And>k. k \<in> set (keys e) \<Longrightarrow> wf_key (EntityType.attributes e) k"
    by (simp add: wf_entity_def list_all_iff)
  have "map Key_to_dict (map (norm_key (map norm_attr (EntityType.attributes e))) (keys e))
        = map Key_to_dict (keys e)"
    using key_to_dict_norm [OF wf_key_norm [OF wk]] by simp
  then show ?thesis
    by (simp add: EntityType_to_dict_def norm_entity_def opt_str_item_norm attr_to_dict_norm
        rel_to_dict_norm var_to_dict_norm)
qed

lemma en_name_norm: "en_name (norm_entity e) = en_name e"
  by (simp add: norm_entity_def)

lemma create_rel_type_to_dict:
  "create_rel_type fresh (RelationshipType_to_dict r) = Inr (Some (norm_rel_type r))"
proof -
  let ?data = "[(''meta_id'', JStr (RelationshipType.meta_id r)), (''rel_name'', JStr (rel_name r)),
             (''source_entity'', JStr (target_entity_name (source_entity r))),
             (''target_entity'', JStr (target_entity_name (target_entity r))),
             (''attributes'', JList (map Attribute_to_dict (RelationshipType.attributes r))),
             (''cardinality'', JStr (Cardinality_value (RelationshipType.cardinality r)))]
            @ opt_str_item ''description'' (RelationshipType.description r)"
  have n: "get_str ?data ''rel_name'' [] = Inr (rel_name r)" by (rule get_str_eq) simp
  have s: "get_str ?data ''source_entity'' [] = Inr (target_entity_name (source_entity r))"
    by (rule get_str_eq) simp
  have t: "get_str ?data ''target_entity'' [] = Inr (target_entity_name (target_entity r))"
    by (rule get_str_eq) simp
  have c: "dict_get ?data ''cardinality'' (JStr ''*'') =
           JStr (Cardinality_value (RelationshipType.cardinality r))"
    by (simp add: dict_get_def)
  have d: "get_opt_str ?data ''description'' = Inr (norm_str (RelationshipType.description r))"
    by (rule get_opt_str_eq)
      (simp add: map_of_app map_of_opt_str_item del: map_of_append split: option.splits)
  have m: "get_meta_id fresh ?data = Inr (RelationshipType.meta_id r)"
    by (rule get_meta_id_eq) simp
  have a: "get_list ?data ''attributes'' =
           Inr (map Attribute_to_dict (RelationshipType.attributes r))"
    by (rule get_list_eq) simp
  show ?thesis
    unfolding RelationshipType_to_dict_def create_rel_type_def
    by (simp only: json.case n s t c d m a from_symbol_value sum_bind.simps
        create_attrs_to_dict norm_rel_type_def) simp
qed

lemma rel_type_to_dict_norm:
  "RelationshipType_to_dict (norm_rel_type r) = RelationshipType_to_dict r"
  by (simp add: RelationshipType_to_dict_def norm_rel_type_def opt_str_item_norm
      attr_to_dict_norm)

lemma fold_add_entity_types:
  assumes "distinct (map fst ets)" and "list_all (\<lambda>(n, e). n = en_name e) ets"
    and "fst ` set ets \<inter> fst ` set (entity_types db) = {}"
  shows "fold (\<lambda>e db. add_entity_type db (norm_entity e)) (map snd ets) db
         = db\<lparr>entity_types := entity_types db @ map (\<lambda>(n, e). (n, norm_entity e)) ets\<rparr>"
  using assms
proof (induction ets arbitrary: db)
  case Nil
  show ?case by simp
next
  case (Cons p ets)
  obtain n e where p: "p = (n, e)" by (cases p)
  from Cons.prems p have ne: "n = en_name e" and nf: "n \<notin> fst ` set (entity_types db)"
    and nn: "n \<notin> fst ` set ets" and d: "distinct (map fst ets)"
    and l: "list_all (\<lambda>(n, e). n = en_name e) ets"
    and dj: "fst ` set ets \<inter> fst ` set (entity_types db) = {}"
    by auto
  let ?db1 = "db\<lparr>entity_types := entity_types db @ [(n, norm_entity e)]\<rparr>"
  have s: "add_entity_type db (norm_entity e) = ?db1"
    using nf by (simp add: add_entity_type_def en_name_norm ne [symmetric] update_fresh)
  have "fst ` set ets \<inter> fst ` set (entity_types ?db1) = {}" using dj nn by auto
  from Cons.IH [OF d l this] s p show ?case by simp
qed

lemma fold_add_relationship_types:
  assumes "distinct (map fst rts)" and "list_all (\<lambda>(n, r). n = rel_name r) rts"
    and "fst ` set rts \<inter> fst ` set (relationship_types db) = {}"
  shows "fold (\<lambda>r db. add_relationship_type db (norm_rel_type r)) (map snd rts) db
         = db\<lparr>relationship_types :=
                relationship_types db @ map (\<lambda>(n, r). (n, norm_rel_type r)) rts\<rparr>"
  using assms
proof (induction rts arbitrary: db)
  case Nil
  show ?case by simp
next
  case (Cons p rts)
  obtain n r where p: "p = (n, r)" by (cases p)
  from Cons.prems p have ne: "n = rel_name r" and nf: "n \<notin> fst ` set (relationship_types db)"
    and nn: "n \<notin> fst ` set rts" and d: "distinct (map fst rts)"
    and l: "list_all (\<lambda>(n, r). n = rel_name r) rts"
    and dj: "fst ` set rts \<inter> fst ` set (relationship_types db) = {}"
    by auto
  let ?db1 = "db\<lparr>relationship_types := relationship_types db @ [(n, norm_rel_type r)]\<rparr>"
  have rn: "rel_name (norm_rel_type r) = rel_name r" by (simp add: norm_rel_type_def)
  have s: "add_relationship_type db (norm_rel_type r) = ?db1"
    using nf by (simp add: add_relationship_type_def rn ne [symmetric] update_fresh)
  have "fst ` set rts \<inter> fst ` set (relationship_types ?db1) = {}" using dj nn by auto
  from Cons.IH [OF d l this] s p show ?case by simp
qed

lemma get_values_eq: "map_of data k = Some (JDict kvs) \<Longrightarrow> get_values data k = Inr (map snd kvs)"
  by (simp add: get_values_def)

lemma get_values_opt:
  "map_of data k = (if kvs \<noteq> [] then Some (JDict kvs) else None) \<Longrightarrow>
   get_values data k = Inr (map snd kvs)"
  by (cases "kvs = []") (simp_all add: get_values_def)

lemma from_dict_to_dict:
  assumes "wf_database d"
  shows "from_dict fresh (Database_to_dict d) = Inr (norm_database d)"
proof -
  let ?ets = "entity_types d" and ?rts = "relationship_types d"
  let ?ed = "map (\<lambda>(n, e). (n, EntityType_to_dict e)) ?ets"
  let ?rd = "map (\<lambda>(n, r). (n, RelationshipType_to_dict r)) ?rts"
  let ?data = "[(''meta_id'', JStr (Database.meta_id d)), (''db_name'', JStr (db_name d)),
             (''db_type'', JStr (DatabaseType_value (db_type d))),
             (''version'', JInt (version d)),
             (''entity_types'', JDict ?ed)]
            @ (if ?rts \<noteq> [] then [(''relationship_types'', JDict ?rd)] else [])
            @ opt_str_item ''description'' (Database.description d)"
  from assms have ue: "distinct (map fst ?ets)" "list_all (\<lambda>(n, e). n = en_name e) ?ets"
    and ur: "distinct (map fst ?rts)" "list_all (\<lambda>(n, r). n = rel_name r) ?rts"
    and we: "\<And>e. e \<in> set (map snd ?ets) \<Longrightarrow> wf_entity e"
    by (auto simp: wf_database_def entity_names_unique_def relationship_names_unique_def
        list_all_iff)
  have n: "get_str ?data ''db_name'' ''unknown'' = Inr (db_name d)" by (rule get_str_eq) simp
  have t: "dict_get ?data ''db_type'' (JStr ''relational'') = JStr (DatabaseType_value (db_type d))"
    by (simp add: dict_get_def)
  have v: "get_int ?data ''version'' 1 = Inr (version d)" by (rule get_int_eq) simp
  have ds: "get_opt_str ?data ''description'' = Inr (norm_str (Database.description d))"
    by (rule get_opt_str_eq)
      (simp add: map_of_app map_of_opt_str_item del: map_of_append split: option.splits)
  have m: "get_meta_id fresh ?data = Inr (Database.meta_id d)" by (rule get_meta_id_eq) simp
  have ev: "get_values ?data ''entity_types'' = Inr (map EntityType_to_dict (map snd ?ets))"
  proof -
    have "get_values ?data ''entity_types'' = Inr (map snd ?ed)" by (rule get_values_eq) simp
    moreover have "map snd ?ed = map EntityType_to_dict (map snd ?ets)"
      by (induction ?ets) auto
    ultimately show ?thesis by simp
  qed
  have rv: "get_values ?data ''relationship_types'' =
            Inr (map RelationshipType_to_dict (map snd ?rts))"
  proof -
    have "map_of ?data ''relationship_types'' = (if ?rd \<noteq> [] then Some (JDict ?rd) else None)"
      by (simp add: map_of_app map_of_opt_str_item del: map_of_append split: option.splits)
    then have "get_values ?data ''relationship_types'' = Inr (map snd ?rd)"
      by (rule get_values_opt)
    moreover have "map snd ?rd = map RelationshipType_to_dict (map snd ?rts)"
      by (induction ?rts) auto
    ultimately show ?thesis by simp
  qed
  let ?d0 = "\<lparr>db_name = db_name d, db_type = db_type d, entity_types = [],
              relationship_types = [], version = version d,
              description = norm_str (Database.description d),
              meta_id = Database.meta_id d\<rparr>"
  let ?d1 = "?d0\<lparr>entity_types := map (\<lambda>(n, e). (n, norm_entity e)) ?ets\<rparr>"
  have l1: "for_each (\<lambda>e_data db. sum_bind (create_entity fresh e_data)
                       (\<lambda>e. Inr (case e of None \<Rightarrow> db | Some x \<Rightarrow> add_entity_type db x)))
              (map EntityType_to_dict (map snd ?ets)) ?d0 = Inr ?d1"
  proof -
    have "for_each (\<lambda>e_data db. sum_bind (create_entity fresh e_data)
                       (\<lambda>e. Inr (case e of None \<Rightarrow> db | Some x \<Rightarrow> add_entity_type db x)))
              (map EntityType_to_dict (map snd ?ets)) ?d0
          = Inr (fold (\<lambda>e db. add_entity_type db (norm_entity e)) (map snd ?ets) ?d0)"
      by (rule for_each_map) (simp add: create_entity_to_dict [OF we])
    with fold_add_entity_types [OF ue, of ?d0] show ?thesis by simp
  qed
  have l2: "for_each (\<lambda>r_data db. sum_bind (create_rel_type fresh r_data)
                       (\<lambda>r. Inr (case r of
                                   None \<Rightarrow> db
                                 | Some x \<Rightarrow> add_relationship_type db x)))
              (map RelationshipType_to_dict (map snd ?rts)) ?d1 = Inr (norm_database d)"
  proof -
    have "for_each (\<lambda>r_data db. sum_bind (create_rel_type fresh r_data)
                       (\<lambda>r. Inr (case r of
                                   None \<Rightarrow> db
                                 | Some x \<Rightarrow> add_relationship_type db x)))
              (map RelationshipType_to_dict (map snd ?rts)) ?d1
          = Inr (fold (\<lambda>r db. add_relationship_type db (norm_rel_type r)) (map snd ?rts) ?d1)"
      by (rule for_each_map) (simp add: create_rel_type_to_dict)
    with fold_add_relationship_types [OF ur, of ?d1] show ?thesis
      by (simp add: norm_database_def)
  qed
  show ?thesis
    unfolding Database_to_dict_def from_dict_def
    by (simp only: json.case n t v ds m ev rv sum_bind.simps enum_DatabaseType option.case
        l1 l2)
qed

lemma database_to_dict_norm:
  assumes "wf_database d"
  shows "Database_to_dict (norm_database d) = Database_to_dict d"
proof -
  from assms have we: "\<And>p. p \<in> set (entity_types d) \<Longrightarrow> wf_entity (snd p)"
    by (auto simp: wf_database_def list_all_iff)
  have e: "map (\<lambda>(n, e). (n, EntityType_to_dict e))
             (map (\<lambda>(n, e). (n, norm_entity e)) (entity_types d))
           = map (\<lambda>(n, e). (n, EntityType_to_dict e)) (entity_types d)"
    using entity_to_dict_norm [OF we] by (auto simp: case_prod_beta)
  have r: "map (\<lambda>(n, r). (n, RelationshipType_to_dict r))
             (map (\<lambda>(n, r). (n, norm_rel_type r)) (relationship_types d))
           = map (\<lambda>(n, r). (n, RelationshipType_to_dict r)) (relationship_types d)"
    by (auto simp: case_prod_beta rel_type_to_dict_norm)
  show ?thesis
    by (simp add: Database_to_dict_def norm_database_def opt_str_item_norm e r del: map_map)
qed

lemma sum_bind_Inr_iff: "sum_bind m f = Inr y \<longleftrightarrow> (\<exists>x. m = Inr x \<and> f x = Inr y)"
  by (cases m) simp_all

lemma create_key_member_key_type:
  "create_key_member an (k, e) = Inr (k', e') \<Longrightarrow> key_type k' = key_type k"
  by (auto simp: create_key_member_def Key_add_attribute_def Let_def
      split: json.splits option.splits if_splits)

lemma key_members_key_type:
  "for_each create_key_member names (k, e) = Inr (k', e') \<Longrightarrow> key_type k' = key_type k"
proof (induction names arbitrary: k e)
  case Nil
  then show ?case by simp
next
  case (Cons an names)
  from Cons.prems obtain k1 e1 where
    s: "create_key_member an (k, e) = Inr (k1, e1)" and
    r: "for_each create_key_member names (k1, e1) = Inr (k', e')"
    by (auto simp: sum_bind_Inr_iff)
  from Cons.IH [OF r] create_key_member_key_type [OF s] show ?case by simp
qed

lemma create_rel_default:
  assumes "map_of data ''cardinality'' = None"
    and "create_rel fresh (JDict data) = Inr (Some rel)"
  shows "Relationship_cardinality rel = ONE_TO_ONE"
proof -
  have c: "from_symbol (dict_get data ''cardinality'' (JStr ''&'')) = Inr ONE_TO_ONE"
    using assms(1) by (simp add: dict_get_def from_symbol_def)
  from assms(2) show ?thesis
    unfolding create_rel_def json.case c sum_bind.simps
    by (auto simp: sum_bind_Inr_iff split: if_splits)
qed

lemma create_key_default:
  assumes "map_of data ''key_type'' = None"
    and "create_key (JDict data) e = Inr (Some k, e')"
  shows "key_type k = PRIMARY"
proof -
  have c: "enum_of_value KeyType_value all_KeyType (dict_get data ''key_type'' (JStr ''PRIMARY''))
           = Some PRIMARY"
    using assms(1) by (simp add: dict_get_def enum_of_value_def all_KeyType_def)
  from assms(2) show ?thesis
    unfolding create_key_def json.case c option.case
    by (auto simp: sum_bind_Inr_iff split: if_splits dest!: key_members_key_type)
qed

lemma create_rel_type_default:
  assumes "map_of data ''cardinality'' = None"
    and "create_rel_type fresh (JDict data) = Inr (Some rt)"
  shows "RelationshipType.cardinality rt = ZERO_TO_MANY"
proof -
  have c: "from_symbol (dict_get data ''cardinality'' (JStr ''*'')) = Inr ZERO_TO_MANY"
    using assms(1) by (simp add: dict_get_def from_symbol_def)
  from assms(2) show ?thesis
    unfolding create_rel_type_def json.case c sum_bind.simps
    by (auto simp: sum_bind_Inr_iff)
qed

text \<open>
  C9 (as stated, refuted). A relationship type read from a dictionary without a
  \<^verbatim>\<open>cardinality\<close> entry does not get the required-one cardinality:
  \<^verbatim>\<open>_create_rel_type\<close> defaults to the symbol \<^verbatim>\<open>*\<close>.
\<close>

theorem rel_type_default_cardinality_counterexample:
  "map_sum id (map_option RelationshipType.cardinality)
     (create_rel_type no_uuid (JDict [(''rel_name'', JStr ''KNOWS'')]))
   \<noteq> Inr (Some ONE_TO_ONE)"
  by (simp add: create_rel_type_def get_str_def dict_get_def from_symbol_def get_opt_str_def
      get_meta_id_def get_list_def create_attrs_def)

text \<open>
  C9 (amended). Deserialization fills in missing optional fields: a relationship
  (reference or aggregate) built by \<^verbatim>\<open>_create_rel\<close> from a dictionary without a
  \<^verbatim>\<open>cardinality\<close> entry has the required-one cardinality; a key built by
  \<^verbatim>\<open>_create_key\<close> from a dictionary without a \<^verbatim>\<open>key_type\<close> entry is a PRIMARY key;
  and a relationship type built by \<^verbatim>\<open>_create_rel_type\<close> from a dictionary without a
  \<^verbatim>\<open>cardinality\<close> entry has the optional-many cardinality.
\<close>

theorem deserialization_defaults:
  "(map_of rel_data ''cardinality'' = None \<and> create_rel fresh (JDict rel_data) = Inr (Some rel)
      \<longrightarrow> Relationship_cardinality rel = ONE_TO_ONE)
   \<and> (map_of key_data ''key_type'' = None \<and> create_key (JDict key_data) e = Inr (Some k, e')
      \<longrightarrow> key_type k = PRIMARY)
   \<and> (map_of rt_data ''cardinality'' = None \<and>
        create_rel_type fresh (JDict rt_data) = Inr (Some rt)
      \<longrightarrow> RelationshipType.cardinality rt = ZERO_TO_MANY)"
  using create_rel_default [of rel_data fresh rel] create_key_default [of key_data e k e']
    create_rel_type_default [of rt_data fresh rt]
  by blast

theorem deserialization_defaults_witness:
  "(\<exists>rel. create_rel no_uuid (JDict [(''kind'', JStr ''reference''), (''refs_to'', JStr ''person'')])
            = Inr (Some rel) \<and> Relationship_cardinality rel = ONE_TO_ONE)
   \<and> (\<exists>k e'. create_key (JDict [(''attributes'', JList [JStr ''id''])]) sample_person
            = Inr (Some k, e') \<and> key_type k = PRIMARY)
   \<and> (\<exists>rt. create_rel_type no_uuid (JDict [(''rel_name'', JStr ''KNOWS'')]) = Inr (Some rt)
            \<and> RelationshipType.cardinality rt = ZERO_TO_MANY)"
proof -
  let ?rel_data = "[(''kind'', JStr ''reference''), (''refs_to'', JStr ''person'')]"
  let ?key_data = "[(''attributes'', JList [JStr ''id''])]"
  let ?rt_data = "[(''rel_name'', JStr ''KNOWS'')]"
  have "case create_rel no_uuid (JDict ?rel_data) of Inr (Some r) \<Rightarrow> True | _ \<Rightarrow> False"
    by code_simp
  then obtain rel where 1: "create_rel no_uuid (JDict ?rel_data) = Inr (Some rel)"
    by (auto split: sum.splits option.splits)
  have "case create_key (JDict ?key_data) sample_person of
          Inr (Some k, e') \<Rightarrow> True | _ \<Rightarrow> False"
    by code_simp
  then obtain k e' where 2: "create_key (JDict ?key_data) sample_person = Inr (Some k, e')"
    by (auto split: sum.splits option.splits prod.splits)
  have "case create_rel_type no_uuid (JDict ?rt_data) of Inr (Some r) \<Rightarrow> True | _ \<Rightarrow> False"
    by code_simp
  then obtain rt where 3: "create_rel_type no_uuid (JDict ?rt_data) = Inr (Some rt)"
    by (auto split: sum.splits option.splits)
  have n: "map_of ?rel_data ''cardinality'' = None" "map_of ?key_data ''key_type'' = None"
    "map_of ?rt_data ''cardinality'' = None" by simp_all
  from deserialization_defaults
         [of ?rel_data no_uuid rel ?key_data sample_person k e' ?rt_data rt] 1 2 3 n
  show ?thesis by blast
qed

text \<open>
  C3 (as stated, refuted). A key without member attributes is serialized, and dropped
  when the dictionary is read back (\<^verbatim>\<open>return k if k.key_attributes else None\<close>): the
  second serialization of such a database lacks the key.
\<close>

theorem reserialization_counterexample:
  "map_sum id Database_to_dict (from_dict no_uuid (Database_to_dict db_empty_key))
   \<noteq> Inr (Database_to_dict db_empty_key)"
  by code_simp

text \<open>
  C3 (amended). For every database that files its entities and relationship types
  under their own names, whose keys each have at least one member, with pairwise
  different member names that name attributes of the entity flagged \<^verbatim>\<open>is_key\<close>, and
  whose structural variations hold no two attributes and no two relationships with the
  same serialized form: reading back the serialized database succeeds, and serializing
  the result gives the same dictionary, key for key and in the same order. Every
  \<^verbatim>\<open>meta_id\<close> is written out and read back; none is regenerated.
\<close>

theorem reserialization_identical:
  assumes "wf_database d"
  shows "\<exists>d'. from_dict fresh (Database_to_dict d) = Inr d' \<and>
              Database_to_dict d' = Database_to_dict d"
  using from_dict_to_dict [OF assms] database_to_dict_norm [OF assms] by simp

theorem reserialization_identical_witness:
  "wf_database db_keyed \<and>
   (\<exists>d'. from_dict no_uuid (Database_to_dict db_keyed) = Inr d' \<and>
          Database_to_dict d' = Database_to_dict db_keyed)"
proof -
  have w: "wf_database db_keyed" by code_simp
  from reserialization_identical [OF w, of no_uuid] w show ?thesis by blast
qed

subsection \<open>Two-pass reading of references\<close>

lemma resolve_reference_keeps:
  assumes "get_entity_type (database st) n = Some e"
  shows "\<exists>e'. get_entity_type (database (resolve_reference uuid4 p st)) n = Some e' \<and>
              EntityType.attributes e' = EntityType.attributes e \<and>
              set (EntityType.relationships e) \<subseteq> set (EntityType.relationships e')"
proof -
  obtain entity_name col target_name where p: "p = (entity_name, col, target_name)"
    by (cases p) auto
  show ?thesis
  proof (cases "get_entity_type (database st) entity_name")
    case None
    then show ?thesis using assms by (simp add: p resolve_reference_def)
  next
    case (Some entity)
    show ?thesis
    proof (cases "get_entity_type (database st) target_name")
      case None
      then show ?thesis using assms Some by (simp add: p resolve_reference_def)
    next
      case target: (Some target)
      show ?thesis
      proof (cases "n = entity_name")
        case True
        with assms Some have "e = entity" by simp
        with True Some target show ?thesis
          by (auto simp: p resolve_reference_def get_entity_type_def update_conv'
              add_relationship_def Let_def)
      next
        case False
        with assms Some target show ?thesis
          by (simp add: p resolve_reference_def get_entity_type_def update_conv' Let_def)
      qed
    qed
  qed
qed

lemma resolve_fold_keeps:
  assumes "get_entity_type (database st) n = Some e"
  shows "\<exists>e'. get_entity_type (database (fold (resolve_reference uuid4) ps st)) n = Some e' \<and>
              EntityType.attributes e' = EntityType.attributes e \<and>
              set (EntityType.relationships e) \<subseteq> set (EntityType.relationships e')"
  using assms
proof (induction ps arbitrary: st e)
  case Nil
  then show ?case by simp
next
  case (Cons p ps)
  from resolve_reference_keeps [OF Cons.prems, of uuid4 p] obtain e1 where
    1: "get_entity_type (database (resolve_reference uuid4 p st)) n = Some e1" and
    a1: "EntityType.attributes e1 = EntityType.attributes e" and
    r1: "set (EntityType.relationships e) \<subseteq> set (EntityType.relationships e1)"
    by blast
  from Cons.IH [OF 1] obtain e' where
    2: "get_entity_type (database (fold (resolve_reference uuid4) ps
          (resolve_reference uuid4 p st))) n = Some e'" and
    a2: "EntityType.attributes e' = EntityType.attributes e1" and
    r2: "set (EntityType.relationships e1) \<subseteq> set (EntityType.relationships e')"
    by blast
  from 2 a1 a2 r1 r2 show ?case by auto
qed

lemma resolve_reference_adds:
  assumes "get_entity_type (database st) a = Some e"
    and "get_entity_type (database st) t = Some et"
  shows "\<exists>e' r. get_entity_type (database (resolve_reference uuid4 (a, c, t) st)) a = Some e' \<and>
           EntityType.attributes e' = EntityType.attributes e \<and>
           IsReference r \<in> set (EntityType.relationships e') \<and>
           ref_name r = c \<and> refs_to r = TargetName t \<and>
           Reference.cardinality r = ONE_TO_ONE \<and>
           Reference.is_optional r =
             (case get_attribute e c of None \<Rightarrow> True | Some attr \<Rightarrow> Attribute.is_optional attr)"
proof -
  let ?r = "\<lparr>Reference.cardinality = ONE_TO_ONE,
             is_optional = (case get_attribute e c of None \<Rightarrow> True
                            | Some attr \<Rightarrow> Attribute.is_optional attr),
             description = None, meta_id = uuid4 (uuid_calls st), ref_name = c,
             refs_to = TargetName t, edge_attributes = []\<rparr>"
  have "get_entity_type (database (resolve_reference uuid4 (a, c, t) st)) a =
        Some (add_relationship e (IsReference ?r))"
    using assms
    by (simp add: resolve_reference_def get_entity_type_def update_conv' Let_def)
  then show ?thesis
    by (intro exI [of _ "add_relationship e (IsReference ?r)"] exI [of _ ?r])
      (simp add: add_relationship_def)
qed

lemma resolve_fold_adds:
  assumes "(a, c, t) \<in> set ps"
    and "get_entity_type (database st) a = Some e"
    and "get_entity_type (database st) t = Some et"
  shows "\<exists>e' r. get_entity_type (database (fold (resolve_reference uuid4) ps st)) a = Some e' \<and>
           IsReference r \<in> set (EntityType.relationships e') \<and>
           ref_name r = c \<and> refs_to r = TargetName t \<and>
           Reference.cardinality r = ONE_TO_ONE \<and>
           Reference.is_optional r =
             (case get_attribute e' c of None \<Rightarrow> True | Some attr \<Rightarrow> Attribute.is_optional attr)"
  using assms
proof (induction ps arbitrary: st e et)
  case Nil
  then show ?case by simp
next
  case (Cons p ps)
  show ?case
  proof (cases "p = (a, c, t)")
    case True
    from resolve_reference_adds [OF Cons.prems(2,3), of uuid4 c] obtain e1 r where
      1: "get_entity_type (database (resolve_reference uuid4 (a, c, t) st)) a = Some e1" and
      a1: "EntityType.attributes e1 = EntityType.attributes e" and
      r: "IsReference r \<in> set (EntityType.relationships e1)" "ref_name r = c"
         "refs_to r = TargetName t" "Reference.cardinality r = ONE_TO_ONE" and
      o: "Reference.is_optional r =
            (case get_attribute e c of None \<Rightarrow> True | Some attr \<Rightarrow> Attribute.is_optional attr)"
      by blast
    from resolve_fold_keeps [OF 1, of uuid4 ps] obtain e' where
      2: "get_entity_type (database (fold (resolve_reference uuid4) ps
            (resolve_reference uuid4 (a, c, t) st))) a = Some e'" and
      a2: "EntityType.attributes e' = EntityType.attributes e1" and
      r2: "set (EntityType.relationships e1) \<subseteq> set (EntityType.relationships e')"
      by blast
    have "get_attribute e' c = get_attribute e c"
      by (simp add: get_attribute_def a1 a2)
    with 2 r r2 o True show ?thesis by auto
  next
    case False
    with Cons.prems(1) have m: "(a, c, t) \<in> set ps" by simp
    from resolve_reference_keeps [OF Cons.prems(2), of uuid4 p] obtain e1 where
      1: "get_entity_type (database (resolve_reference uuid4 p st)) a = Some e1" by blast
    from resolve_reference_keeps [OF Cons.prems(3), of uuid4 p] obtain et1 where
      2: "get_entity_type (database (resolve_reference uuid4 p st)) t = Some et1" by blast
    from Cons.IH [OF m 1 2] show ?thesis by simp
  qed
qed

lemma for_each_invariant:
  assumes "for_each f xs s = Inr s'" and "I s"
    and "\<And>x s t. x \<in> set xs \<Longrightarrow> f x s = Inr t \<Longrightarrow> I s \<Longrightarrow> I t"
  shows "I s'"
  using assms
proof (induction xs arbitrary: s)
  case Nil
  then show ?case by simp
next
  case (Cons x xs)
  from Cons.prems(1) obtain s1 where
    1: "f x s = Inr s1" and 2: "for_each f xs s1 = Inr s'"
    by (auto simp: sum_bind_Inr_iff)
  have 3: "I s1" using Cons.prems(3) [of x s s1] 1 Cons.prems(2) by simp
  have step: "I t" if "z \<in> set xs" "f z u = Inr t" "I u" for z u t
    using Cons.prems(3) [of z u t] that by simp
  from Cons.IH [OF 2 3 step] show ?case .
qed

lemma for_each_member:
  assumes "for_each f xs s = Inr s'" and "x \<in> set xs" and "I s"
    and inv: "\<And>y s t. y \<in> set xs \<Longrightarrow> f y s = Inr t \<Longrightarrow> I s \<Longrightarrow> I t"
    and est: "\<And>s t. f x s = Inr t \<Longrightarrow> I s \<Longrightarrow> Q t"
    and keep: "\<And>y s t. y \<in> set xs \<Longrightarrow> f y s = Inr t \<Longrightarrow> Q s \<Longrightarrow> Q t"
  shows "Q s'"
  using assms
proof (induction xs arbitrary: s)
  case Nil
  then show ?case by simp
next
  case (Cons y ys)
  from Cons.prems(1) obtain s1 where
    1: "f y s = Inr s1" and 2: "for_each f ys s1 = Inr s'"
    by (auto simp: sum_bind_Inr_iff)
  have keep': "Q t" if "z \<in> set ys" "f z u = Inr t" "Q u" for z u t
    using Cons.prems(6) [of z u t] that by simp
  have inv': "I t" if "z \<in> set ys" "f z u = Inr t" "I u" for z u t
    using Cons.prems(4) [of z u t] that by simp
  show ?case
  proof (cases "x = y")
    case True
    with 1 Cons.prems(3,5) have "Q s1" by simp
    from for_each_invariant [of f ys s1 s' Q, OF 2 this keep'] show ?thesis .
  next
    case False
    with Cons.prems(2) have m: "x \<in> set ys" by simp
    have "I s1" using Cons.prems(4) [of y s s1] 1 Cons.prems(3) by simp
    from Cons.IH [OF 2 m this inv' Cons.prems(5) keep'] show ?thesis .
  qed
qed

lemma column_step_frame:
  assumes "column_step TYPE_MAP uuid4 raw (e, st) = Inr (e', st')"
  shows "en_name e' = en_name e \<and> database st' = database st \<and>
         set (pending_references st) \<subseteq> set (pending_references st')"
  using assms
  by (auto simp: column_step_def Let_def sum_bind_Inr_iff add_attribute_def add_key_def
      split: if_splits option.splits prod.splits)

lemma parse_column_ref_info:
  assumes "parse_column TYPE_MAP uid col_def = Inr (Some attr, ref_info)"
  shows "\<exists>attr'. parse_column TYPE_MAP uid' col_def = Inr (Some attr', ref_info)"
  using assms
  by (auto simp: parse_column_def Let_def sum_bind_Inr_iff split: option.splits prod.splits)

lemma column_step_records:
  assumes "column_step TYPE_MAP uuid4 raw (e, st) = Inr (e', st')"
    and "strip raw \<noteq> []" and "\<not> is_table_constraint (strip raw)"
    and "parse_column TYPE_MAP uid (strip raw) = Inr (Some attr, Some (c, t))"
  shows "(en_name e, c, t) \<in> set (pending_references st')"
proof -
  from parse_column_ref_info [OF assms(4)] obtain attr' where
    "parse_column TYPE_MAP (uuid4 (uuid_calls st)) (strip raw) = Inr (Some attr', Some (c, t))"
    by blast
  with assms(1,2,3) show ?thesis
    by (auto simp: column_step_def Let_def)
qed

lemma parse_table_frame:
  assumes "parse_table TYPE_MAP uuid4 table_name table_body st = Inr (e, st')"
  shows "en_name e = lower table_name \<and> database st' = database st \<and>
         set (pending_references st) \<subseteq> set (pending_references st')"
proof -
  let ?I = "\<lambda>p. en_name (fst p) = lower table_name \<and> database (snd p) = database st \<and>
                 set (pending_references st) \<subseteq> set (pending_references (snd p))"
  from assms obtain e1 st1 where
    loop: "for_each (column_step TYPE_MAP uuid4) (split_columns table_body)
             (\<lparr>en_name = lower table_name, entity_kind = TABLE, is_root = True,
               keys = [], attributes = [], relationships = [], variations = [],
               description = None, meta_id = uuid4 (uuid_calls st)\<rparr>,
              st\<lparr>uuid_calls := uuid_calls st + 1\<rparr>) = Inr (e1, st1)"
    and e: "en_name e = en_name e1" and st': "st' = st1"
    by (auto simp: parse_table_def Let_def sum_bind_Inr_iff add_key_def
        split: option.splits)
  have "?I (e1, st1)"
  proof (rule for_each_invariant [of _ _ _ _ ?I, OF loop])
    show "?I (\<lparr>en_name = lower table_name, entity_kind = TABLE, is_root = True,
               keys = [], attributes = [], relationships = [], variations = [],
               description = None, meta_id = uuid4 (uuid_calls st)\<rparr>,
              st\<lparr>uuid_calls := uuid_calls st + 1\<rparr>)"
      by simp
  next
    fix x s t
    assume s: "column_step TYPE_MAP uuid4 x s = Inr t" and i: "?I s"
    from column_step_frame [of TYPE_MAP uuid4 x "fst s" "snd s" "fst t" "snd t"] s i
    show "?I t" by auto
  qed
  with e st' show ?thesis by simp
qed

lemma parse_table_records:
  assumes "parse_table TYPE_MAP uuid4 table_name table_body st = Inr (e, st')"
    and "raw \<in> set (split_columns table_body)"
    and "strip raw \<noteq> []" and "\<not> is_table_constraint (strip raw)"
    and "parse_column TYPE_MAP uid (strip raw) = Inr (Some attr, Some (c, t))"
  shows "(lower table_name, c, t) \<in> set (pending_references st')"
proof -
  let ?I = "\<lambda>p. en_name (fst p) = lower table_name"
  let ?Q = "\<lambda>p. (lower table_name, c, t) \<in> set (pending_references (snd p))"
  from assms(1) obtain e1 st1 where
    loop: "for_each (column_step TYPE_MAP uuid4) (split_columns table_body)
             (\<lparr>en_name = lower table_name, entity_kind = TABLE, is_root = True,
               keys = [], attributes = [], relationships = [], variations = [],
               description = None, meta_id = uuid4 (uuid_calls st)\<rparr>,
              st\<lparr>uuid_calls := uuid_calls st + 1\<rparr>) = Inr (e1, st1)"
    and st': "st' = st1"
    by (auto simp: parse_table_def Let_def sum_bind_Inr_iff split: option.splits)
  have "?Q (e1, st1)"
  proof (rule for_each_member [of _ _ _ _ raw ?I ?Q, OF loop assms(2)])
    show "?I (\<lparr>en_name = lower table_name, entity_kind = TABLE, is_root = True,
               keys = [], attributes = [], relationships = [], variations = [],
               description = None, meta_id = uuid4 (uuid_calls st)\<rparr>,
              st\<lparr>uuid_calls := uuid_calls st + 1\<rparr>)"
      by simp
  next
    fix y s t'
    assume s: "column_step TYPE_MAP uuid4 y s = Inr t'" and i: "?I s"
    from column_step_frame [of TYPE_MAP uuid4 y "fst s" "snd s" "fst t'" "snd t'"] s i
    show "?I t'" by auto
  next
    fix s t'
    assume s: "column_step TYPE_MAP uuid4 raw s = Inr t'" and i: "?I s"
    from column_step_records [of TYPE_MAP uuid4 raw "fst s" "snd s" "fst t'" "snd t'",
        OF _ assms(3,4,5)] s i
    show "?Q t'" by auto
  next
    fix y s t'
    assume s: "column_step TYPE_MAP uuid4 y s = Inr t'" and q: "?Q s"
    from column_step_frame [of TYPE_MAP uuid4 y "fst s" "snd s" "fst t'" "snd t'"] s q
    show "?Q t'" by auto
  qed
  with st' show ?thesis by simp
qed

lemma table_step_frame:
  assumes "table_step TYPE_MAP uuid4 (table_name, table_body) st = Inr st'"
  shows "fst ` set (entity_types (database st')) =
           insert (lower table_name) (fst ` set (entity_types (database st))) \<and>
         set (pending_references st) \<subseteq> set (pending_references st')"
proof -
  from assms obtain e st1 where
    p: "parse_table TYPE_MAP uuid4 table_name table_body st = Inr (e, st1)" and
    s: "st' = st1\<lparr>database := add_entity_type (database st1) e\<rparr>"
    by (auto simp: table_step_def sum_bind_Inr_iff)
  from parse_table_frame [OF p] s show ?thesis
    by (simp add: add_entity_type_def dom_update)
qed

lemma table_step_records:
  assumes "table_step TYPE_MAP uuid4 (table_name, table_body) st = Inr st'"
    and "raw \<in> set (split_columns table_body)"
    and "strip raw \<noteq> []" and "\<not> is_table_constraint (strip raw)"
    and "parse_column TYPE_MAP uid (strip raw) = Inr (Some attr, Some (c, t))"
  shows "(lower table_name, c, t) \<in> set (pending_references st')"
proof -
  from assms(1) obtain e st1 where
    p: "parse_table TYPE_MAP uuid4 table_name table_body st = Inr (e, st1)" and
    s: "st' = st1\<lparr>database := add_entity_type (database st1) e\<rparr>"
    by (auto simp: table_step_def sum_bind_Inr_iff)
  from parse_table_records [OF p assms(2,3,4,5)] s show ?thesis by simp
qed

lemma parse_tables_entities:
  assumes "for_each (table_step TYPE_MAP uuid4) tables st = Inr st'"
    and "(table_name, table_body) \<in> set tables"
  shows "lower table_name \<in> fst ` set (entity_types (database st'))"
proof (rule for_each_member [of _ _ _ _ "(table_name, table_body)" "\<lambda>s. True"
      "\<lambda>s. lower table_name \<in> fst ` set (entity_types (database s))", OF assms])
  fix s t
  assume "table_step TYPE_MAP uuid4 (table_name, table_body) s = Inr t"
  from table_step_frame [OF this]
  show "lower table_name \<in> fst ` set (entity_types (database t))" by simp
next
  fix y s t
  assume s: "table_step TYPE_MAP uuid4 y s = Inr t"
    and q: "lower table_name \<in> fst ` set (entity_types (database s))"
  from table_step_frame [of TYPE_MAP uuid4 "fst y" "snd y" s t] s q
  show "lower table_name \<in> fst ` set (entity_types (database t))" by simp
qed simp_all

lemma parse_tables_pending:
  assumes "for_each (table_step TYPE_MAP uuid4) tables st = Inr st'"
    and "(table_name, table_body) \<in> set tables"
    and "raw \<in> set (split_columns table_body)"
    and "strip raw \<noteq> []" and "\<not> is_table_constraint (strip raw)"
    and "parse_column TYPE_MAP uid (strip raw) = Inr (Some attr, Some (c, t))"
  shows "(lower table_name, c, t) \<in> set (pending_references st')"
proof (rule for_each_member [of _ _ _ _ "(table_name, table_body)" "\<lambda>s. True"
      "\<lambda>s. (lower table_name, c, t) \<in> set (pending_references s)", OF assms(1,2)])
  fix s t'
  assume "table_step TYPE_MAP uuid4 (table_name, table_body) s = Inr t'"
  from table_step_records [OF this assms(3,4,5,6)]
  show "(lower table_name, c, t) \<in> set (pending_references t')" .
next
  fix y s t'
  assume s: "table_step TYPE_MAP uuid4 y s = Inr t'"
    and q: "(lower table_name, c, t) \<in> set (pending_references s)"
  from table_step_frame [of TYPE_MAP uuid4 "fst y" "snd y" s t'] s q
  show "(lower table_name, c, t) \<in> set (pending_references t')" by auto
qed simp_all

text \<open>
  C5 (as stated, refuted). The column \<^verbatim>\<open>person_id\<close> of table \<^verbatim>\<open>address\<close> carries a
  \<^verbatim>\<open>REFERENCES\<close> clause naming the table \<^verbatim>\<open>person\<close>, whose statement comes later. The
  clause has no column list, so \<^verbatim>\<open>_parse_column\<close> records nothing for the second
  pass: \<^verbatim>\<open>parse\<close> completes and the entity \<^verbatim>\<open>address\<close> holds no relationship.
\<close>

theorem parse_references_without_column_counterexample:
  "parse sample_type_map sample_uuid4 ddl_no_column_list ''db'' =
   Inr \<lparr>db_name = ''db'', db_type = RELATIONAL,
        entity_types =
          [(''address'',
            \<lparr>en_name = ''address'', entity_kind = TABLE, is_root = True, keys = [],
             attributes =
               [\<lparr>attr_name = ''person_id'',
                 data_type = PrimitiveDataType INTEGER None None None,
                 is_key = False, is_optional = True, description = None,
                 meta_id = ''uuid-2''\<rparr>],
             relationships = [], variations = [], description = None,
             meta_id = ''uuid-1''\<rparr>),
           (''person'',
            \<lparr>en_name = ''person'', entity_kind = TABLE, is_root = True,
             keys =
               [\<lparr>key_type = PRIMARY,
                 key_attributes =
                   [\<lparr>attr_name = ''id'',
                     data_type = PrimitiveDataType INTEGER None None None,
                     is_key = True, is_optional = False, description = None,
                     meta_id = ''uuid-4''\<rparr>],
                 is_managed = True, referenced_entity = None,
                 referenced_attributes = []\<rparr>],
             attributes =
               [\<lparr>attr_name = ''id'',
                 data_type = PrimitiveDataType INTEGER None None None,
                 is_key = True, is_optional = False, description = None,
                 meta_id = ''uuid-4''\<rparr>],
             relationships = [], variations = [], description = None,
             meta_id = ''uuid-3''\<rparr>)],
        relationship_types = [], version = 1, description = None,
        meta_id = ''uuid-0''\<rparr>"
  by code_simp

text \<open>
  C5 (amended). Let \<^verbatim>\<open>parse\<close> complete on an ASCII text. If the statement of a table
  \<open>A\<close> is extracted, one of the pieces of its body is handed to \<^verbatim>\<open>_parse_column\<close>
  (it is not empty and is not passed over as a table-level constraint),
  \<^verbatim>\<open>_parse_column\<close> finds in it a clause \<^verbatim>\<open>REFERENCES B(column)\<close>, and the
  statement of the table \<open>B\<close> is extracted as well, wherever it stands, before or
  after that of \<open>A\<close>: then the entity registered under the lower-cased name of \<open>A\<close>
  holds a \<^verbatim>\<open>Reference\<close> named after the column, of cardinality one-to-one, whose
  target is the lower-cased name of \<open>B\<close>, and whose \<^verbatim>\<open>is_optional\<close> is that of the
  attribute of the entity with the name of the column (true when the entity has no
  such attribute).
\<close>

theorem parse_resolves_references:
  assumes "list_all is_ascii ddl"
    and "parse TYPE_MAP uuid4 ddl name = Inr db"
    and "(table_a, body_a) \<in> set (extract_create_tables (remove_comments ddl))"
    and "raw \<in> set (split_columns body_a)"
    and "strip raw \<noteq> []" and "\<not> is_table_constraint (strip raw)"
    and "parse_column TYPE_MAP uid (strip raw) = Inr (Some attr, Some (col, lower table_b))"
    and "(table_b, body_b) \<in> set (extract_create_tables (remove_comments ddl))"
  shows "\<exists>e r. get_entity_type db (lower table_a) = Some e \<and>
           IsReference r \<in> set (EntityType.relationships e) \<and>
           ref_name r = col \<and> refs_to r = TargetName (lower table_b) \<and>
           Reference.cardinality r = ONE_TO_ONE \<and>
           Reference.is_optional r =
             (case get_attribute e col of None \<Rightarrow> True
              | Some a \<Rightarrow> Attribute.is_optional a)"
proof -
  from assms(2) obtain st where
    loop: "for_each (table_step TYPE_MAP uuid4) (extract_create_tables (remove_comments ddl))
             \<lparr>database = \<lparr>db_name = name, db_type = RELATIONAL, entity_types = [],
                           relationship_types = [], version = 1, description = None,
                           meta_id = uuid4 0\<rparr>,
              pending_references = [], uuid_calls = 1\<rparr> = Inr st"
    and db: "db = database (fold (resolve_reference uuid4) (pending_references st) st)"
    by (auto simp: parse_def parse_tables_def Let_def sum_bind_Inr_iff resolve_references_def)
  from parse_tables_entities [OF loop assms(3)]
  have "get_entity_type (database st) (lower table_a) \<noteq> None"
    by (simp add: get_entity_type_def map_of_eq_None_iff)
  then obtain e0 where a: "get_entity_type (database st) (lower table_a) = Some e0"
    by auto
  from parse_tables_entities [OF loop assms(8)]
  have "get_entity_type (database st) (lower table_b) \<noteq> None"
    by (simp add: get_entity_type_def map_of_eq_None_iff)
  then obtain et where b: "get_entity_type (database st) (lower table_b) = Some et"
    by auto
  from parse_tables_pending [OF loop assms(3,4,5,6,7)]
  have p: "(lower table_a, col, lower table_b) \<in> set (pending_references st)" .
  from resolve_fold_adds [OF p a b, of uuid4] db show ?thesis by simp
qed

theorem parse_resolves_references_witness:
  "extract_create_tables (remove_comments ddl_forward) =
     [(''address'', ''id SERIAL PRIMARY KEY, person_id INTEGER NOT NULL REFERENCES person(id)''),
      (''person'', ''id SERIAL PRIMARY KEY, name VARCHAR(100)'')] \<and>
   (\<exists>db. parse sample_type_map sample_uuid4 ddl_forward ''db'' = Inr db \<and>
      (\<exists>e r. get_entity_type db ''address'' = Some e \<and>
         IsReference r \<in> set (EntityType.relationships e) \<and>
         ref_name r = ''person_id'' \<and> refs_to r = TargetName ''person'' \<and>
         Reference.cardinality r = ONE_TO_ONE \<and>
         Reference.is_optional r =
           (case get_attribute e ''person_id'' of None \<Rightarrow> True
            | Some a \<Rightarrow> Attribute.is_optional a)))"
proof -
  let ?body_a = "''id SERIAL PRIMARY KEY, person_id INTEGER NOT NULL REFERENCES person(id)''"
  let ?body_b = "''id SERIAL PRIMARY KEY, name VARCHAR(100)''"
  let ?raw = "''person_id INTEGER NOT NULL REFERENCES person(id)''"
  let ?attr = "\<lparr>attr_name = ''person_id'',
                 data_type = PrimitiveDataType INTEGER None None None,
                 is_key = False, is_optional = False, description = None,
                 meta_id = ''u''\<rparr>"
  have ascii: "list_all is_ascii ddl_forward" by code_simp
  have tables: "extract_create_tables (remove_comments ddl_forward) =
                  [(''address'', ?body_a), (''person'', ?body_b)]"
    by code_simp
  have ta: "(''address'', ?body_a) \<in> set (extract_create_tables (remove_comments ddl_forward))"
    and tb: "(''person'', ?body_b) \<in> set (extract_create_tables (remove_comments ddl_forward))"
    unfolding tables by simp_all
  have raw: "?raw \<in> set (split_columns ?body_a)" by code_simp
  have nonempty: "strip ?raw \<noteq> []" by code_simp
  have column: "\<not> is_table_constraint (strip ?raw)" by code_simp
  have found: "parse_column sample_type_map ''u'' (strip ?raw) =
                 Inr (Some ?attr, Some (''person_id'', lower ''person''))"
    by code_simp
  have "case parse sample_type_map sample_uuid4 ddl_forward ''db'' of
          Inr d \<Rightarrow> True | Inl e \<Rightarrow> False"
    by code_simp
  then obtain db where db: "parse sample_type_map sample_uuid4 ddl_forward ''db'' = Inr db"
    by (auto split: sum.splits)
  have names: "lower ''address'' = ''address''" "lower ''person'' = ''person''"
    by code_simp+
  from parse_resolves_references [OF ascii db ta raw nonempty column found tb]
  show ?thesis unfolding names using tables db by blast
qed

end
